(* ===== verification/Prelude.thy ===== *)
theory Prelude
  imports
    Main
    "HOL-Library.Word"
    "HOL-Library.Monad_Syntax"
    "HOL-Library.Multiset"
    "HOL-Library.Char_ord"
    "HOL-Library.List_Lexorder"
begin

text \<open>
  Shared vocabulary of the development: the machine types of the C++ sources, the
  theorem collections the component theories fill and use, and the generic lemmas on
  the option monad and on lists that several components share.

  A C++ operation that can end the process (a null pointer dereference, an exception
  that no handler catches, an out-of-bounds access) is a function into \<open>option\<close>, and
  \<^const>\<open>None\<close> is that abnormal end; everything the code reports through its return
  value stays a value. Sequencing is the \<open>do\<close> notation of the option monad with the
  state passed explicitly.
\<close>

section \<open>Machine types\<close>

type_synonym byte = "8 word"
type_synonym bytes = "8 word list"
type_synonym uint32 = "32 word"
type_synonym uint64 = "64 word"

section \<open>Theorem collections\<close>

named_theorems frame \<open>what an operation leaves unchanged\<close>

section \<open>The option monad with a state\<close>

lemma bind_pair_eq_Some:
  "(m \<bind> (\<lambda>(a, b). f a b)) = Some r \<longleftrightarrow> (\<exists>a b. m = Some (a, b) \<and> f a b = Some r)"
  by (cases m) auto

lemma bind_pair_eq_None:
  "(m \<bind> (\<lambda>(a, b). f a b)) = None \<longleftrightarrow> (m = None \<or> (\<exists>a b. m = Some (a, b) \<and> f a b = None))"
  by (cases m) auto

lemmas bind_pair = bind_pair_eq_Some bind_pair_eq_None

section \<open>Lists\<close>

text \<open>A loop that runs its body on each element and passes the state on.\<close>

primrec for_each :: "'a list \<Rightarrow> ('a \<Rightarrow> 's \<Rightarrow> 's option) \<Rightarrow> 's \<Rightarrow> 's option" where
  "for_each [] body s = Some s"
| "for_each (x # xs) body s = do { s \<leftarrow> body x s; for_each xs body s }"

text \<open>\<open>std::list::remove\<close>: every element equal to the argument goes.\<close>

definition list_remove :: "'a \<Rightarrow> 'a list \<Rightarrow> 'a list" where
  "list_remove x xs = filter (\<lambda>y. y \<noteq> x) xs"

lemma for_each_invariant:
  assumes "for_each xs body s = Some s'" and "P s"
    and "\<And>x s t. x \<in> set xs \<Longrightarrow> body x s = Some t \<Longrightarrow> P s \<Longrightarrow> P t"
  shows "P s'"
  using assms by (induction xs arbitrary: s) (auto simp: Option.bind_eq_Some_conv)

lemma set_list_remove [simp]: "set (list_remove x xs) = set xs - {x}"
  by (auto simp: list_remove_def)

lemma list_remove_notin [simp]: "x \<notin> set xs \<Longrightarrow> list_remove x xs = xs"
  by (induction xs) (auto simp: list_remove_def)

lemma list_remove_append [simp]:
  "list_remove x (xs @ ys) = list_remove x xs @ list_remove x ys"
  by (simp add: list_remove_def)

lemma list_remove_Cons [simp]:
  "list_remove x (y # ys) = (if y = x then list_remove x ys else y # list_remove x ys)"
  by (simp add: list_remove_def)

lemma list_remove_Nil [simp]: "list_remove x [] = []"
  by (simp add: list_remove_def)

lemma distinct_list_remove [simp]: "distinct xs \<Longrightarrow> distinct (list_remove x xs)"
  by (simp add: list_remove_def)

lemma set_of_mset_filter: "mset es = filter_mset P D \<Longrightarrow> set es = {e. e \<in># D \<and> P e}"
  by (drule arg_cong [where f = set_mset]) simp

end
