(* ===== verification/Std_Map.thy ===== *)
theory Std_Map
  imports Prelude
begin

text \<open>
  The C++ standard library's ordered associative container \<open>std::map\<close>, which the server
  uses for its session registry, its stream buffers, the contacts of a session and the
  grouping of the inbox: an association list in ascending key order, so that iteration
  visits the keys in order. The locale \<open>ordered_map\<close> is the contract the clients rely on;
  the clients' derived facts are proved in it once.
\<close>

section \<open>The container\<close>

type_synonym ('k, 'v) std_map = "('k \<times> 'v) list"

definition sm_find :: "('k, 'v) std_map \<Rightarrow> 'k \<Rightarrow> 'v option" where
  "sm_find m k = map_of m k"

text \<open>\<open>m[k] = v\<close>: overwrite the entry of \<open>k\<close>, or create it at its place in the order.\<close>

fun sm_put :: "'k::linorder \<Rightarrow> 'v \<Rightarrow> ('k, 'v) std_map \<Rightarrow> ('k, 'v) std_map" where
  "sm_put k v [] = [(k, v)]"
| "sm_put k v (e # m) =
     (if fst e = k then (k, v) # m
      else if fst e < k then e # sm_put k v m
      else (k, v) # e # m)"

definition sm_erase :: "'k \<Rightarrow> ('k, 'v) std_map \<Rightarrow> ('k, 'v) std_map" where
  "sm_erase k m = filter (\<lambda>e. fst e \<noteq> k) m"

definition sm_wf :: "('k::linorder, 'v) std_map \<Rightarrow> bool" where
  "sm_wf m \<longleftrightarrow> sorted_wrt (<) (map fst m)"

section \<open>The contract\<close>

locale ordered_map =
  fixes find :: "'m \<Rightarrow> 'k::linorder \<Rightarrow> 'v option"
    and put :: "'k \<Rightarrow> 'v \<Rightarrow> 'm \<Rightarrow> 'm"
    and erase :: "'k \<Rightarrow> 'm \<Rightarrow> 'm"
    and wf :: "'m \<Rightarrow> bool"
    and entries :: "'m \<Rightarrow> ('k \<times> 'v) list"
  assumes find_put: "find (put k v m) k' = (if k' = k then Some v else find m k')"
    and find_erase: "find (erase k m) k' = (if k' = k then None else find m k')"
    and wf_put: "wf m \<Longrightarrow> wf (put k v m)"
    and wf_erase: "wf m \<Longrightarrow> wf (erase k m)"
    and ascending: "wf m \<Longrightarrow> sorted_wrt (<) (map fst (entries m))"
    and entry_iff: "wf m \<Longrightarrow> (k, v) \<in> set (entries m) \<longleftrightarrow> find m k = Some v"
begin

lemma find_put_same: "find (put k v m) k = Some v"
  by (simp add: find_put)

lemma find_put_other: "k' \<noteq> k \<Longrightarrow> find (put k v m) k' = find m k'"
  by (simp add: find_put)

lemma keys_distinct: "wf m \<Longrightarrow> distinct (map fst (entries m))"
  using ascending strict_sorted_iff by blast

text \<open>Two well-formed containers with the same lookups iterate identically.\<close>

lemma extensional:
  assumes "wf m" and "wf n" and same: "\<And>k. find m k = find n k"
  shows "entries m = entries n"
proof -
  have "set (entries m) = set (entries n)"
    using entry_iff [OF \<open>wf m\<close>] entry_iff [OF \<open>wf n\<close>] same by auto
  moreover have "sorted (map fst (entries m))" "distinct (map fst (entries m))"
    using ascending [OF \<open>wf m\<close>] by (simp_all add: strict_sorted_iff)
  moreover have "sorted (map fst (entries n))" "distinct (map fst (entries n))"
    using ascending [OF \<open>wf n\<close>] by (simp_all add: strict_sorted_iff)
  moreover have "inj_on fst (set (entries m) \<union> set (entries n))"
    using calculation by (simp add: distinct_map)
  ultimately show ?thesis
    by (intro map_sorted_distinct_set_unique)
qed

end

section \<open>The association list meets the contract\<close>

lemma sm_put_keys [simp]: "set (map fst (sm_put k v m)) = insert k (set (map fst m))"
  by (induction m) auto

lemma sm_find_put: "sm_find (sm_put k v m) k' = (if k' = k then Some v else sm_find m k')"
  unfolding sm_find_def by (induction m) auto

lemma sm_find_erase: "sm_find (sm_erase k m) k' = (if k' = k then None else sm_find m k')"
  unfolding sm_find_def sm_erase_def by (induction m) auto

lemma sm_wf_put: "sm_wf m \<Longrightarrow> sm_wf (sm_put k v m)"
  unfolding sm_wf_def
proof (induction m)
  case (Cons e m)
  then show ?case
    using sm_put_keys [of k v m] by (auto simp del: sm_put_keys)
qed simp

lemma sm_wf_erase: "sm_wf m \<Longrightarrow> sm_wf (sm_erase k m)"
  unfolding sm_wf_def sm_erase_def by (induction m) auto

lemma sm_wf_distinct: "sm_wf m \<Longrightarrow> distinct (map fst m)"
  by (simp add: sm_wf_def strict_sorted_iff)

interpretation sm: ordered_map sm_find sm_put sm_erase sm_wf "\<lambda>m. m"
proof
  show "sm_find (sm_put k v m) k' = (if k' = k then Some v else sm_find m k')"
    for k k' :: "'a::linorder" and v :: 'b and m
    by (rule sm_find_put)
  show "sm_find (sm_erase k m) k' = (if k' = k then None else sm_find m k')"
    for k k' :: "'a::linorder" and m :: "('a, 'b) std_map"
    by (rule sm_find_erase)
  show "((k, v) \<in> set m) = (sm_find m k = Some v)" if "sm_wf m"
    for m :: "('a::linorder, 'b) std_map" and k v
    using sm_wf_distinct [OF that] by (simp add: sm_find_def)
qed (simp_all add: sm_wf_put sm_wf_erase, simp add: sm_wf_def)

lemma sm_wf_Nil [simp]: "sm_wf []"
  by (simp add: sm_wf_def)

lemma sm_find_Nil [simp]: "sm_find [] k = None"
  by (simp add: sm_find_def)

lemma sm_erase_Nil [simp]: "sm_erase k [] = []"
  by (simp add: sm_erase_def)

text \<open>
  A key larger than every key present goes to the end; this is how a sorted sequence of
  insertions rebuilds the container it came from.
\<close>

lemma sm_put_greatest: "(\<forall>e \<in> set m. fst e < k) \<Longrightarrow> sm_put k v m = m @ [(k, v)]"
  by (induction m) auto

lemma sm_put_distinct:
  "k \<notin> fst ` set m \<Longrightarrow> distinct (map fst m) \<Longrightarrow> distinct (map fst (sm_put k v m))"
proof (induction m)
  case (Cons e m)
  then show ?case
    using sm_put_keys [of k v m] by (auto simp del: sm_put_keys)
qed simp

end
