(* ===== verification/External.thy ===== *)
theory External
  imports Std_Map
begin

text \<open>
  What the server sources use and do not define: the \<open>Zway\<close> core library (UBJ values, the
  protocol engine, the packet head), the legacy MongoDB driver, OpenSSL and the clock.
  Their data is represented by the shapes the sources themselves distinguish (the
  \<open>switch\<close> statements of \<open>ubjValToBson\<close> and \<open>bsonToUbj\<close> in src/src/session.cpp); their
  functions are fields of the records \<open>lib\<close> and \<open>ext\<close>, so that every definition of the
  development takes them as a parameter. What the server relies on is stated as named
  predicates (\<open>ubj_laws\<close>, \<open>bson_laws\<close>, \dots), each a documented behaviour, and only the
  theorems that need one assume it.
\<close>

section \<open>Values exchanged with clients and with the database\<close>

text \<open>
  UBJ values. A value made from a buffer has type \<open>UBJ_ARRAY\<close> and a non-null buffer
  instead of elements, hence its own constructor. Doubles are kept as their bit pattern.
\<close>

datatype ubj =
    UNull
  | UBool bool
  | UInt32 uint32
  | UInt64 uint64
  | UDouble uint64
  | UStr string
  | UBuffer bytes
  | UArray "ubj list"
  | UObject "(string \<times> ubj) list"

datatype bson =
    BEOO
  | BBool bool
  | BNumberInt uint32
  | BNumberLong uint64
  | BNumberDouble uint64
  | BString string
  | BBinData bytes
  | BArray "(string \<times> bson) list"
  | BObject "(string \<times> bson) list"
  | BOther nat

type_synonym bson_obj = "(string \<times> bson) list"

datatype exn = Runtime_error string | Other_exception string

section \<open>Accessors and builders of the two value types\<close>

record lib =
  u_toInt :: "ubj \<Rightarrow> uint32"
  u_toLong :: "ubj \<Rightarrow> uint64"
  u_toBool :: "ubj \<Rightarrow> bool"
  u_toStr :: "ubj \<Rightarrow> string"
  u_toArray :: "ubj \<Rightarrow> ubj list"
  u_bufferSize :: "ubj \<Rightarrow> nat"
  u_bufferData :: "ubj \<Rightarrow> bytes"
  u_buffer :: "ubj \<Rightarrow> bytes option"
  u_hasField :: "ubj \<Rightarrow> string \<Rightarrow> bool"
  u_at :: "ubj \<Rightarrow> string \<Rightarrow> ubj"
  u_setField :: "(string \<times> ubj) list \<Rightarrow> string \<Rightarrow> ubj \<Rightarrow> (string \<times> ubj) list"
  z_bufferCreate :: "bytes \<Rightarrow> bytes option"
  b_append :: "bson_obj \<Rightarrow> string \<Rightarrow> bson \<Rightarrow> exn + bson_obj"
  b_mkArray :: "bson list \<Rightarrow> bson_obj"
  b_elem :: "bson_obj \<Rightarrow> string \<Rightarrow> bson"
  b_numberInt :: "bson \<Rightarrow> uint32"
  b_numberLong :: "bson \<Rightarrow> uint64"
  b_numberDouble :: "bson \<Rightarrow> uint64"
  b_boolean :: "bson \<Rightarrow> bool"
  b_str :: "bson \<Rightarrow> string"
  b_String :: "bson \<Rightarrow> string option"
  b_Obj :: "bson \<Rightarrow> bson_obj option"
  b_binData :: "bson \<Rightarrow> bytes"
  b_getIntField :: "bson_obj \<Rightarrow> string \<Rightarrow> uint32"

text \<open>
  UBJ accessors on values of the matching type; lookups in an object; assignment to a
  field that is larger than the fields present extends the object at its end (both for a
  sorted and for an insertion-ordered container), and a lookup after any assignment finds
  the assigned value at the assigned field and the old values elsewhere; no field occurs
  twice.
\<close>

definition ubj_laws :: "('z) lib_scheme \<Rightarrow> bool" where
  "ubj_laws X \<longleftrightarrow>
     (\<forall>n. u_toInt X (UInt32 n) = n) \<and> (\<forall>n. u_toLong X (UInt64 n) = n) \<and>
     (\<forall>b. u_toBool X (UBool b) = b) \<and> (\<forall>s. u_toStr X (UStr s) = s) \<and>
     (\<forall>vs. u_toArray X (UArray vs) = vs) \<and>
     (\<forall>bs. u_bufferSize X (UBuffer bs) = length bs \<and> u_bufferData X (UBuffer bs) = bs \<and>
           u_buffer X (UBuffer bs) = Some bs) \<and>
     (\<forall>vs. u_bufferSize X (UArray vs) = 0) \<and>
     (\<forall>fs k. u_hasField X (UObject fs) k = (map_of fs k \<noteq> None)) \<and>
     (\<forall>fs k v. map_of fs k = Some v \<longrightarrow> u_at X (UObject fs) k = v) \<and>
     (\<forall>fs k v. (\<forall>e \<in> set fs. fst e < k) \<longrightarrow> u_setField X fs k v = fs @ [(k, v)]) \<and>
     (\<forall>fs k v. map_of (u_setField X fs k v) = (map_of fs)(k \<mapsto> v)) \<and>
     (\<forall>fs k v. distinct (map fst fs) \<longrightarrow> distinct (map fst (u_setField X fs k v))) \<and>
     (\<forall>bs. z_bufferCreate X bs = Some bs)"

text \<open>
  BSON accessors on elements of the matching type, the field lookup (\<open>EOO\<close> for a field
  that is absent, on which the checked accessor \<open>Obj()\<close> throws), and a builder that appends every element but \<open>EOO\<close> (which it must not
  append) without running out of space.
\<close>

definition bson_laws :: "('z) lib_scheme \<Rightarrow> bool" where
  "bson_laws X \<longleftrightarrow>
     (\<forall>ob k b. b \<noteq> BEOO \<longrightarrow> b_append X ob k b = Inr (ob @ [(k, b)])) \<and>
     (\<forall>bs. map snd (b_mkArray X bs) = bs) \<and>
     (\<forall>fs k. b_elem X fs k = (case map_of fs k of None \<Rightarrow> BEOO | Some b \<Rightarrow> b)) \<and>
     (\<forall>n. b_numberInt X (BNumberInt n) = n) \<and> (\<forall>n. b_numberLong X (BNumberLong n) = n) \<and>
     (\<forall>n. b_numberDouble X (BNumberDouble n) = n) \<and> (\<forall>b. b_boolean X (BBool b) = b) \<and>
     (\<forall>s. b_str X (BString s) = s) \<and> (\<forall>s. b_String X (BString s) = Some s) \<and>
     b_Obj X BEOO = None \<and> (\<forall>fs. b_Obj X (BObject fs) = Some fs) \<and> (\<forall>fs. b_Obj X (BArray fs) = Some fs) \<and>
     (\<forall>bs. b_binData X (BBinData bs) = bs) \<and>
     (\<forall>fs k n. map_of fs k = Some (BNumberInt n) \<longrightarrow> b_getIntField X fs k = n)"

text \<open>
  The macro \<open>UBJ_OBJ(k1 << v1 << \<dots>)\<close> assigns the fields of a fresh object in turn. A
  \<open>BSON(\<dots>)\<close> expression that takes in an element of another document goes through the
  builder, whose exceptions no handler of the sources catches; \<^const>\<open>None\<close> is such an
  exception.
\<close>

definition UBJ_OBJ :: "('z) lib_scheme \<Rightarrow> (string \<times> ubj) list \<Rightarrow> ubj" where
  "UBJ_OBJ X flds = UObject (fold (\<lambda>(k, v) fs. u_setField X fs k v) flds [])"

fun BSON_from :: "('z) lib_scheme \<Rightarrow> bson_obj \<Rightarrow> (string \<times> bson) list \<Rightarrow> bson_obj option" where
  "BSON_from X ob [] = Some ob"
| "BSON_from X ob ((k, e) # flds) =
     (case b_append X ob k e of Inl _ \<Rightarrow> None | Inr ob \<Rightarrow> BSON_from X ob flds)"

abbreviation BSON :: "('z) lib_scheme \<Rightarrow> (string \<times> bson) list \<Rightarrow> bson_obj option" where
  "BSON X flds \<equiv> BSON_from X [] flds"

section \<open>Protocol constants and the engine\<close>

text \<open>
  The enumerators of \<open>Zway::Request::Type\<close> and \<open>Zway::Packet::StreamType\<close> that the
  sources name. Their numeric codes are defined by the core library.
\<close>

datatype request_type =
    Dispatch | CreateAccount | Login | Logout | Config | AddContact | CreateAddCode
  | FindContact | AcceptContact | RejectContact | ContactStatus | Push

datatype stream_type = Undefined | Request | Resource

text \<open>
  \<open>Zway::Engine\<close>, the base class of a session, is represented by the calls the session
  makes on it, in order, together with the responses it has handed to posted requests.
\<close>

datatype engine_call =
    PostRequestSuccess uint32 ubj
  | PostRequestFailure uint32 uint32 string
  | PostRequest request_type uint32 ubj
  | ResponseReceived request_type uint32
  | AddUbjSender uint32 stream_type ubj
  | AddStreamSender nat

section \<open>Database, cryptography, randomness, waiting\<close>

text \<open>
  The MongoDB driver works on a database state \<open>'db\<close> of its own. A query yields the
  documents its cursor delivers and whether the iteration ended in an exception; the
  driver documents that it may also return no cursor. The other operations report
  whether they returned (\<^const>\<open>True\<close>, or \<^const>\<open>Some\<close> of a count) or threw.
  \<open>m_waited\<close> is what the connection queue holds after a wait on the pool's condition
  variable, as the other threads left it. The functions of OpenSSL's SHA-256 report
  failure as \<^const>\<open>None\<close>; \<open>rand_u32\<close> and \<open>rand_bytes\<close> are the outputs of the
  \<open>i\<close>-th use of the generator.
\<close>

record 'db ext = lib +
  m_query :: "'db \<Rightarrow> string \<Rightarrow> bson_obj \<Rightarrow> bson_obj \<Rightarrow> nat \<Rightarrow> bson_obj option
     \<Rightarrow> (bson_obj list \<times> bool) option \<times> 'db"
  m_insert :: "'db \<Rightarrow> string \<Rightarrow> bson_obj \<Rightarrow> bool \<times> 'db"
  m_remove :: "'db \<Rightarrow> string \<Rightarrow> bson_obj \<Rightarrow> bool \<Rightarrow> bool \<times> 'db"
  m_update :: "'db \<Rightarrow> string \<Rightarrow> bson_obj \<Rightarrow> bson_obj \<Rightarrow> bool \<times> 'db"
  m_count :: "'db \<Rightarrow> string \<Rightarrow> bson_obj \<Rightarrow> uint64 option \<times> 'db"
  m_waited :: "nat list \<Rightarrow> nat list"
  sha_Init :: "bytes option"
  sha_Update :: "bytes \<Rightarrow> bytes \<Rightarrow> bytes option"
  sha_Final :: "bytes \<Rightarrow> bytes option"
  rand_u32 :: "nat \<Rightarrow> uint32"
  rand_bytes :: "nat \<Rightarrow> nat \<Rightarrow> bytes"
  rt_code :: "request_type \<Rightarrow> uint32"
  e_requestPending :: "engine_call list \<Rightarrow> uint32 \<Rightarrow> uint32 \<Rightarrow> bool"

text \<open>
  The case labels of \<open>ClientSession::processIncomingRequest\<close> are distinct constants: a
  C++ compiler rejects the switch otherwise.
\<close>

definition rt_laws :: "('db, 'z) ext_scheme \<Rightarrow> bool" where
  "rt_laws X \<longleftrightarrow> inj (rt_code X)"

text \<open>SHA-256 as OpenSSL documents it: the digest of everything fed to the context.\<close>

definition sha_laws :: "('db, 'z) ext_scheme \<Rightarrow> (bytes \<Rightarrow> bytes) \<Rightarrow> bool" where
  "sha_laws X digest \<longleftrightarrow>
     sha_Init X = Some [] \<and> (\<forall>c bs. sha_Update X c bs = Some (c @ bs)) \<and>
     (\<forall>c. sha_Final X c = Some (digest c)) \<and> (\<forall>c. length (digest c) = 32)"

text \<open>
  MongoDB. \<open>docs db ns\<close> are the documents of a collection and \<open>sat q d\<close> says that the
  document \<open>d\<close> matches the query \<open>q\<close>. A query delivers the matching documents in some
  order (all of them when no limit is given), an insert adds its document, a remove with
  \<open>justOne\<close> deletes one matching document if there is one, a count counts; an operation
  on one collection leaves the others alone. The database is reachable: no operation
  throws. A projection keeps the fields asked for.
\<close>

definition project :: "bson_obj option \<Rightarrow> bson_obj \<Rightarrow> bson_obj" where
  "project flds d =
     (case flds of None \<Rightarrow> d
      | Some fs \<Rightarrow> filter (\<lambda>(k, v). k = ''_id'' \<or> k \<in> set (map fst fs)) d)"

definition mongo_laws ::
  "('db, 'z) ext_scheme \<Rightarrow> ('db \<Rightarrow> string \<Rightarrow> bson_obj multiset) \<Rightarrow> (bson_obj \<Rightarrow> bson_obj \<Rightarrow> bool) \<Rightarrow> bool"
where
  "mongo_laws X docs sat \<longleftrightarrow>
     (\<forall>db ns q f. \<exists>ds db'. m_query X db ns q [] 0 f = (Some (map (project f) ds, False), db') \<and>
        mset ds = filter_mset (sat q) (docs db ns) \<and> docs db' = docs db) \<and>
     (\<forall>db ns d. fst (m_insert X db ns d) \<and>
        docs (snd (m_insert X db ns d)) = (docs db)(ns := add_mset d (docs db ns))) \<and>
     (\<forall>db ns q. fst (m_remove X db ns q True) \<and>
        (if \<exists>d \<in># docs db ns. sat q d
         then \<exists>d \<in># docs db ns. sat q d \<and>
                docs (snd (m_remove X db ns q True)) = (docs db)(ns := docs db ns - {#d#})
         else docs (snd (m_remove X db ns q True)) = docs db)) \<and>
     (\<forall>db ns q. fst (m_count X db ns q) =
          Some (of_nat (size (filter_mset (sat q) (docs db ns)))) \<and>
        docs (snd (m_count X db ns q)) = docs db)"

text \<open>
  What it means to match a query: the conditions of a query are joined by \<open>and\<close>, and an
  integer condition on a field that holds an integer compares the two.
\<close>

definition sat_laws :: "(bson_obj \<Rightarrow> bson_obj \<Rightarrow> bool) \<Rightarrow> bool" where
  "sat_laws sat \<longleftrightarrow>
     (\<forall>e. sat [] e) \<and> (\<forall>p q e. sat (p # q) e \<longleftrightarrow> sat [p] e \<and> sat q e) \<and>
     (\<forall>e k m n. map_of e k = Some (BNumberInt m) \<longrightarrow> sat [(k, BNumberInt n)] e = (m = n))"

section \<open>Consequences used by the components\<close>

lemma ubj_lawsD:
  assumes "ubj_laws X"
  shows "u_toInt X (UInt32 n) = n" "u_toLong X (UInt64 l) = l" "u_toBool X (UBool b) = b"
    "u_toStr X (UStr s) = s" "u_toArray X (UArray vs) = vs"
    "u_bufferSize X (UBuffer bs) = length bs" "u_bufferData X (UBuffer bs) = bs"
    "u_buffer X (UBuffer bs) = Some bs" "u_bufferSize X (UArray vs) = 0"
    "u_hasField X (UObject fs) k = (map_of fs k \<noteq> None)"
    "map_of fs k = Some v \<Longrightarrow> u_at X (UObject fs) k = v"
    "(\<forall>e \<in> set fs. fst e < k) \<Longrightarrow> u_setField X fs k v = fs @ [(k, v)]"
    "z_bufferCreate X bs = Some bs"
    "map_of (u_setField X fs k v) = (map_of fs)(k \<mapsto> v)"
    "distinct (map fst fs) \<Longrightarrow> distinct (map fst (u_setField X fs k v))"
  using assms unfolding ubj_laws_def by simp_all

lemma bson_lawsD:
  assumes "bson_laws X"
  shows "b \<noteq> BEOO \<Longrightarrow> b_append X ob k b = Inr (ob @ [(k, b)])" "map snd (b_mkArray X bl) = bl"
    "b_elem X fs k = (case map_of fs k of None \<Rightarrow> BEOO | Some b \<Rightarrow> b)"
    "b_numberInt X (BNumberInt n) = n" "b_numberLong X (BNumberLong l) = l"
    "b_numberDouble X (BNumberDouble l) = l" "b_boolean X (BBool c) = c"
    "b_str X (BString s) = s" "b_String X (BString s) = Some s"
    "b_Obj X (BObject fs) = Some fs" "b_Obj X (BArray fs) = Some fs"
    "b_binData X (BBinData bs) = bs"
    "map_of fs k = Some (BNumberInt n) \<Longrightarrow> b_getIntField X fs k = n" "b_Obj X BEOO = None"
  using assms unfolding bson_laws_def by blast+

declare BSON_from.simps [simp del]

lemma map_of_fold_setField:
  assumes "ubj_laws X"
  shows "map_of (fold (\<lambda>(k, v) fs. u_setField X fs k v) flds fs) = map_of fs ++ map_of (rev flds)"
  by (induction flds arbitrary: fs) (auto simp: ubj_lawsD(14) [OF assms] map_add_def fun_eq_iff split: option.splits)

text \<open>A field assigned once is read back from the object.\<close>

lemma u_at_UBJ_OBJ:
  "ubj_laws X \<Longrightarrow> map_of (rev flds) k = Some v \<Longrightarrow> u_at X (UBJ_OBJ X flds) k = v"
  by (simp add: UBJ_OBJ_def ubj_lawsD map_of_fold_setField)

lemma sat_lawsD:
  assumes "sat_laws sat"
  shows "sat [] e" and "sat (p # q # r) e \<longleftrightarrow> sat [p] e \<and> sat (q # r) e"
    and "map_of e k = Some (BNumberInt m) \<Longrightarrow> sat [(k, BNumberInt n)] e = (m = n)"
  using assms unfolding sat_laws_def by blast+

lemma rt_codeD: "rt_laws X \<Longrightarrow> rt_code X a = rt_code X b \<longleftrightarrow> a = b"
  by (auto simp: rt_laws_def inj_eq)

lemma sha_lawsD:
  assumes "sha_laws X digest"
  shows "sha_Init X = Some []" "sha_Update X c bs = Some (c @ bs)"
    "sha_Final X c = Some (digest c)" "length (digest c) = 32"
  using assms unfolding sha_laws_def by blast+

end
