(* ===== verification/Example_Env.thy ===== *)
theory Example_Env
  imports External
begin

text \<open>
  A concrete, executable instance \<open>ex_ext\<close> of the external parameters: accessors on the
  two value types, a database that keeps each collection as a list of documents, a
  32-byte checksum in place of SHA-256. It shows that the laws assumed about the external
  code can hold together, and the witnesses of the component theories run on it. It is
  not a model of any file of the repository.
\<close>

type_synonym mem_db = "string \<Rightarrow> bson_obj list"

fun ex_match :: "bson_obj \<Rightarrow> string \<times> bson \<Rightarrow> bool" where
  "ex_match d (k, BObject [(op, v)]) =
     (let e = (case map_of d k of None \<Rightarrow> BEOO | Some b \<Rightarrow> b) in
      if op = ''$ne'' then e \<noteq> v else e = BObject [(op, v)])"
| "ex_match d (k, BObject [(op, v), (op', v')]) = (map_of d k = Some v)"
| "ex_match d (k, BArray alts) =
     (k = ''$or'' \<and>
      (\<exists>(i, q) \<in> set alts. case q of BObject [(k', v)] \<Rightarrow> map_of d k' = Some v | _ \<Rightarrow> False))"
| "ex_match d (k, v) = (map_of d k = Some v)"

definition ex_sat :: "bson_obj \<Rightarrow> bson_obj \<Rightarrow> bool" where
  "ex_sat q d = list_all (ex_match d) q"

fun ex_remove1 :: "(bson_obj \<Rightarrow> bool) \<Rightarrow> bson_obj list \<Rightarrow> bson_obj list" where
  "ex_remove1 P [] = []"
| "ex_remove1 P (d # ds) = (if P d then ds else d # ex_remove1 P ds)"

definition ex_id :: "bson_obj \<Rightarrow> uint32" where
  "ex_id d = (case map_of d ''id'' of Some (BNumberInt n) \<Rightarrow> n | _ \<Rightarrow> 0)"

definition ex_query ::
  "mem_db \<Rightarrow> string \<Rightarrow> bson_obj \<Rightarrow> bson_obj \<Rightarrow> nat \<Rightarrow> bson_obj option
     \<Rightarrow> (bson_obj list \<times> bool) option \<times> mem_db" where
  "ex_query db ns q s n flds =
     (let hits = filter (ex_sat q) (db ns);
          hits = (if s = [] then hits else rev (sort_key (\<lambda>d. sint (ex_id d)) hits));
          hits = (if n = 0 then hits else take n hits)
      in (Some (map (project flds) hits, False), db))"

definition ex_set :: "bson_obj \<Rightarrow> bson_obj \<Rightarrow> bson_obj" where
  "ex_set upd d =
     (case upd of [(op, BObject [(k, v)])] \<Rightarrow> (k, v) # filter (\<lambda>e. fst e \<noteq> k) d | _ \<Rightarrow> d)"

definition ex_update :: "mem_db \<Rightarrow> string \<Rightarrow> bson_obj \<Rightarrow> bson_obj \<Rightarrow> bool \<times> mem_db" where
  "ex_update db ns q upd =
     (True, db(ns := map (\<lambda>d. if ex_sat q d then ex_set upd d else d) (db ns)))"

fun ex_pending :: "request_type \<Rightarrow> uint32 \<Rightarrow> engine_call list \<Rightarrow> bool \<Rightarrow> bool" where
  "ex_pending t n [] p = p"
| "ex_pending t n (PostRequest t' n' v # cs) p = ex_pending t n cs (p \<or> (t' = t \<and> n' = n))"
| "ex_pending t n (ResponseReceived t' n' # cs) p = ex_pending t n cs (p \<and> \<not> (t' = t \<and> n' = n))"
| "ex_pending t n (c # cs) p = ex_pending t n cs p"

fun ex_rt_code :: "request_type \<Rightarrow> uint32" where
  "ex_rt_code Dispatch = 5000" | "ex_rt_code CreateAccount = 1000"
| "ex_rt_code Login = 1100" | "ex_rt_code Logout = 1200" | "ex_rt_code Config = 1300"
| "ex_rt_code AddContact = 3100" | "ex_rt_code CreateAddCode = 3200"
| "ex_rt_code FindContact = 3300" | "ex_rt_code AcceptContact = 3400"
| "ex_rt_code RejectContact = 3500" | "ex_rt_code ContactStatus = 3600"
| "ex_rt_code Push = 4100"

definition ex_requestPending :: "engine_call list \<Rightarrow> uint32 \<Rightarrow> uint32 \<Rightarrow> bool" where
  "ex_requestPending cs t n =
     list_ex (\<lambda>r. ex_rt_code r = t \<and> ex_pending r n cs False)
       [Dispatch, CreateAccount, Login, Logout, Config, AddContact, CreateAddCode, FindContact,
        AcceptContact, RejectContact, ContactStatus, Push]"

definition ex_digest :: "bytes \<Rightarrow> bytes" where
  "ex_digest c = take 32 (c @ replicate 32 0)"

definition ex_setField :: "(string \<times> ubj) list \<Rightarrow> string \<Rightarrow> ubj \<Rightarrow> (string \<times> ubj) list" where
  "ex_setField fs k v =
     (if k \<in> fst ` set fs then map (\<lambda>e. if fst e = k then (k, v) else e) fs else sm_put k v fs)"

definition ex_ext :: "mem_db ext" where
  "ex_ext =
    \<lparr> u_toInt = (\<lambda>v. case v of UInt32 n \<Rightarrow> n | UInt64 n \<Rightarrow> ucast n | _ \<Rightarrow> 0),
      u_toLong = (\<lambda>v. case v of UInt64 n \<Rightarrow> n | UInt32 n \<Rightarrow> scast n | _ \<Rightarrow> 0),
      u_toBool = (\<lambda>v. case v of UBool b \<Rightarrow> b | UInt32 n \<Rightarrow> n \<noteq> 0 | _ \<Rightarrow> False),
      u_toStr = (\<lambda>v. case v of UStr s \<Rightarrow> s | _ \<Rightarrow> []),
      u_toArray = (\<lambda>v. case v of UArray vs \<Rightarrow> vs | _ \<Rightarrow> []),
      u_bufferSize = (\<lambda>v. case v of UBuffer bs \<Rightarrow> length bs | _ \<Rightarrow> 0),
      u_bufferData = (\<lambda>v. case v of UBuffer bs \<Rightarrow> bs | _ \<Rightarrow> []),
      u_buffer = (\<lambda>v. case v of UBuffer bs \<Rightarrow> Some bs | _ \<Rightarrow> None),
      u_hasField = (\<lambda>v k. case v of UObject fs \<Rightarrow> map_of fs k \<noteq> None | _ \<Rightarrow> False),
      u_at = (\<lambda>v k. case v of
         UObject fs \<Rightarrow> (case map_of fs k of Some x \<Rightarrow> x | None \<Rightarrow> UNull) | _ \<Rightarrow> UNull),
      u_setField = ex_setField,
      z_bufferCreate = Some,
      b_append = (\<lambda>ob k b. Inr (ob @ [(k, b)])),
      b_mkArray = map (\<lambda>b. ([], b)),
      b_elem = (\<lambda>fs k. case map_of fs k of None \<Rightarrow> BEOO | Some b \<Rightarrow> b),
      b_numberInt = (\<lambda>b. case b of BNumberInt n \<Rightarrow> n | BNumberLong n \<Rightarrow> ucast n | _ \<Rightarrow> 0),
      b_numberLong = (\<lambda>b. case b of BNumberLong n \<Rightarrow> n | BNumberInt n \<Rightarrow> scast n | _ \<Rightarrow> 0),
      b_numberDouble = (\<lambda>b. case b of BNumberDouble n \<Rightarrow> n | _ \<Rightarrow> 0),
      b_boolean = (\<lambda>b. case b of BBool c \<Rightarrow> c | _ \<Rightarrow> False),
      b_str = (\<lambda>b. case b of BString s \<Rightarrow> s | _ \<Rightarrow> []),
      b_String = (\<lambda>b. case b of BString s \<Rightarrow> Some s | _ \<Rightarrow> None),
      b_Obj = (\<lambda>b. case b of BObject fs \<Rightarrow> Some fs | BArray fs \<Rightarrow> Some fs | _ \<Rightarrow> None),
      b_binData = (\<lambda>b. case b of BBinData bs \<Rightarrow> bs | _ \<Rightarrow> []),
      b_getIntField = (\<lambda>fs k. case map_of fs k of Some (BNumberInt n) \<Rightarrow> n | _ \<Rightarrow> 2147483648),
      m_query = ex_query,
      m_insert = (\<lambda>db ns d. (True, db(ns := db ns @ [d]))),
      m_remove = (\<lambda>db ns q one. (True,
         db(ns := if one then ex_remove1 (ex_sat q) (db ns)
                  else filter (\<lambda>d. \<not> ex_sat q d) (db ns)))),
      m_update = ex_update,
      m_count = (\<lambda>db ns q. (Some (of_nat (length (filter (ex_sat q) (db ns)))), db)),
      m_waited = (\<lambda>cs. cs),
      sha_Init = Some [],
      sha_Update = (\<lambda>c bs. Some (c @ bs)),
      sha_Final = (\<lambda>c. Some (ex_digest c)),
      rand_u32 = (\<lambda>i. 900 + of_nat i),
      rand_bytes = (\<lambda>i n. replicate n (of_nat i)),
      rt_code = ex_rt_code,
      e_requestPending = ex_requestPending \<rparr>"

section \<open>The laws hold for the instance\<close>

lemma ex_setField_laws:
  shows "(\<forall>e \<in> set fs. fst e < k) \<Longrightarrow> ex_setField fs k v = fs @ [(k, v)]"
    and "map_of (ex_setField fs k v) = (map_of fs)(k \<mapsto> v)"
    and "distinct (map fst fs) \<Longrightarrow> distinct (map fst (ex_setField fs k v))"
proof -
  show "ex_setField fs k v = fs @ [(k, v)]" if "\<forall>e \<in> set fs. fst e < k"
    using that by (auto simp: ex_setField_def sm_put_greatest)
  have "map_of (map (\<lambda>e. if fst e = k then (k, v) else e) fs) k' =
      (if k' = k then Some v else map_of fs k')" if "k \<in> fst ` set fs \<or> k' \<noteq> k" for k'
    using that
  proof (induction fs)
    case (Cons e fs)
    then show ?case by (cases e; cases "k' = k") auto
  qed simp
  then show "map_of (ex_setField fs k v) = (map_of fs)(k \<mapsto> v)"
    using sm_find_put [of k v fs] by (auto simp: ex_setField_def sm_find_def fun_eq_iff)
  have keys: "map fst (map (\<lambda>e. if fst e = k then (k, v) else e) fs) = map fst fs" by (induction fs) auto
  show "distinct (map fst (ex_setField fs k v))" if d: "distinct (map fst fs)"
  proof (cases "k \<in> fst ` set fs")
    case True
    then show ?thesis unfolding ex_setField_def by (simp only: if_True keys d)
  next
    case False
    then show ?thesis using sm_put_distinct [OF False d] by (simp add: ex_setField_def)
  qed
qed

lemma ex_ubj_laws: "ubj_laws ex_ext"
  by (simp add: ubj_laws_def ex_ext_def ex_setField_laws)

lemma ex_bson_laws: "bson_laws ex_ext"
  by (simp add: bson_laws_def ex_ext_def o_def)

lemma ex_rt_laws: "rt_laws ex_ext"
proof -
  have "ex_rt_code a = ex_rt_code b \<Longrightarrow> a = b" for a b
    by (cases a; cases b) simp_all
  then show ?thesis by (simp add: rt_laws_def ex_ext_def inj_def)
qed

lemma ex_sha_laws: "sha_laws ex_ext ex_digest"
  by (auto simp: sha_laws_def ex_ext_def ex_digest_def min_def)

lemma ex_remove1_mset:
  "if \<exists>d \<in> set ds. P d
   then \<exists>d \<in> set ds. P d \<and> mset (ex_remove1 P ds) = mset ds - {#d#}
   else ex_remove1 P ds = ds"
proof (induction ds)
  case (Cons a ds)
  show ?case
  proof (cases "P a")
    case False
    with Cons.IH show ?thesis
      by (auto split: if_splits)
  qed (auto intro: bexI [of _ a])
qed simp

lemma ex_mongo_laws: "mongo_laws ex_ext (\<lambda>db ns. mset (db ns)) ex_sat"
  unfolding mongo_laws_def
proof (intro conjI allI)
  show "\<exists>ds db'. m_query ex_ext db ns q [] 0 f = (Some (map (project f) ds, False), db') \<and>
      mset ds = filter_mset (ex_sat q) (mset (db ns)) \<and> (\<lambda>ns. mset (db' ns)) = (\<lambda>ns. mset (db ns))"
    for db ns q f
    by (rule exI [of _ "filter (ex_sat q) (db ns)"], rule exI [of _ db])
      (simp add: ex_ext_def ex_query_def)
  show "if \<exists>d \<in># mset (db ns). ex_sat q d
      then \<exists>d \<in># mset (db ns). ex_sat q d \<and>
        (\<lambda>ms. mset (snd (m_remove ex_ext db ns q True) ms)) =
          (\<lambda>ns. mset (db ns))(ns := mset (db ns) - {#d#})
      else (\<lambda>ms. mset (snd (m_remove ex_ext db ns q True) ms)) = (\<lambda>ns. mset (db ns))"
    for db ns q
    using ex_remove1_mset [of "db ns" "ex_sat q"]
    by (auto simp: ex_ext_def fun_eq_iff split: if_splits)
qed (simp_all add: ex_ext_def fun_eq_iff flip: mset_filter)

lemma ex_sat_laws: "sat_laws ex_sat"
  by (simp add: sat_laws_def ex_sat_def)

end
