(* ===== verification/Convert.thy ===== *)
theory Convert
  imports Example_Env
begin

text \<open>
  The conversions between UBJ values (the wire format) and BSON documents (the database
  format) of src/src/session.cpp: \<open>ubjValToBson\<close>, \<open>ubjToBson\<close>, \<open>bsonToUbj\<close>,
  \<open>bsonObjToUbj\<close>, \<open>bsonArrToUbj\<close>. The main results are an explicit description of what
  one direction stores (\<open>stored\<close>) and of what comes back (\<open>prune\<close>): the round trip is the
  identity on the values whose type the \<open>switch\<close> of \<open>ubjValToBson\<close> handles, and drops
  the others.
\<close>

section \<open>From UBJ to BSON\<close>

text \<open>
  The two loops of \<open>ubjToBson\<close> catch \<open>std::runtime_error\<close> around the conversion of one
  field and go on with the next; every other exception leaves the function.
\<close>

function (sequential)
  ubjToBson :: "('z) lib_scheme \<Rightarrow> ubj \<Rightarrow> exn + bson_obj" and
  ubjObjLoop :: "('z) lib_scheme \<Rightarrow> (string \<times> ubj) list \<Rightarrow> bson_obj \<Rightarrow> exn + bson_obj" and
  ubjArrLoop :: "('z) lib_scheme \<Rightarrow> ubj list \<Rightarrow> bson_obj \<Rightarrow> exn + bson_obj" and
  ubjValToBson :: "('z) lib_scheme \<Rightarrow> string \<Rightarrow> ubj \<Rightarrow> bson_obj \<Rightarrow> exn + bson_obj"
where
  "ubjToBson X (UObject fs) = ubjObjLoop X fs []"
| "ubjToBson X (UArray vs) = ubjArrLoop X vs []"
| "ubjToBson X _ = Inr []"
| "ubjObjLoop X [] ob = Inr ob"
| "ubjObjLoop X ((k, v) # fs) ob =
     (case ubjValToBson X k v ob of
        Inr ob' \<Rightarrow> ubjObjLoop X fs ob'
      | Inl (Runtime_error _) \<Rightarrow> ubjObjLoop X fs ob
      | Inl e \<Rightarrow> Inl e)"
| "ubjArrLoop X [] ob = Inr ob"
| "ubjArrLoop X (v # vs) ob =
     (case ubjValToBson X [] v ob of
        Inr ob' \<Rightarrow> ubjArrLoop X vs ob'
      | Inl (Runtime_error _) \<Rightarrow> ubjArrLoop X vs ob
      | Inl e \<Rightarrow> Inl e)"
| "ubjValToBson X key (UObject fs) ob =
     (case ubjToBson X (UObject fs) of Inl e \<Rightarrow> Inl e | Inr d \<Rightarrow> b_append X ob key (BObject d))"
| "ubjValToBson X key (UArray vs) ob =
     (if u_bufferSize X (UArray vs) \<noteq> 0
      then b_append X ob key (BBinData (u_bufferData X (UArray vs)))
      else (case ubjToBson X (UArray vs) of
              Inl e \<Rightarrow> Inl e | Inr d \<Rightarrow> b_append X ob key (BArray d)))"
| "ubjValToBson X key (UBuffer bs) ob =
     (if u_bufferSize X (UBuffer bs) \<noteq> 0
      then b_append X ob key (BBinData (u_bufferData X (UBuffer bs)))
      else (case ubjToBson X (UBuffer bs) of
              Inl e \<Rightarrow> Inl e | Inr d \<Rightarrow> b_append X ob key (BArray d)))"
| "ubjValToBson X key (UStr s) ob = b_append X ob key (BString (u_toStr X (UStr s)))"
| "ubjValToBson X key (UInt32 n) ob = b_append X ob key (BNumberInt (u_toInt X (UInt32 n)))"
| "ubjValToBson X key (UInt64 n) ob = b_append X ob key (BNumberLong (u_toLong X (UInt64 n)))"
| "ubjValToBson X key (UBool b) ob = b_append X ob key (BBool (u_toBool X (UBool b)))"
| "ubjValToBson X key _ ob = Inr ob"
  by pat_completeness auto
termination
  by (relation "measure (\<lambda>a. case a of
        Inl (Inl (_, v)) \<Rightarrow> 2 * size v
      | Inl (Inr (_, fs, _)) \<Rightarrow> 1 + 2 * size_list (size_prod (\<lambda>_. 0) size) fs
      | Inr (Inl (_, vs, _)) \<Rightarrow> 1 + 2 * size_list size vs
      | Inr (Inr (_, _, v, _)) \<Rightarrow> 1 + 2 * size v)")
    auto

section \<open>From BSON to UBJ\<close>

fun bsonToUbj :: "('z) lib_scheme \<Rightarrow> bson \<Rightarrow> ubj" and
  bsonObjLoop :: "('z) lib_scheme \<Rightarrow> bson_obj \<Rightarrow> (string \<times> ubj) list \<Rightarrow> ubj" and
  bsonArrLoop :: "('z) lib_scheme \<Rightarrow> bson_obj \<Rightarrow> ubj list \<Rightarrow> ubj"
where
  "bsonToUbj X (BObject fs) = bsonObjLoop X fs []"
| "bsonToUbj X (BArray fs) = bsonArrLoop X fs []"
| "bsonToUbj X (BString s) = UStr (b_str X (BString s))"
| "bsonToUbj X (BNumberInt n) = UInt32 (b_numberInt X (BNumberInt n))"
| "bsonToUbj X (BNumberLong n) = UInt64 (b_numberLong X (BNumberLong n))"
| "bsonToUbj X (BNumberDouble d) = UDouble (b_numberDouble X (BNumberDouble d))"
| "bsonToUbj X (BBool b) = UBool (b_boolean X (BBool b))"
| "bsonToUbj X (BBinData bs) =
     (let d = b_binData X (BBinData bs) in
      if d \<noteq> [] then (case z_bufferCreate X d of Some buf \<Rightarrow> UBuffer buf | None \<Rightarrow> UNull)
      else UNull)"
| "bsonToUbj X BEOO = UNull"
| "bsonToUbj X (BOther t) = UNull"
| "bsonObjLoop X [] res = UObject res"
| "bsonObjLoop X ((k, b) # fs) res = bsonObjLoop X fs (u_setField X res k (bsonToUbj X b))"
| "bsonArrLoop X [] res = UArray res"
| "bsonArrLoop X ((k, b) # fs) res = bsonArrLoop X fs (res @ [bsonToUbj X b])"

definition bsonObjToUbj :: "('z) lib_scheme \<Rightarrow> bson_obj \<Rightarrow> ubj" where
  "bsonObjToUbj X obj = bsonObjLoop X obj []"

definition bsonArrToUbj :: "('z) lib_scheme \<Rightarrow> bson_obj \<Rightarrow> ubj" where
  "bsonArrToUbj X arr = bsonArrLoop X arr []"

section \<open>What is stored, and what comes back\<close>

text \<open>The values the \<open>switch\<close> of \<open>ubjValToBson\<close> has a case for.\<close>

definition storable :: "ubj \<Rightarrow> bool" where
  "storable v \<longleftrightarrow> (case v of UNull \<Rightarrow> False | UDouble _ \<Rightarrow> False | _ \<Rightarrow> True)"

fun stored :: "ubj \<Rightarrow> bson" where
  "stored (UObject fs) =
     BObject (map (\<lambda>(k, v). (k, stored v)) (filter (\<lambda>(k, v). storable v) fs))"
| "stored (UArray vs) = BArray (map (\<lambda>v. ([], stored v)) (filter storable vs))"
| "stored (UBuffer bs) = (if bs = [] then BArray [] else BBinData bs)"
| "stored (UStr s) = BString s"
| "stored (UInt32 n) = BNumberInt n"
| "stored (UInt64 n) = BNumberLong n"
| "stored (UBool b) = BBool b"
| "stored _ = BEOO"

fun prune :: "ubj \<Rightarrow> ubj" where
  "prune (UObject fs) = UObject (map (\<lambda>(k, v). (k, prune v)) (filter (\<lambda>(k, v). storable v) fs))"
| "prune (UArray vs) = UArray (map prune (filter storable vs))"
| "prune (UBuffer bs) = (if bs = [] then UArray [] else UBuffer bs)"
| "prune v = v"

text \<open>Every object of the value has its fields in ascending order, as in a \<open>std::map\<close>.\<close>

fun fields_sorted :: "ubj \<Rightarrow> bool" where
  "fields_sorted (UObject fs) \<longleftrightarrow>
     sorted_wrt (<) (map fst fs) \<and> (\<forall>(k, v) \<in> set fs. fields_sorted v)"
| "fields_sorted (UArray vs) \<longleftrightarrow> (\<forall>v \<in> set vs. fields_sorted v)"
| "fields_sorted _ \<longleftrightarrow> True"

text \<open>The value holds nothing that would be dropped.\<close>

fun lossless :: "ubj \<Rightarrow> bool" where
  "lossless (UObject fs) \<longleftrightarrow> (\<forall>(k, v) \<in> set fs. storable v \<and> lossless v)"
| "lossless (UArray vs) \<longleftrightarrow> (\<forall>v \<in> set vs. storable v \<and> lossless v)"
| "lossless (UBuffer bs) \<longleftrightarrow> bs \<noteq> []"
| "lossless _ \<longleftrightarrow> True"

lemma storable_simps [simp]:
  "storable (UObject fs)" "storable (UArray vs)" "storable (UBuffer bs)" "storable (UStr s)"
  "storable (UInt32 n)" "storable (UInt64 l)" "storable (UBool b)"
  "\<not> storable UNull" "\<not> storable (UDouble d)"
  by (simp_all add: storable_def)

text \<open>One field: appended when it is storable, skipped otherwise.\<close>

lemma ubjValToBson_stored:
  assumes "ubj_laws X" and "bson_laws X"
  shows "ubjToBson X v = Inr (case stored v of BObject d \<Rightarrow> d | BArray d \<Rightarrow> d | _ \<Rightarrow> [])"
    and "ubjObjLoop X fs ob =
      Inr (ob @ map (\<lambda>(k, v). (k, stored v)) (filter (\<lambda>(k, v). storable v) fs))"
    and "ubjArrLoop X vs ob = Inr (ob @ map (\<lambda>v. ([], stored v)) (filter storable vs))"
    and "ubjValToBson X key v ob = Inr (if storable v then ob @ [(key, stored v)] else ob)"
  using assms
  by (induction X v and X fs ob and X vs ob and X key v ob
      rule: ubjToBson_ubjObjLoop_ubjArrLoop_ubjValToBson.induct)
    (auto simp: ubj_lawsD bson_lawsD)

lemma bsonArrLoop_map:
  "bsonArrLoop X (map (\<lambda>v. (k, stored v)) vs) res = UArray (res @ map (\<lambda>v. bsonToUbj X (stored v)) vs)"
  by (induction vs arbitrary: res) auto

lemma bsonObjLoop_map:
  assumes "ubj_laws X" and "sorted_wrt (<) (map fst fs)"
    and "\<forall>e \<in> set res. \<forall>f \<in> set fs. fst e < fst f"
  shows "bsonObjLoop X (map (\<lambda>(k, v). (k, stored v)) fs) res =
    UObject (res @ map (\<lambda>(k, v). (k, bsonToUbj X (stored v))) fs)"
  using assms(2,3)
proof (induction fs arbitrary: res)
  case (Cons f fs)
  then show ?case
    by (cases f) (auto simp: ubj_lawsD [OF assms(1)])
qed simp

lemma sorted_wrt_filter_fst:
  "sorted_wrt P (map fst fs) \<Longrightarrow> sorted_wrt P (map fst (filter Q fs))"
  by (induction fs) auto

lemma bsonToUbj_stored:
  assumes "ubj_laws X" and "bson_laws X"
  shows "fields_sorted v \<Longrightarrow> storable v \<Longrightarrow> bsonToUbj X (stored v) = prune v"
proof (induction v rule: prune.induct)
  case (1 fs)
  let ?fs = "filter (\<lambda>(k, v). storable v) fs"
  have "bsonToUbj X (stored (UObject fs)) = UObject (map (\<lambda>(k, v). (k, bsonToUbj X (stored v))) ?fs)"
    using "1.prems" by (simp add: bsonObjLoop_map [OF assms(1)] sorted_wrt_filter_fst)
  also have "map (\<lambda>(k, v). (k, bsonToUbj X (stored v))) ?fs = map (\<lambda>(k, v). (k, prune v)) ?fs"
    using "1.IH" "1.prems" by (auto)
  finally show ?case by simp
next
  case (2 vs)
  then show ?case by (simp add: bsonArrLoop_map)
qed (auto simp: ubj_lawsD [OF assms(1)] bson_lawsD [OF assms(2)])

lemma prune_lossless: "lossless v \<Longrightarrow> prune v = v"
proof (induction v rule: prune.induct)
  case (1 fs)
  then have "filter (\<lambda>(k, v). storable v) fs = fs"
    by (auto simp: filter_id_conv)
  moreover have "map (\<lambda>(k, v). (k, prune v)) fs = fs"
    using 1 by (intro map_idI) auto
  ultimately show ?case by simp
next
  case (2 vs)
  then show ?case by (simp add: filter_id_conv map_idI)
qed auto

section \<open>The round trip\<close>

text \<open>
  C18. Storing a UBJ object and reading it back gives the object without the fields and
  array elements whose type \<open>ubjValToBson\<close> has no case for (doubles and null values), and
  with an empty buffer read back as an empty array; a value that holds none of these
  comes back unchanged. In particular the conversion never throws.
\<close>

theorem ubj_bson_roundtrip:
  assumes "ubj_laws X" and "bson_laws X" and "fields_sorted (UObject fs)"
  shows "\<exists>d. ubjToBson X (UObject fs) = Inr d \<and> bsonObjToUbj X d = prune (UObject fs) \<and>
    (lossless (UObject fs) \<longrightarrow> bsonObjToUbj X d = UObject fs)"
proof -
  obtain d where d: "stored (UObject fs) = BObject d" by simp
  have "ubjToBson X (UObject fs) = Inr d"
    using ubjValToBson_stored(1) [OF assms(1,2), of "UObject fs"] d by simp
  moreover have "bsonObjToUbj X d = prune (UObject fs)"
    using bsonToUbj_stored [OF assms(1,2,3)] d by (simp add: bsonObjToUbj_def)
  ultimately show ?thesis
    using prune_lossless by fastforce
qed

theorem ubj_bson_roundtrip_witness:
  "\<exists>d. ubjToBson ex_ext (UObject [(''a'', UInt32 7), (''b'', UDouble 1), (''c'', UArray [UStr ''x'', UNull])]) = Inr d \<and>
    bsonObjToUbj ex_ext d = UObject [(''a'', UInt32 7), (''c'', UArray [UStr ''x''])]"
  using ubj_bson_roundtrip [OF ex_ubj_laws ex_bson_laws,
      of "[(''a'', UInt32 7), (''b'', UDouble 1), (''c'', UArray [UStr ''x'', UNull])]"]
  by auto

end
