(* ===== verification/Database.thy ===== *)
theory Database
  imports Convert
begin

text \<open>
  The database access layer, src/src/db.cpp and src/include/db.h: a queue of driver
  connections, the lock object that takes a connection from the queue and puts it back
  when it is destroyed, and the static methods of the class \<open>DB\<close>. A method that obtains
  no connection dereferences a null lock, and a query for which the driver returns no
  cursor dereferences a null cursor: both end the process (\<^const>\<open>None\<close>). Exceptions of
  the driver are caught by the methods and turned into the return values of the source.
\<close>

section \<open>Connections\<close>

record 'db db_state =
  db_mongo :: 'db
  m_connections :: "nat list"

definition DB_getConnection :: "'db db_state \<Rightarrow> nat option \<times> 'db db_state" where
  "DB_getConnection d =
     (case m_connections d of
        [] \<Rightarrow> (None, d)
      | con # rest \<Rightarrow> (Some con, d\<lparr>m_connections := rest\<rparr>))"

text \<open>
  \<open>acquire\<close> tries once, waits on the condition variable when the queue is empty, and
  tries once more on the queue as it is after the wait.
\<close>

definition DB_acquire :: "('db, 'z) ext_scheme \<Rightarrow> 'db db_state \<Rightarrow> nat option \<times> 'db db_state" where
  "DB_acquire X d =
     (case DB_getConnection d of
        (Some con, d) \<Rightarrow> (Some con, d)
      | (None, d) \<Rightarrow> DB_getConnection (d\<lparr>m_connections := m_waited X (m_connections d)\<rparr>))"

definition Lock_unlock :: "nat \<Rightarrow> 'db db_state \<Rightarrow> 'db db_state" where
  "Lock_unlock con d = d\<lparr>m_connections := m_connections d @ [con]\<rparr>"

text \<open>
  The frame every method shares: \<open>Connection::LOCK lock = acquire()\<close>, work on
  \<open>lock->db()\<close>, and the destructor of the lock at the end of the method.
\<close>

definition with_lock ::
  "('db, 'z) ext_scheme \<Rightarrow> ('db \<Rightarrow> 'a \<times> 'db) \<Rightarrow> 'db db_state \<Rightarrow> ('a \<times> 'db db_state) option" where
  "with_lock X work d =
     (case DB_acquire X d of
        (None, d) \<Rightarrow> None
      | (Some con, d) \<Rightarrow>
          (let (r, db') = work (db_mongo d) in Some (r, Lock_unlock con (d\<lparr>db_mongo := db'\<rparr>))))"

text \<open>\<open>Connection::init\<close>: the result of the authentication is not looked at.\<close>

definition Connection_init :: "bool \<Rightarrow> bool \<Rightarrow> bool" where
  "Connection_init connect_throws authenticated = (if connect_throws then False else True)"

definition Connection_create :: "bool \<Rightarrow> bool \<Rightarrow> nat \<Rightarrow> nat option" where
  "Connection_create connect_throws authenticated con =
     (if \<not> Connection_init connect_throws authenticated then None else Some con)"

fun startup_loop :: "(nat \<Rightarrow> bool) \<Rightarrow> (nat \<Rightarrow> bool) \<Rightarrow> nat \<Rightarrow> nat \<Rightarrow> nat list \<Rightarrow> bool \<times> nat list" where
  "startup_loop throws auth i 0 q = (True, q)"
| "startup_loop throws auth i (Suc n) q =
     (case Connection_create (throws i) (auth i) i of
        None \<Rightarrow> (False, q)
      | Some pc \<Rightarrow> startup_loop throws auth (Suc i) n (q @ [pc]))"

definition DB_startup ::
  "bool \<Rightarrow> (nat \<Rightarrow> bool) \<Rightarrow> (nat \<Rightarrow> bool) \<Rightarrow> uint32 \<Rightarrow> 'db db_state \<Rightarrow> bool \<times> 'db db_state" where
  "DB_startup initialized throws auth numConnections d =
     (if \<not> initialized then (False, d)
      else (let (ok, q) = startup_loop throws auth 0 (unat numConnections) (m_connections d)
            in (ok, d\<lparr>m_connections := q\<rparr>)))"

definition DB_cleanup :: "'db db_state \<Rightarrow> 'db db_state" where
  "DB_cleanup d = d\<lparr>m_connections := []\<rparr>"

section \<open>Accounts\<close>

definition DB_newAccountId ::
  "('db, 'z) ext_scheme \<Rightarrow> 'db db_state \<Rightarrow> (uint32 \<times> 'db db_state) option" where
  "DB_newAccountId X d = do {
     (cursor, d) \<leftarrow> with_lock X (\<lambda>db. m_query X db ''zway.accounts'' []
        [(''id'', BNumberInt (- 1))] 1 (Some [(''id'', BNumberInt 1)])) d;
     (docs, threw) \<leftarrow> cursor;
     case docs of
       doc # _ \<Rightarrow> Some (b_getIntField X doc ''id'' + 1, d)
     | [] \<Rightarrow> if threw then Some (0, d) else Some (1, d)
   }"

definition DB_getAccount ::
  "('db, 'z) ext_scheme \<Rightarrow> bson_obj \<Rightarrow> bson_obj \<Rightarrow> 'db db_state \<Rightarrow> (bson_obj option \<times> 'db db_state) option"
where
  "DB_getAccount X query fieldsToReturn d = do {
     (cursor, d) \<leftarrow> with_lock X (\<lambda>db. m_query X db ''zway.accounts'' query [] 0 (Some fieldsToReturn)) d;
     (docs, threw) \<leftarrow> cursor;
     case docs of
       doc # _ \<Rightarrow> Some (Some doc, d)
     | [] \<Rightarrow> Some (None, d)
   }"

text \<open>\<open>std::string::find\<close>, as far as it is used: does the text contain the pattern?\<close>

fun str_contains :: "string \<Rightarrow> string \<Rightarrow> bool" where
  "str_contains [] pat = (pat = [])"
| "str_contains (c # cs) pat = (take (length pat) (c # cs) = pat \<or> str_contains cs pat)"

definition DB_comparePhone :: "string \<Rightarrow> string \<Rightarrow> bool" where
  "DB_comparePhone p1 p2 =
     (if p1 = [] \<or> p2 = [] then False else str_contains p1 p2 \<or> str_contains p2 p1)"

definition DB_setFcmToken ::
  "('db, 'z) ext_scheme \<Rightarrow> uint32 \<Rightarrow> string \<Rightarrow> 'db db_state \<Rightarrow> (bool \<times> 'db db_state) option" where
  "DB_setFcmToken X accountId token d =
     with_lock X (\<lambda>db. m_update X db ''zway.accounts'' [(''id'', BNumberInt accountId)]
        [(''$set'', BObject [(''fcmToken'', BString token)])]) d"

definition DB_getFcmToken ::
  "('db, 'z) ext_scheme \<Rightarrow> uint32 \<Rightarrow> 'db db_state \<Rightarrow> (string \<times> 'db db_state) option" where
  "DB_getFcmToken X accountId d = do {
     (cursor, d) \<leftarrow> with_lock X (\<lambda>db. m_query X db ''zway.accounts''
        [(''id'', BNumberInt accountId)] [] 0 (Some [(''fcmToken'', BNumberInt 1)])) d;
     (docs, threw) \<leftarrow> cursor;
     case docs of
       obj # _ \<Rightarrow>
         (case b_String X (b_elem X obj ''fcmToken'') of
            Some token \<Rightarrow> Some (token, d)
          | None \<Rightarrow> Some ([], d))
     | [] \<Rightarrow> Some ([], d)
   }"

definition DB_insertAccount ::
  "('db, 'z) ext_scheme \<Rightarrow> uint32 \<Rightarrow> string \<Rightarrow> string \<Rightarrow> bool \<Rightarrow> bool \<Rightarrow> bytes \<Rightarrow> bytes
     \<Rightarrow> 'db db_state \<Rightarrow> (bool \<times> 'db db_state) option" where
  "DB_insertAccount X accountId name phone findByName findByPhone pass salt d =
     with_lock X (\<lambda>db. m_insert X db ''zway.accounts''
       [(''id'', BNumberInt accountId), (''name'', BString name), (''phone'', BString phone),
        (''findByName'', BBool findByName), (''findByPhone'', BBool findByPhone),
        (''pass'', BBinData pass), (''salt'', BBinData salt)]) d"

definition DB_deleteAccount :: "bson_obj \<Rightarrow> bool" where
  "DB_deleteAccount info = False"

section \<open>Requests\<close>

definition DB_numContactRequests ::
  "('db, 'z) ext_scheme \<Rightarrow> uint32 \<Rightarrow> 'db db_state \<Rightarrow> (uint32 \<times> 'db db_state) option" where
  "DB_numContactRequests X accountId d = do {
     (res, d) \<leftarrow> with_lock X (\<lambda>db. m_count X db ''zway.requests''
        [(''dst'', BNumberInt accountId), (''type'', BNumberInt 3100)]) d;
     Some (case res of Some n \<Rightarrow> ucast n | None \<Rightarrow> - 1, d)
   }"

definition DB_numPushRequests ::
  "('db, 'z) ext_scheme \<Rightarrow> uint32 \<Rightarrow> 'db db_state \<Rightarrow> (uint32 \<times> 'db db_state) option" where
  "DB_numPushRequests X accountId d = do {
     (res, d) \<leftarrow> with_lock X (\<lambda>db. m_count X db ''zway.requests''
        [(''dst'', BNumberInt accountId), (''type'', BNumberInt 4100)]) d;
     Some (case res of Some n \<Rightarrow> ucast n | None \<Rightarrow> - 1, d)
   }"

text \<open>\<open>addRequest\<close> ends in \<open>return true\<close> after its exception handler, too.\<close>

definition DB_addRequest ::
  "('db, 'z) ext_scheme \<Rightarrow> bson_obj \<Rightarrow> 'db db_state \<Rightarrow> (bool \<times> 'db db_state) option" where
  "DB_addRequest X data d = do {
     (returned, d) \<leftarrow> with_lock X (\<lambda>db. m_insert X db ''zway.requests'' data) d;
     if returned then Some (True, d) else Some (True, d)
   }"

definition DB_deleteRequest ::
  "('db, 'z) ext_scheme \<Rightarrow> bson_obj \<Rightarrow> 'db db_state \<Rightarrow> (bool \<times> 'db db_state) option" where
  "DB_deleteRequest X query d =
     with_lock X (\<lambda>db. m_remove X db ''zway.requests'' query True) d"

definition DB_requestPending ::
  "('db, 'z) ext_scheme \<Rightarrow> bson_obj \<Rightarrow> 'db db_state \<Rightarrow> (bool \<times> 'db db_state) option" where
  "DB_requestPending X query d = do {
     (res, d) \<leftarrow> with_lock X (\<lambda>db. m_count X db ''zway.requests'' query) d;
     Some (case res of Some n \<Rightarrow> n = 1 | None \<Rightarrow> False, d)
   }"

definition DB_getRequest ::
  "('db, 'z) ext_scheme \<Rightarrow> bson_obj \<Rightarrow> 'db db_state \<Rightarrow> (bson_obj option \<times> 'db db_state) option" where
  "DB_getRequest X query d = do {
     (cursor, d) \<leftarrow> with_lock X (\<lambda>db. m_query X db ''zway.requests'' query [] 0 None) d;
     (docs, threw) \<leftarrow> cursor;
     case docs of
       obj # _ \<Rightarrow> Some (Some obj, d)
     | [] \<Rightarrow> Some (None, d)
   }"

definition DB_getRequests ::
  "('db, 'z) ext_scheme \<Rightarrow> bson_obj \<Rightarrow> 'db db_state \<Rightarrow> (bson_obj list \<times> 'db db_state) option" where
  "DB_getRequests X query d = do {
     (cursor, d) \<leftarrow> with_lock X (\<lambda>db. m_query X db ''zway.requests'' query [] 0 None) d;
     (docs, threw) \<leftarrow> cursor;
     Some (docs, d)
   }"

definition DB_getContacts ::
  "('db, 'z) ext_scheme \<Rightarrow> bson_obj \<Rightarrow> bson_obj option \<Rightarrow> 'db db_state \<Rightarrow> (bson_obj \<times> 'db db_state) option"
where
  "DB_getContacts X query fieldsToReturn d = do {
     (cursor, d) \<leftarrow> with_lock X (\<lambda>db. m_query X db ''zway.accounts'' query [] 50 fieldsToReturn) d;
     (docs, threw) \<leftarrow> cursor;
     Some (b_mkArray X (map BObject docs), d)
   }"

text \<open>
  \<open>getInbox\<close> collects the ids of the pending push requests by their source in a
  \<open>std::map\<close> and lists the groups in key order; the inbox argument is assigned only when
  the whole iteration succeeds.
\<close>

definition inbox_insert ::
  "('z) lib_scheme \<Rightarrow> bson_obj \<Rightarrow> (uint32, ubj list) std_map \<Rightarrow> (uint32, ubj list) std_map" where
  "inbox_insert X obj m =
     (let src = b_numberInt X (b_elem X obj ''src'');
          rid = UInt32 (b_numberInt X (b_elem X obj ''id''))
      in case sm_find m src of
           None \<Rightarrow> sm_put src [rid] m
         | Some ids \<Rightarrow> sm_put src (ids @ [rid]) m)"

definition DB_getInbox ::
  "('db, 'z) ext_scheme \<Rightarrow> ubj \<Rightarrow> uint32 \<Rightarrow> 'db db_state \<Rightarrow> ((bool \<times> ubj) \<times> 'db db_state) option" where
  "DB_getInbox X inbox accountId d = do {
     (cursor, d) \<leftarrow> with_lock X (\<lambda>db. m_query X db ''zway.requests''
        [(''dst'', BNumberInt accountId), (''type'', BNumberInt 4100)] [] 0
        (Some [(''src'', BNumberInt 1), (''id'', BNumberInt 1)])) d;
     (docs, threw) \<leftarrow> cursor;
     let m = fold (inbox_insert X) docs [];
     let res = map (\<lambda>(src, ids). UObject [(''contactId'', UInt32 src), (''requestIds'', UArray ids)]) m;
     if threw then Some ((False, inbox), d) else Some ((True, UArray res), d)
   }"

section \<open>The contract of a database operation\<close>

text \<open>The driver returns a cursor for every query.\<close>

definition cursor_law :: "('db, 'z) ext_scheme \<Rightarrow> bool" where
  "cursor_law X \<longleftrightarrow> (\<forall>db ns q s n f. fst (m_query X db ns q s n f) \<noteq> None)"

locale pooled_operation =
  fixes X :: "('db, 'z) ext_scheme"
    and oper :: "'db db_state \<Rightarrow> ('a \<times> 'db db_state) option"
  assumes starves: "m_connections d = [] \<Longrightarrow> m_waited X [] = [] \<Longrightarrow> oper d = None"
    and rotates: "m_connections d = c # cs \<Longrightarrow> oper d = Some (r, d') \<Longrightarrow> m_connections d' = cs @ [c]"
    and progress: "m_connections d \<noteq> [] \<Longrightarrow> cursor_law X \<Longrightarrow> \<exists>r d'. oper d = Some (r, d')"
begin

lemma rotate_step:
  assumes "m_connections d \<noteq> []" and "cursor_law X"
  shows "\<exists>d'. map_option snd (oper d) = Some d' \<and> m_connections d' = rotate1 (m_connections d)"
proof -
  obtain r d' where step: "oper d = Some (r, d')"
    using progress assms by blast
  moreover have "m_connections d' = rotate1 (m_connections d)"
    using assms(1) rotates [OF _ step] by (cases "m_connections d") auto
  ultimately show ?thesis by auto
qed

end

lemma with_lock_Nil: "m_connections d = [] \<Longrightarrow> m_waited X [] = [] \<Longrightarrow> with_lock X work d = None"
  by (simp add: with_lock_def DB_acquire_def DB_getConnection_def)

lemma with_lock_Cons:
  "m_connections d = c # cs \<Longrightarrow>
   with_lock X work d =
     Some (fst (work (db_mongo d)),
       \<lparr>db_mongo = snd (work (db_mongo d)), m_connections = cs @ [c]\<rparr>)"
  by (cases d) (simp add: with_lock_def DB_acquire_def DB_getConnection_def Lock_unlock_def Let_def split_def)

lemma pooled_bind:
  assumes eq: "\<And>d. oper d = (with_lock X work d \<bind> (\<lambda>(c, d). k c d))"
    and same: "\<And>c d r d'. k c d = Some (r, d') \<Longrightarrow> d' = d"
    and total: "\<And>d db. cursor_law X \<Longrightarrow> k (fst (work db)) d \<noteq> None"
  shows "pooled_operation X oper"
proof
  fix d :: "'a db_state" and c cs r d'
  assume "m_connections d = c # cs" and "oper d = Some (r, d')"
  then show "m_connections d' = cs @ [c]"
    using same by (fastforce simp: eq with_lock_Cons)
next
  fix d :: "'a db_state"
  assume "m_connections d \<noteq> []" and "cursor_law X"
  then show "\<exists>r d'. oper d = Some (r, d')"
    using total by (cases "m_connections d") (auto simp: eq with_lock_Cons)
qed (simp add: eq with_lock_Nil)

lemma pooled_query:
  assumes "\<And>d. oper d = (with_lock X (\<lambda>db. m_query X db ns q s n f) d \<bind>
      (\<lambda>(cursor, d). cursor \<bind> (\<lambda>(docs, threw). k docs threw d)))"
    and k: "\<And>docs threw d. \<exists>r. k docs threw d = Some (r, d)"
  shows "pooled_operation X oper"
proof (rule pooled_bind [OF assms(1)])
  show "d' = d" if c: "cursor \<bind> (\<lambda>(docs, threw). k docs threw d) = Some (r, d')"
    for cursor r and d d' :: "'a db_state"
  proof -
    obtain docs threw where "k docs threw d = Some (r, d')"
      using c by (auto simp: bind_pair)
    with k [of docs threw d] show ?thesis by auto
  qed
  show "fst (m_query X db ns q s n f) \<bind> (\<lambda>(docs, threw). k docs threw d) \<noteq> None"
    if c: "cursor_law X" for d db
  proof -
    obtain docs threw where "fst (m_query X db ns q s n f) = Some (docs, threw)"
      using c unfolding cursor_law_def by fastforce
    with k [of docs threw d] show ?thesis by auto
  qed
qed

lemma pooled_value:
  assumes "\<And>d. oper d = (with_lock X work d \<bind> (\<lambda>(c, d). Some (g c, d)))"
  shows "pooled_operation X oper"
  by (rule pooled_bind [OF assms]) auto

lemma pooled_direct:
  assumes "\<And>d. oper d = with_lock X work d"
  shows "pooled_operation X oper"
  by (rule pooled_value [where g = id]) (auto simp: assms split: Option.bind_split)

section \<open>Every method of the class meets the contract\<close>

interpretation newAccountId: pooled_operation X "DB_newAccountId X" for X
  by (rule pooled_query, rule DB_newAccountId_def) (auto split: list.split)

interpretation getAccount: pooled_operation X "DB_getAccount X q f" for X q f
  by (rule pooled_query, rule DB_getAccount_def) (auto split: list.split)

interpretation setFcmToken: pooled_operation X "DB_setFcmToken X a t" for X a t
  by (rule pooled_direct, rule DB_setFcmToken_def)

interpretation getFcmToken: pooled_operation X "DB_getFcmToken X a" for X a
  by (rule pooled_query, rule DB_getFcmToken_def) (auto split: list.split option.split)

interpretation insertAccount: pooled_operation X "DB_insertAccount X a nm ph fn fp pw sl"
  for X a nm ph fn fp pw sl
  by (rule pooled_direct, rule DB_insertAccount_def)

interpretation numContactRequests: pooled_operation X "DB_numContactRequests X a" for X a
  by (rule pooled_value, rule DB_numContactRequests_def)

interpretation numPushRequests: pooled_operation X "DB_numPushRequests X a" for X a
  by (rule pooled_value, rule DB_numPushRequests_def)

interpretation addRequest: pooled_operation X "DB_addRequest X doc" for X doc
  by (rule pooled_value [where g = "\<lambda>_. True"]) (simp add: DB_addRequest_def split_def)

interpretation deleteRequest: pooled_operation X "DB_deleteRequest X q" for X q
  by (rule pooled_direct, rule DB_deleteRequest_def)

interpretation requestPending: pooled_operation X "DB_requestPending X q" for X q
  by (rule pooled_value, rule DB_requestPending_def)

interpretation getRequest: pooled_operation X "DB_getRequest X q" for X q
  by (rule pooled_query, rule DB_getRequest_def) (auto split: list.split)

interpretation getRequests: pooled_operation X "DB_getRequests X q" for X q
  by (rule pooled_query, rule DB_getRequests_def) auto

interpretation getContacts: pooled_operation X "DB_getContacts X q f" for X q f
  by (rule pooled_query, rule DB_getContacts_def) auto

interpretation getInbox: pooled_operation X "DB_getInbox X ib a" for X ib a
  by (rule pooled_query, rule DB_getInbox_def) (auto simp: Let_def)


section \<open>Sequences of database calls\<close>

text \<open>A call of one of the methods, for statements about arbitrary sequences of calls.\<close>

datatype db_call =
    NewAccountId
  | GetAccount bson_obj bson_obj
  | SetFcmToken uint32 string
  | GetFcmToken uint32
  | InsertAccount uint32 string string bool bool bytes bytes
  | NumContactRequests uint32
  | NumPushRequests uint32
  | AddRequest bson_obj
  | DeleteRequest bson_obj
  | RequestPending bson_obj
  | GetRequest bson_obj
  | GetRequests bson_obj
  | GetContacts bson_obj "bson_obj option"
  | GetInbox uint32

fun run_db_call :: "('db, 'z) ext_scheme \<Rightarrow> db_call \<Rightarrow> 'db db_state \<Rightarrow> 'db db_state option" where
  "run_db_call X NewAccountId d = map_option snd (DB_newAccountId X d)"
| "run_db_call X (GetAccount q f) d = map_option snd (DB_getAccount X q f d)"
| "run_db_call X (SetFcmToken a t) d = map_option snd (DB_setFcmToken X a t d)"
| "run_db_call X (GetFcmToken a) d = map_option snd (DB_getFcmToken X a d)"
| "run_db_call X (InsertAccount a nm ph fn fp pw sl) d =
     map_option snd (DB_insertAccount X a nm ph fn fp pw sl d)"
| "run_db_call X (NumContactRequests a) d = map_option snd (DB_numContactRequests X a d)"
| "run_db_call X (NumPushRequests a) d = map_option snd (DB_numPushRequests X a d)"
| "run_db_call X (AddRequest doc) d = map_option snd (DB_addRequest X doc d)"
| "run_db_call X (DeleteRequest q) d = map_option snd (DB_deleteRequest X q d)"
| "run_db_call X (RequestPending q) d = map_option snd (DB_requestPending X q d)"
| "run_db_call X (GetRequest q) d = map_option snd (DB_getRequest X q d)"
| "run_db_call X (GetRequests q) d = map_option snd (DB_getRequests X q d)"
| "run_db_call X (GetContacts q f) d = map_option snd (DB_getContacts X q f d)"
| "run_db_call X (GetInbox a) d = map_option snd (DB_getInbox X (UArray []) a d)"

lemmas db_call_rotates =
  newAccountId.rotate_step getAccount.rotate_step setFcmToken.rotate_step getFcmToken.rotate_step
  insertAccount.rotate_step numContactRequests.rotate_step numPushRequests.rotate_step
  addRequest.rotate_step deleteRequest.rotate_step requestPending.rotate_step
  getRequest.rotate_step getRequests.rotate_step getContacts.rotate_step getInbox.rotate_step

lemma db_call_rotate:
  assumes "m_connections d \<noteq> []" and "cursor_law X"
  shows "\<exists>d'. run_db_call X c d = Some d' \<and> m_connections d' = rotate1 (m_connections d)"
  by (cases c; simp only: run_db_call.simps; rule db_call_rotates [OF assms])

text \<open>
  As long as the pool holds a connection, no sequence of database calls ever fails
  for want of one: every call returns, and after the sequence the queue holds exactly the
  same connections, rotated by the number of calls (none lost, none duplicated).
\<close>

theorem db_calls_conserve_connections:
  assumes "m_connections d \<noteq> []" and "cursor_law X"
  shows "\<exists>d'. for_each calls (run_db_call X) d = Some d' \<and>
    m_connections d' = rotate (length calls) (m_connections d)"
  using assms(1)
proof (induction calls arbitrary: d)
  case (Cons c calls)
  obtain d1 where d1: "run_db_call X c d = Some d1" "m_connections d1 = rotate1 (m_connections d)"
    using db_call_rotate [OF Cons.prems assms(2)] by blast
  then have "m_connections d1 \<noteq> []"
    using Cons.prems by simp
  from Cons.IH [OF this] d1 show ?case
    by (auto simp: rotate1_rotate_swap)
qed simp

section \<open>The methods on a database that answers\<close>

lemma mongo_lawsD:
  assumes "mongo_laws X docs sat"
  shows "\<exists>ds db'. m_query X db ns q [] 0 f = (Some (map (project f) ds, False), db') \<and>
      mset ds = filter_mset (sat q) (docs db ns) \<and> docs db' = docs db"
    and "fst (m_insert X db ns e)"
    and "docs (snd (m_insert X db ns e)) = (docs db)(ns := add_mset e (docs db ns))"
    and "fst (m_remove X db ns q True)"
    and "if \<exists>e \<in># docs db ns. sat q e
      then \<exists>e \<in># docs db ns. sat q e \<and>
        docs (snd (m_remove X db ns q True)) = (docs db)(ns := docs db ns - {#e#})
      else docs (snd (m_remove X db ns q True)) = docs db"
    and "fst (m_count X db ns q) = Some (of_nat (size (filter_mset (sat q) (docs db ns))))"
    and "docs (snd (m_count X db ns q)) = docs db"
  using assms unfolding mongo_laws_def by blast+

lemma project_None [simp]: "project None = id"
  by (simp add: project_def fun_eq_iff)

lemma with_lock_ready:
  assumes "m_connections d \<noteq> []"
  obtains d' where "with_lock X work d = Some (fst (work (db_mongo d)), d')"
    and "db_mongo d' = snd (work (db_mongo d))" and "m_connections d' \<noteq> []"
  using assms by (cases "m_connections d") (auto simp: with_lock_Cons)

lemma with_lock_query:
  assumes "mongo_laws X docs sat" and "m_connections d \<noteq> []"
  obtains ds d' where "with_lock X (\<lambda>db. m_query X db ns q [] 0 f) d = Some (Some (map (project f) ds, False), d')"
    and "mset ds = filter_mset (sat q) (docs (db_mongo d) ns)"
    and "docs (db_mongo d') = docs (db_mongo d)" and "m_connections d' \<noteq> []"
proof -
  obtain ds db' where q: "m_query X (db_mongo d) ns q [] 0 f = (Some (map (project f) ds, False), db')"
    and ds: "mset ds = filter_mset (sat q) (docs (db_mongo d) ns)" and "docs db' = docs (db_mongo d)"
    using mongo_lawsD(1) [OF assms(1)] by meson
  obtain d' where "with_lock X (\<lambda>db. m_query X db ns q [] 0 f) d =
      Some (fst (m_query X (db_mongo d) ns q [] 0 f), d')"
    and "db_mongo d' = snd (m_query X (db_mongo d) ns q [] 0 f)" and "m_connections d' \<noteq> []"
    using with_lock_ready [OF assms(2)] by blast
  with q ds \<open>docs db' = docs (db_mongo d)\<close> show thesis
    by (intro that [of ds d']) auto
qed

text \<open>What a lookup of one document answers.\<close>

definition found :: "(bson_obj \<Rightarrow> bson_obj \<Rightarrow> bool) \<Rightarrow> bson_obj \<Rightarrow> bson_obj multiset
    \<Rightarrow> (bson_obj \<Rightarrow> bson_obj) \<Rightarrow> bson_obj option \<Rightarrow> bool" where
  "found sat q D view r \<longleftrightarrow>
     (case r of None \<Rightarrow> \<forall>e \<in># D. \<not> sat q e | Some o1 \<Rightarrow> \<exists>e \<in># D. sat q e \<and> o1 = view e)"

lemma found_first:
  assumes "mset ds = filter_mset (sat q) D"
  shows "found sat q D view (case map view ds of [] \<Rightarrow> None | e # _ \<Rightarrow> Some e)"
proof (cases ds)
  case Nil
  with assms have "filter_mset (sat q) D = {#}" by simp
  with Nil show ?thesis by (simp add: found_def)
next
  case (Cons e es)
  then have "e \<in># filter_mset (sat q) D"
    using assms by (metis list.set_intros(1) set_mset_mset)
  with Cons show ?thesis by (auto simp: found_def)
qed

lemma found_unique:
  assumes "found sat q D view r" and "e \<in># D" and "sat q e" and "\<And>f. f \<in># D \<Longrightarrow> sat q f \<Longrightarrow> f = e"
  shows "r = Some (view e)"
proof (cases r)
  case None
  with assms(1,2,3) show ?thesis by (auto simp: found_def)
next
  case (Some o1)
  with assms(1) obtain f where "f \<in># D" "sat q f" "o1 = view f" by (auto simp: found_def)
  with assms(4) Some show ?thesis by simp
qed

lemma DB_getRequest_mongo:
  assumes "mongo_laws X docs sat" and "m_connections d \<noteq> []"
  obtains r d' where "DB_getRequest X q d = Some (r, d')"
    and "found sat q (docs (db_mongo d) ''zway.requests'') id r"
    and "docs (db_mongo d') = docs (db_mongo d)" and "m_connections d' \<noteq> []"
proof -
  obtain ds d' where *: "with_lock X (\<lambda>db. m_query X db ''zway.requests'' q [] 0 None) d =
      Some (Some (map (project None) ds, False), d')"
    "mset ds = filter_mset (sat q) (docs (db_mongo d) ''zway.requests'')"
    "docs (db_mongo d') = docs (db_mongo d)" "m_connections d' \<noteq> []"
    using with_lock_query [OF assms] by metis
  then show thesis
    using found_first [of ds sat q _ id]
    by (intro that [of "case ds of [] \<Rightarrow> None | e # _ \<Rightarrow> Some e" d'])
      (auto simp: DB_getRequest_def split: list.split)
qed

lemma DB_getAccount_mongo:
  assumes "mongo_laws X docs sat" and "m_connections d \<noteq> []"
  obtains r d' where "DB_getAccount X q f d = Some (r, d')"
    and "found sat q (docs (db_mongo d) ''zway.accounts'') (project (Some f)) r"
    and "docs (db_mongo d') = docs (db_mongo d)" and "m_connections d' \<noteq> []"
proof -
  obtain ds d' where "with_lock X (\<lambda>db. m_query X db ''zway.accounts'' q [] 0 (Some f)) d =
      Some (Some (map (project (Some f)) ds, False), d')"
    "mset ds = filter_mset (sat q) (docs (db_mongo d) ''zway.accounts'')"
    "docs (db_mongo d') = docs (db_mongo d)" "m_connections d' \<noteq> []"
    using with_lock_query [OF assms] by metis
  then show thesis
    using found_first [of ds sat q _ "project (Some f)"]
    by (intro that [of "case map (project (Some f)) ds of [] \<Rightarrow> None | e # _ \<Rightarrow> Some e" d'])
      (auto simp: DB_getAccount_def split: list.split)
qed

lemma DB_addRequest_mongo:
  assumes "mongo_laws X docs sat" and "m_connections d \<noteq> []"
  obtains d' where "DB_addRequest X e d = Some (True, d')"
    and "docs (db_mongo d') = (docs (db_mongo d))(''zway.requests'' :=
      add_mset e (docs (db_mongo d) ''zway.requests''))" and "m_connections d' \<noteq> []"
proof -
  obtain d' where "with_lock X (\<lambda>db. m_insert X db ''zway.requests'' e) d =
      Some (fst (m_insert X (db_mongo d) ''zway.requests'' e), d')"
    and "db_mongo d' = snd (m_insert X (db_mongo d) ''zway.requests'' e)" and "m_connections d' \<noteq> []"
    using with_lock_ready [OF assms(2)] by blast
  then show thesis
    by (intro that [of d']) (auto simp: DB_addRequest_def mongo_lawsD [OF assms(1)])
qed

text \<open>A remove with \<open>justOne\<close>: one matching document goes, if there is one.\<close>

definition deleted ::
  "(bson_obj \<Rightarrow> bson_obj \<Rightarrow> bool) \<Rightarrow> bson_obj \<Rightarrow> bson_obj multiset \<Rightarrow> bson_obj multiset \<Rightarrow> bool" where
  "deleted sat q D D' \<longleftrightarrow>
     (if \<exists>e \<in># D. sat q e then \<exists>e \<in># D. sat q e \<and> D' = D - {#e#} else D' = D)"

lemma DB_deleteRequest_mongo:
  assumes "mongo_laws X docs sat" and "m_connections d \<noteq> []"
  obtains d' D' where "DB_deleteRequest X q d = Some (True, d')" and "m_connections d' \<noteq> []"
    and "deleted sat q (docs (db_mongo d) ''zway.requests'') D'"
    and "docs (db_mongo d') = (docs (db_mongo d))(''zway.requests'' := D')"
proof -
  obtain d' where d': "with_lock X (\<lambda>db. m_remove X db ''zway.requests'' q True) d =
      Some (fst (m_remove X (db_mongo d) ''zway.requests'' q True), d')"
    "db_mongo d' = snd (m_remove X (db_mongo d) ''zway.requests'' q True)" "m_connections d' \<noteq> []"
    using with_lock_ready [OF assms(2)] by blast
  note del = mongo_lawsD(5) [OF assms(1), of "db_mongo d" "''zway.requests''" q, folded d'(2)]
  have "\<exists>D'. deleted sat q (docs (db_mongo d) ''zway.requests'') D' \<and>
      docs (db_mongo d') = (docs (db_mongo d))(''zway.requests'' := D')"
  proof (cases "\<exists>e \<in># docs (db_mongo d) ''zway.requests''. sat q e")
    case True
    with del show ?thesis by (auto simp: deleted_def)
  next
    case False
    with del show ?thesis by (auto simp: deleted_def)
  qed
  with d' show thesis
    using that by (auto simp: DB_deleteRequest_def mongo_lawsD [OF assms(1)])
qed

lemma DB_requestPending_mongo:
  assumes "mongo_laws X docs sat" and "m_connections d \<noteq> []"
  obtains d' where "DB_requestPending X q d =
      Some ((of_nat (size (filter_mset (sat q) (docs (db_mongo d) ''zway.requests''))) :: uint64) = 1, d')"
    and "docs (db_mongo d') = docs (db_mongo d)" and "m_connections d' \<noteq> []"
proof -
  obtain d' where "with_lock X (\<lambda>db. m_count X db ''zway.requests'' q) d =
      Some (fst (m_count X (db_mongo d) ''zway.requests'' q), d')"
    and "db_mongo d' = snd (m_count X (db_mongo d) ''zway.requests'' q)" and "m_connections d' \<noteq> []"
    using with_lock_ready [OF assms(2)] by blast
  then show thesis
    by (intro that [of d']) (simp_all add: DB_requestPending_def mongo_lawsD [OF assms(1)])
qed


section \<open>Properties\<close>

text \<open>
  \<open>DB::addRequest\<close> never reports a failure: when it returns at all it returns true,
  whether or not the driver stored the document (an exception of the driver is caught,
  logged and followed by \<open>return true\<close>). The error branches of its callers are dead.
\<close>

theorem addRequest_reports_success:
  assumes "m_connections d \<noteq> []"
  shows "\<exists>d'. DB_addRequest X doc d = Some (True, d') \<and>
    db_mongo d' = snd (m_insert X (db_mongo d) ''zway.requests'' doc)"
proof -
  obtain d' where "with_lock X (\<lambda>db. m_insert X db ''zway.requests'' doc) d =
      Some (fst (m_insert X (db_mongo d) ''zway.requests'' doc), d')"
    and "db_mongo d' = snd (m_insert X (db_mongo d) ''zway.requests'' doc)"
    using with_lock_ready [OF assms] by blast
  then show ?thesis by (simp add: DB_addRequest_def)
qed

text \<open>
  \<open>DB::numContactRequests\<close> and \<open>DB::numPushRequests\<close> answer the largest unsigned
  value when the driver throws, so that a failed count looks like a non-empty queue of
  4294967295 requests to their caller.
\<close>

theorem num_requests_on_exception:
  assumes "m_connections d \<noteq> []" and "\<And>db ns q. fst (m_count X db ns q) = None"
  shows "(\<exists>d'. DB_numContactRequests X a d = Some (4294967295, d')) \<and>
    (\<exists>d'. DB_numPushRequests X a d = Some (4294967295, d'))"
  using assms by (cases "m_connections d")
    (simp_all add: DB_numContactRequests_def DB_numPushRequests_def with_lock_Cons)

section \<open>The inbox\<close>

abbreviation doc_int :: "('z) lib_scheme \<Rightarrow> string \<Rightarrow> bson_obj \<Rightarrow> uint32" where
  "doc_int X k doc \<equiv> b_numberInt X (b_elem X doc k)"

lemma inbox_insert_wf: "sm_wf m \<Longrightarrow> sm_wf (inbox_insert X doc m)"
  by (auto simp: inbox_insert_def Let_def sm.wf_put split: option.split)

lemma inbox_fold:
  assumes "sm_wf m"
  shows "sm_wf (fold (inbox_insert X) ds m)"
    and "sm_find (fold (inbox_insert X) ds m) s =
      (let new = map (\<lambda>o1. UInt32 (doc_int X ''id'' o1)) (filter (\<lambda>o1. doc_int X ''src'' o1 = s) ds)
       in case sm_find m s of Some ids \<Rightarrow> Some (ids @ new)
          | None \<Rightarrow> if new = [] then None else Some new)"
  using assms
proof (induction ds arbitrary: m)
  case (Cons e ds)
  { case 1
    show ?case using Cons.IH(1) [OF inbox_insert_wf [OF 1]] by simp }
  { case 2
    have "sm_wf (inbox_insert X e m)" by (rule inbox_insert_wf [OF 2])
    from Cons.IH(2) [OF this] show ?case
      by (auto simp: inbox_insert_def Let_def sm.find_put split: option.splits) }
qed (auto split: option.split)

lemma map_of_filter_key: "P k \<Longrightarrow> map_of (filter (\<lambda>(k, v). P k) d) k = map_of d k"
  by (induction d) auto

lemma b_elem_project:
  "bson_laws X \<Longrightarrow> k \<in> set (map fst f) \<Longrightarrow> b_elem X (project (Some f) d) k = b_elem X d k"
  by (simp add: bson_lawsD project_def map_of_filter_key [of "\<lambda>k. k = ''_id'' \<or> k \<in> fst ` set f"])

definition inbox_group :: "uint32 \<times> ubj list \<Rightarrow> ubj" where
  "inbox_group = (\<lambda>(src, ids). UObject [(''contactId'', UInt32 src), (''requestIds'', UArray ids)])"

text \<open>The inbox as a function of the documents: the senders in order, each with its requests.\<close>

definition inbox_of :: "('z) lib_scheme \<Rightarrow> bson_obj list \<Rightarrow> ubj list" where
  "inbox_of X ds =
     map (\<lambda>src. inbox_group (src,
         map (\<lambda>o1. UInt32 (doc_int X ''id'' o1)) (filter (\<lambda>o1. doc_int X ''src'' o1 = src) ds)))
       (sorted_list_of_set (doc_int X ''src'' ` set ds))"

text \<open>
  C34. \<open>DB::getInbox\<close>, which collects the ids in a map one document at a time, is the
  function \<open>inbox_of\<close> of the pending push requests of the account: it lists each sender that
  has a pending request exactly once, in ascending order of account id, with the ids of all
  its requests in the order the database delivered them.
\<close>

theorem getInbox_groups_by_sender:
  assumes "mongo_laws X docs sat" and "bson_laws X" and "m_connections d \<noteq> []"
  shows "\<exists>ds d'. DB_getInbox X inbox a d = Some ((True, UArray (inbox_of X ds)), d') \<and>
    mset ds = filter_mset (sat [(''dst'', BNumberInt a), (''type'', BNumberInt 4100)])
      (docs (db_mongo d) ''zway.requests'')"
proof -
  let ?q = "[(''dst'', BNumberInt a), (''type'', BNumberInt 4100)]"
  let ?f = "[(''src'', BNumberInt 1), (''id'', BNumberInt 1)]"
  obtain ds d' where ds: "with_lock X (\<lambda>db. m_query X db ''zway.requests'' ?q [] 0 (Some ?f)) d =
      Some (Some (map (project (Some ?f)) ds, False), d')"
    "mset ds = filter_mset (sat ?q) (docs (db_mongo d) ''zway.requests'')"
    using with_lock_query [OF assms(1,3)] by metis
  define m where "m = fold (inbox_insert X) (map (project (Some ?f)) ds) []"
  have wf: "sm_wf m" using inbox_fold(1) [of "[]"] by (simp add: m_def)
  have find: "sm_find m s =
      (let new = map (\<lambda>o1. UInt32 (doc_int X ''id'' o1)) (filter (\<lambda>o1. doc_int X ''src'' o1 = s) ds)
       in if new = [] then None else Some new)" for s
    using inbox_fold(2) [of "[]" X "map (project (Some ?f)) ds" s]
    by (simp add: m_def filter_map o_def b_elem_project [OF assms(2)])
  have keys: "set (map fst m) = doc_int X ''src'' ` set ds"
  proof -
    have "s \<in> set (map fst m) \<longleftrightarrow> sm_find m s \<noteq> None" for s
      by (simp add: sm_find_def map_of_eq_None_iff)
    then have "s \<in> set (map fst m) \<longleftrightarrow> (\<exists>o1 \<in> set ds. doc_int X ''src'' o1 = s)" for s
      by (simp add: find Let_def filter_empty_conv)
    then show ?thesis unfolding set_eq_iff image_iff by metis
  qed
  have "e = (fst e, map (\<lambda>o1. UInt32 (doc_int X ''id'' o1)) (filter (\<lambda>o1. doc_int X ''src'' o1 = fst e) ds))"
    if "e \<in> set m" for e
  proof -
    have "sm_find m (fst e) = Some (snd e)" using that sm.entry_iff [OF wf, of "fst e" "snd e"] by simp
    then have "snd e = map (\<lambda>o1. UInt32 (doc_int X ''id'' o1)) (filter (\<lambda>o1. doc_int X ''src'' o1 = fst e) ds)"
      by (simp add: find Let_def split: if_splits)
    then show ?thesis by (metis prod.collapse)
  qed
  then have "map inbox_group m = map (\<lambda>src. inbox_group (src,
      map (\<lambda>o1. UInt32 (doc_int X ''id'' o1)) (filter (\<lambda>o1. doc_int X ''src'' o1 = src) ds))) (map fst m)"
    unfolding map_map o_def by (intro map_cong refl) metis
  moreover have "map fst m = sorted_list_of_set (set (map fst m))"
    using sm.ascending [OF wf] sorted_list_of_set.idem_if_sorted_distinct [of "map fst m"] by (simp add: strict_sorted_iff)
  ultimately have "map inbox_group m = inbox_of X ds" by (simp only: inbox_of_def keys)
  moreover have "DB_getInbox X inbox a d = Some ((True, UArray (map inbox_group m)), d')"
    by (simp add: DB_getInbox_def ds(1) m_def inbox_group_def)
  ultimately show ?thesis using ds(2) by auto
qed



section \<open>New account ids\<close>

text \<open>
  MongoDB's sort by a numeric field: with a descending sort and a limit of one the query
  delivers a document whose (signed) value is largest.
\<close>

definition doc_id :: "bson_obj \<Rightarrow> uint32 option" where
  "doc_id doc = (case map_of doc ''id'' of Some (BNumberInt n) \<Rightarrow> Some n | _ \<Rightarrow> None)"

definition sort_law :: "('db, 'z) ext_scheme \<Rightarrow> ('db \<Rightarrow> string \<Rightarrow> bson_obj multiset) \<Rightarrow> bool" where
  "sort_law X docs \<longleftrightarrow>
     (\<forall>db ns f. docs (snd (m_query X db ns [] [(''id'', BNumberInt (- 1))] 1 f)) = docs db) \<and>
     (\<forall>db ns f. (\<forall>e \<in># docs db ns. doc_id e \<noteq> None) \<longrightarrow>
        fst (m_query X db ns [] [(''id'', BNumberInt (- 1))] 1 f) = Some ([], False) \<and>
          docs db ns = {#} \<or>
        (\<exists>top \<in># docs db ns.
           fst (m_query X db ns [] [(''id'', BNumberInt (- 1))] 1 f) = Some ([project f top], False) \<and>
           (\<forall>e \<in># docs db ns. sint (the (doc_id e)) \<le> sint (the (doc_id top)))))"

lemma sint_succ: "sint (w :: uint32) < 2147483647 \<Longrightarrow> sint (w + 1) = sint w + 1"
  using sint_ge [of w] by (simp add: sint_word_ariths signed_take_bit_int_eq_self_iff)

lemma DB_newAccountId_mongo:
  assumes "sort_law X docs" and "bson_laws X" and "m_connections d \<noteq> []"
    and ids: "\<forall>e \<in># docs (db_mongo d) ''zway.accounts''.
      \<exists>n. doc_id e = Some n \<and> sint n < 2147483647"
  obtains n d' where "DB_newAccountId X d = Some (n, d')"
    and "\<forall>e \<in># docs (db_mongo d) ''zway.accounts''. doc_id e \<noteq> Some n"
    and "docs (db_mongo d') = docs (db_mongo d)" and "m_connections d' \<noteq> []"
proof -
  let ?f = "Some [(''id'', BNumberInt 1)]" and ?D = "docs (db_mongo d) ''zway.accounts''"
  let ?r = "m_query X (db_mongo d) ''zway.accounts'' [] [(''id'', BNumberInt (- 1))] 1 ?f"
  obtain d' where d': "with_lock X (\<lambda>db. m_query X db ''zway.accounts'' []
      [(''id'', BNumberInt (- 1))] 1 ?f) d = Some (fst ?r, d')" "db_mongo d' = snd ?r" "m_connections d' \<noteq> []"
    using with_lock_ready [OF assms(3)] by blast
  have docs': "docs (db_mongo d') = docs (db_mongo d)"
    using assms(1) d'(2) by (simp add: sort_law_def)
  have "\<forall>e \<in># ?D. doc_id e \<noteq> None" using ids by fastforce
  note largest = assms(1) [unfolded sort_law_def, THEN conjunct2, THEN spec [of _ "db_mongo d"],
      THEN spec [of _ "''zway.accounts''"], THEN spec [of _ ?f], THEN mp, OF this]
  consider (none) "fst ?r = Some ([], False)" "?D = {#}"
    | (top) top where "top \<in># ?D" "fst ?r = Some ([project ?f top], False)"
        "\<forall>e \<in># ?D. sint (the (doc_id e)) \<le> sint (the (doc_id top))"
    using largest by blast
  then show thesis
  proof cases
    case none
    with d' docs' show thesis by (intro that [of 1 d']) (simp_all add: DB_newAccountId_def)
  next
    case top
    obtain n where n: "doc_id top = Some n" "sint n < 2147483647" using ids top(1) by blast
    then have "map_of top ''id'' = Some (BNumberInt n)"
      by (auto simp: doc_id_def split: option.splits bson.splits)
    then have "b_getIntField X (project ?f top) ''id'' = n"
      using bson_lawsD(13) [OF assms(2), of "project ?f top" "''id''" n]
        map_of_filter_key [of "\<lambda>k. k = ''_id'' \<or> k = ''id''" "''id''" top]
      by (simp add: project_def)
    then have "DB_newAccountId X d = Some (n + 1, d')"
      using d'(1) top(2) by (simp add: DB_newAccountId_def)
    moreover have "doc_id e \<noteq> Some (n + 1)" if "e \<in># ?D" for e
      using top(3) that n sint_succ [of n] by fastforce
    ultimately show thesis using d'(3) docs' by (intro that) auto
  qed
qed

text \<open>
  C35. \<open>DB::newAccountId\<close> returns an id that no account has, as long as the ids in use stay
  below the largest signed 32-bit number: one more than the largest id, or 1 for the first
  account.
\<close>

theorem newAccountId_fresh:
  assumes "sort_law X docs" and "bson_laws X" and "m_connections d \<noteq> []"
    and "\<forall>e \<in># docs (db_mongo d) ''zway.accounts''.
      \<exists>n. doc_id e = Some n \<and> sint n < 2147483647"
  shows "\<exists>n d'. DB_newAccountId X d = Some (n, d') \<and>
    (\<forall>e \<in># docs (db_mongo d) ''zway.accounts''. doc_id e \<noteq> Some n)"
  by (rule DB_newAccountId_mongo [OF assms]) blast

lemma DB_insertAccount_mongo:
  assumes "mongo_laws X docs sat" and "m_connections d \<noteq> []"
  obtains d' where "DB_insertAccount X a nm ph fn fp pw sl d = Some (True, d')"
    and "docs (db_mongo d') = (docs (db_mongo d))(''zway.accounts'' :=
      add_mset [(''id'', BNumberInt a), (''name'', BString nm), (''phone'', BString ph),
        (''findByName'', BBool fn), (''findByPhone'', BBool fp), (''pass'', BBinData pw), (''salt'', BBinData sl)]
        (docs (db_mongo d) ''zway.accounts''))"
    and "m_connections d' \<noteq> []"
proof -
  let ?e = "[(''id'', BNumberInt a), (''name'', BString nm), (''phone'', BString ph),
        (''findByName'', BBool fn), (''findByPhone'', BBool fp), (''pass'', BBinData pw), (''salt'', BBinData sl)]"
  obtain d' where "with_lock X (\<lambda>db. m_insert X db ''zway.accounts'' ?e) d =
      Some (fst (m_insert X (db_mongo d) ''zway.accounts'' ?e), d')"
    and "db_mongo d' = snd (m_insert X (db_mongo d) ''zway.accounts'' ?e)" and "m_connections d' \<noteq> []"
    using with_lock_ready [OF assms(2)] by blast
  then show thesis
    by (intro that [of d']) (auto simp: DB_insertAccount_def mongo_lawsD [OF assms(1)])
qed

section \<open>Witnesses\<close>

definition ex_db :: mem_db where
  "ex_db = (\<lambda>_. [])(
     ''zway.accounts'' :=
       [[(''id'', BNumberInt 7), (''name'', BString ''ann''), (''phone'', BString ''1'')],
        [(''id'', BNumberInt 9), (''name'', BString ''bob''), (''phone'', BString ''2'')]],
     ''zway.requests'' :=
       [[(''id'', BNumberInt 50), (''type'', BNumberInt 4100), (''src'', BNumberInt 9), (''dst'', BNumberInt 7)],
        [(''id'', BNumberInt 51), (''type'', BNumberInt 4100), (''src'', BNumberInt 8), (''dst'', BNumberInt 7)]])"

definition ex_dbs :: "mem_db db_state" where
  "ex_dbs = \<lparr>db_mongo = ex_db, m_connections = [1, 2, 3]\<rparr>"

lemma ex_dbs_ready [simp]: "m_connections ex_dbs \<noteq> []"
  by (simp add: ex_dbs_def)

lemma ex_cursor_law: "cursor_law ex_ext"
  by (simp add: cursor_law_def ex_ext_def ex_query_def Let_def)

lemma ex_sort_law: "sort_law ex_ext (\<lambda>db ns. mset (db ns))"
  unfolding sort_law_def
proof (intro conjI allI impI)
  show "(\<lambda>ns. mset (snd (m_query ex_ext db ns' [] [(''id'', BNumberInt (- 1))] 1 f) ns)) = (\<lambda>ns. mset (db ns))"
    for db ns' f
    by (simp add: ex_ext_def ex_query_def)
next
  fix db :: mem_db and ns f
  let ?l = "sort_key (\<lambda>e. sint (ex_id e)) (db ns)"
  assume ids: "\<forall>e \<in># mset (db ns). doc_id e \<noteq> None"
  have ex_id: "ex_id e = the (doc_id e)" if "e \<in> set (db ns)" for e
  proof -
    have "doc_id e \<noteq> None" using ids that by simp
    then show ?thesis by (auto simp: ex_id_def doc_id_def split: option.splits bson.splits)
  qed
  have all: "filter (ex_sat []) (db ns) = db ns"
    by (simp add: ex_sat_def)
  show "fst (m_query ex_ext db ns [] [(''id'', BNumberInt (- 1))] 1 f) = Some ([], False) \<and>
      mset (db ns) = {#} \<or>
    (\<exists>top \<in># mset (db ns).
       fst (m_query ex_ext db ns [] [(''id'', BNumberInt (- 1))] 1 f) = Some ([project f top], False) \<and>
       (\<forall>e \<in># mset (db ns). sint (the (doc_id e)) \<le> sint (the (doc_id top))))"
  proof (cases "db ns = []")
    case True
    then show ?thesis by (simp add: ex_ext_def ex_query_def all)
  next
    case False
    then have l: "?l \<noteq> []" "last ?l \<in> set (db ns)"
      by (metis mset_sort mset_zero_iff_right, metis last_in_set mset_sort set_mset_mset mset_zero_iff_right)
    have "sint (ex_id e) \<le> sint (ex_id (last ?l))" if "e \<in> set (db ns)" for e
    proof -
      have "e \<in> set ?l" using that by simp
      then obtain i where "i < length ?l" "?l ! i = e" by (metis in_set_conv_nth)
      then show ?thesis
        using sorted_nth_mono [OF sorted_sort_key [of "\<lambda>e. sint (ex_id e)" "db ns"], of i "length ?l - 1"] l(1)
        by (auto simp: last_conv_nth)
    qed
    moreover have "take 1 (rev ?l) = [last ?l]"
      using l(1) by (cases ?l rule: rev_cases) auto
    ultimately show ?thesis
      using l(2) ex_id by (intro disjI2 bexI [of _ "last ?l"]) (auto simp: ex_ext_def ex_query_def all)
  qed
qed

theorem db_calls_conserve_connections_witness:
  "\<exists>d'. for_each [NewAccountId, GetInbox 7] (run_db_call ex_ext) ex_dbs = Some d' \<and>
    m_connections d' = [3, 1, 2]"
  using db_calls_conserve_connections [OF ex_dbs_ready ex_cursor_law, of "[NewAccountId, GetInbox 7]"]
  by (simp add: ex_dbs_def)

theorem addRequest_reports_success_witness:
  "\<exists>d'. DB_addRequest (ex_ext\<lparr>m_insert := \<lambda>db ns e. (False, db)\<rparr>) [] ex_dbs = Some (True, d') \<and>
    db_mongo d' = ex_db"
  using addRequest_reports_success [OF ex_dbs_ready, of "ex_ext\<lparr>m_insert := \<lambda>db ns e. (False, db)\<rparr>" "[]"]
  by (simp add: ex_dbs_def)

theorem num_requests_on_exception_witness:
  "\<exists>d'. DB_numPushRequests (ex_ext\<lparr>m_count := \<lambda>db ns q. (None, db)\<rparr>) 7 ex_dbs = Some (4294967295, d')"
  using num_requests_on_exception [OF ex_dbs_ready, of "ex_ext\<lparr>m_count := \<lambda>db ns q. (None, db)\<rparr>" 7]
  by simp

theorem getInbox_groups_by_sender_witness:
  "\<exists>ds d'. DB_getInbox ex_ext UNull 7 ex_dbs = Some ((True, UArray (inbox_of ex_ext ds)), d') \<and> length ds = 2"
proof -
  obtain ds d' where ds: "DB_getInbox ex_ext UNull 7 ex_dbs = Some ((True, UArray (inbox_of ex_ext ds)), d')"
    and "mset ds = filter_mset (ex_sat [(''dst'', BNumberInt 7), (''type'', BNumberInt 4100)])
      (mset (db_mongo ex_dbs ''zway.requests''))"
    using getInbox_groups_by_sender [OF ex_mongo_laws ex_bson_laws ex_dbs_ready, of UNull 7] by blast
  from arg_cong [OF this(2), of size] have "length ds = 2"
    by (simp add: ex_dbs_def ex_db_def ex_sat_def)
  with ds show ?thesis by blast
qed

theorem newAccountId_fresh_witness:
  "\<exists>n d'. DB_newAccountId ex_ext ex_dbs = Some (n, d') \<and> n \<noteq> 7 \<and> n \<noteq> 9"
  using newAccountId_fresh [OF ex_sort_law ex_bson_laws ex_dbs_ready]
  by (auto simp: ex_dbs_def ex_db_def doc_id_def)

end
