(* ===== verification/Pool.thy ===== *)
theory Pool
  imports Database
begin

text \<open>
  The connection pool of src/src/db.cpp under concurrency. The worker threads of
  src/src/main.cpp run handlers at the same time; a database method of a thread goes
  through \<open>acquire\<close> (try, wait at most ten seconds, try again) and gives its connection
  back in the destructor of the lock. The mutexes make each access to the queue one step;
  \<open>pool_step\<close> interleaves the steps of all threads in any order.
\<close>

section \<open>Threads\<close>

datatype acquire_state =
    Outside             \<comment> \<open>not inside a database method\<close>
  | WaitingFor          \<comment> \<open>in \<open>m_condition.wait_for\<close>\<close>
  | Holding nat         \<comment> \<open>owns a \<open>Connection::Lock\<close>\<close>
  | NoConnection        \<comment> \<open>\<open>acquire\<close> returned a null pointer\<close>

record 'db pool =
  p_db :: "'db db_state"
  p_threads :: "nat \<Rightarrow> acquire_state"

inductive pool_step :: "nat set \<Rightarrow> 'db pool \<Rightarrow> 'db pool \<Rightarrow> bool" for T where
  first_try: "t \<in> T \<Longrightarrow> p_threads s t = Outside \<Longrightarrow> DB_getConnection (p_db s) = (Some con, d) \<Longrightarrow>
     pool_step T s (s\<lparr>p_db := d, p_threads := (p_threads s)(t := Holding con)\<rparr>)"
| start_waiting: "t \<in> T \<Longrightarrow> p_threads s t = Outside \<Longrightarrow> DB_getConnection (p_db s) = (None, d) \<Longrightarrow>
     pool_step T s (s\<lparr>p_db := d, p_threads := (p_threads s)(t := WaitingFor)\<rparr>)"
| second_try: "t \<in> T \<Longrightarrow> p_threads s t = WaitingFor \<Longrightarrow> DB_getConnection (p_db s) = (Some con, d) \<Longrightarrow>
     pool_step T s (s\<lparr>p_db := d, p_threads := (p_threads s)(t := Holding con)\<rparr>)"
| give_up: "t \<in> T \<Longrightarrow> p_threads s t = WaitingFor \<Longrightarrow> DB_getConnection (p_db s) = (None, d) \<Longrightarrow>
     pool_step T s (s\<lparr>p_db := d, p_threads := (p_threads s)(t := NoConnection)\<rparr>)"
| unlock: "t \<in> T \<Longrightarrow> p_threads s t = Holding con \<Longrightarrow>
     pool_step T s (s\<lparr>p_db := Lock_unlock con (p_db s), p_threads := (p_threads s)(t := Outside)\<rparr>)"

inductive pool_reachable :: "nat set \<Rightarrow> 'db pool \<Rightarrow> 'db pool \<Rightarrow> bool" for T s0 where
  start: "pool_reachable T s0 s0"
| step: "pool_reachable T s0 s \<Longrightarrow> pool_step T s s' \<Longrightarrow> pool_reachable T s0 s'"

text \<open>The state after \<open>DB::startup\<close> with \<open>n\<close> connections, before any thread works.\<close>

definition pool_init :: "'db \<Rightarrow> nat \<Rightarrow> 'db pool" where
  "pool_init db n =
     \<lparr>p_db = \<lparr>db_mongo = db, m_connections = [0..<n]\<rparr>, p_threads = (\<lambda>_. Outside)\<rparr>"

definition held :: "(nat \<Rightarrow> acquire_state) \<Rightarrow> nat set" where
  "held th = {con. \<exists>t. th t = Holding con}"

definition pool_inv :: "nat set \<Rightarrow> nat set \<Rightarrow> 'db pool \<Rightarrow> bool" where
  "pool_inv T C s \<longleftrightarrow>
     distinct (m_connections (p_db s)) \<and>
     set (m_connections (p_db s)) \<inter> held (p_threads s) = {} \<and>
     set (m_connections (p_db s)) \<union> held (p_threads s) = C \<and>
     (\<forall>t u con. p_threads s t = Holding con \<longrightarrow> p_threads s u = Holding con \<longrightarrow> t = u) \<and>
     (\<forall>t. p_threads s t \<noteq> Outside \<longrightarrow> t \<in> T)"

section \<open>Startup fills the queue\<close>

lemma startup_loop_ok:
  "(\<And>i. \<not> throws i) \<Longrightarrow> startup_loop throws auth i n q = (True, q @ [i..<i + n])"
  by (induction n arbitrary: i q)
    (auto simp: Connection_create_def Connection_init_def upt_rec simp flip: upt_Suc)

lemma startup_loop_fails:
  assumes "startup_loop throws auth i n q = (False, q')"
  shows "\<exists>j. i \<le> j \<and> j < i + n \<and> throws j \<and> q' = q @ [i..<j]"
  using assms
proof (induction n arbitrary: i q)
  case (Suc n)
  show ?case
  proof (cases "throws i")
    case False
    then obtain j where "Suc i \<le> j" "j < Suc i + n" "throws j" "q' = (q @ [i]) @ [Suc i..<j]"
      using Suc.IH [of "Suc i" "q @ [i]"] Suc.prems
      by (auto simp: Connection_create_def Connection_init_def)
    then show ?thesis by (intro exI [of _ j]) (auto simp: upt_conv_Cons)
  qed (use Suc.prems in \<open>auto simp: Connection_create_def Connection_init_def intro: exI [of _ i]\<close>)
qed simp

section \<open>The invariant\<close>

lemma DB_getConnection_Some:
  "DB_getConnection d = (Some con, d') \<longleftrightarrow>
     (\<exists>rest. m_connections d = con # rest \<and> d' = d\<lparr>m_connections := rest\<rparr>)"
  by (auto simp: DB_getConnection_def split: list.splits)

lemma DB_getConnection_None:
  "DB_getConnection d = (None, d') \<longleftrightarrow> m_connections d = [] \<and> d' = d"
  by (auto simp: DB_getConnection_def split: list.splits)

lemmas getConnection_cases = DB_getConnection_Some DB_getConnection_None

lemma heldI: "th t = Holding con \<Longrightarrow> con \<in> held th"
  by (auto simp: held_def)

lemma heldE:
  assumes "con \<in> held th"
  obtains t where "th t = Holding con"
  using assms by (auto simp: held_def)

lemma held_upd:
  "held (th(t := a)) = {con. a = Holding con \<or> (\<exists>u. u \<noteq> t \<and> th u = Holding con)}"
  by (auto simp: held_def)

lemma held_acquire:
  "(\<And>c. th t \<noteq> Holding c) \<Longrightarrow> held (th(t := Holding con)) = insert con (held th)"
  unfolding held_upd held_def by (auto, metis)

lemma held_keep:
  "(\<And>c. th t \<noteq> Holding c) \<Longrightarrow> (\<And>c. a \<noteq> Holding c) \<Longrightarrow> held (th(t := a)) = held th"
  unfolding held_upd held_def by (auto, metis)

lemma held_release:
  assumes "th t = Holding con" and unique: "\<forall>u. th u = Holding con \<longrightarrow> u = t"
  shows "held (th(t := Outside)) = held th - {con}"
proof (intro set_eqI iffI)
  fix c assume "c \<in> held (th(t := Outside))"
  then obtain u where u: "u \<noteq> t" "th u = Holding c" by (auto simp: held_upd)
  then have "c \<noteq> con" using unique by blast
  with u show "c \<in> held th - {con}" by (simp add: heldI)
next
  fix c assume "c \<in> held th - {con}"
  then obtain u where u: "th u = Holding c" "c \<noteq> con" by (auto elim: heldE)
  then have "u \<noteq> t" using assms(1) by auto
  with u show "c \<in> held (th(t := Outside))" by (auto simp: held_upd)
qed

lemma pool_inv_init: "pool_inv T {0..<n} (pool_init db n)"
  by (auto simp: pool_inv_def pool_init_def held_def)

text \<open>A thread that takes the first connection of the queue, on either try.\<close>

lemma pool_inv_acquire:
  assumes "pool_inv T C s" and "t \<in> T" and "\<And>c. p_threads s t \<noteq> Holding c"
    and "m_connections (p_db s) = con # rest"
  shows "pool_inv T C (s\<lparr>p_db := (p_db s)\<lparr>m_connections := rest\<rparr>, p_threads := (p_threads s)(t := Holding con)\<rparr>)"
proof -
  have "con \<notin> held (p_threads s)" using assms(1,4) by (auto simp: pool_inv_def)
  then have "p_threads s u \<noteq> Holding con" for u using heldI by blast
  then show ?thesis
    using assms by (auto simp: pool_inv_def held_acquire)
qed

lemma pool_step_inv: "pool_step T s s' \<Longrightarrow> pool_inv T C s \<Longrightarrow> pool_inv T C s'"
proof (induction rule: pool_step.induct)
  case (unlock t s con)
  then have "held ((p_threads s)(t := Outside)) = held (p_threads s) - {con}"
    by (intro held_release) (auto simp: pool_inv_def)
  moreover have "con \<in> held (p_threads s)"
    using unlock by (auto intro: heldI)
  ultimately show ?case
    using unlock by (auto simp: pool_inv_def Lock_unlock_def)
qed (auto simp: getConnection_cases pool_inv_acquire, auto simp: pool_inv_def held_keep)

lemma pool_reachable_inv:
  "pool_reachable T (pool_init db n) s \<Longrightarrow> pool_inv T {0..<n} s"
  by (induction rule: pool_reachable.induct) (auto intro: pool_inv_init pool_step_inv)

text \<open>With at least as many connections as threads, a thread outside always finds one.\<close>

lemma free_connection:
  assumes "pool_inv T C s" and "finite T" and "card T \<le> card C" and "finite C"
    and "t \<in> T" and "\<And>c. p_threads s t \<noteq> Holding c"
  shows "m_connections (p_db s) \<noteq> []"
proof
  assume "m_connections (p_db s) = []"
  then have all: "held (p_threads s) = C" using assms(1) by (simp add: pool_inv_def)
  then have "\<forall>c \<in> C. \<exists>u. p_threads s u = Holding c" by (auto simp: held_def)
  then obtain f where f: "\<And>c. c \<in> C \<Longrightarrow> p_threads s (f c) = Holding c" by metis
  have "f ` C \<subseteq> T - {t}"
    using f assms(1,6) by (fastforce simp: pool_inv_def)
  moreover have "inj_on f C"
    using f by (metis acquire_state.inject inj_onI)
  ultimately have "card C \<le> card (T - {t})"
    using assms(2) by (metis card_inj_on_le finite_Diff)
  also have "\<dots> < card T"
    using assms(2,5) by (rule card_Diff1_less)
  finally show False using assms(3) by simp
qed

text \<open>
  C21. However the threads interleave, a connection is never used by two threads at once,
  a connection in the queue is in use by none, and none of the connections opened at
  startup is ever lost or duplicated.
\<close>

theorem pool_exclusive_use:
  assumes "pool_reachable T (pool_init db n) s"
  shows "(\<forall>t u con. p_threads s t = Holding con \<and> p_threads s u = Holding con \<longrightarrow> t = u) \<and>
    (\<forall>t con. p_threads s t = Holding con \<longrightarrow> con \<notin> set (m_connections (p_db s))) \<and>
    distinct (m_connections (p_db s)) \<and>
    set (m_connections (p_db s)) \<union> held (p_threads s) = {0..<n}"
proof -
  have "pool_inv T {0..<n} s" by (rule pool_reachable_inv [OF assms])
  then show ?thesis using heldI unfolding pool_inv_def by blast
qed

lemma pool_no_starvation:
  assumes "pool_reachable T (pool_init db n) s" and "finite T" and "card T \<le> n"
  shows "p_threads s t \<noteq> NoConnection \<and> p_threads s t \<noteq> WaitingFor"
  using assms(1)
proof (induction rule: pool_reachable.induct)
  case start
  then show ?case by (simp add: pool_init_def)
next
  case (step s s')
  have inv: "pool_inv T {0..<n} s" by (rule pool_reachable_inv [OF step(1)])
  have free: "m_connections (p_db s) \<noteq> []"
    if "u \<in> T" "p_threads s u = Outside \<or> p_threads s u = WaitingFor" for u
    by (rule free_connection [OF inv assms(2) _ _ that(1)]) (use assms(3) that(2) in auto)
  from step(2) show ?case
    using step(3) by (cases rule: pool_step.cases) (auto simp: getConnection_cases dest: free)
qed

text \<open>
  C22. If there are at most as many threads as connections (the server opens 25 and starts
  20 workers by default), no thread ever waits for a connection, so no database method
  dereferences a null lock.
\<close>

theorem pool_never_starves:
  assumes "pool_reachable T (pool_init db n) s" and "finite T" and "card T \<le> n"
  shows "p_threads s t \<noteq> NoConnection \<and> p_threads s t \<noteq> WaitingFor"
  using pool_no_starvation [OF assms] .


section \<open>Witnesses\<close>

lemma ex_pool_step:
  "pool_reachable {0, 1} (pool_init () 2)
     (pool_init () 2\<lparr>p_db := \<lparr>db_mongo = (), m_connections = [1]\<rparr>,
        p_threads := (p_threads (pool_init () 2))(0 := Holding 0)\<rparr>)"
  by (rule pool_reachable.step [OF pool_reachable.start], rule first_try)
    (auto simp: pool_init_def getConnection_cases upt_rec)

theorem pool_exclusive_use_witness:
  "\<exists>s :: unit pool. p_threads s 0 = Holding 0 \<and> 0 \<notin> set (m_connections (p_db s)) \<and>
     set (m_connections (p_db s)) \<union> held (p_threads s) = {0..<2}"
proof -
  let ?s = "pool_init () 2\<lparr>p_db := \<lparr>db_mongo = (), m_connections = [1]\<rparr>,
        p_threads := (p_threads (pool_init () 2))(0 := Holding 0)\<rparr>"
  have "p_threads ?s 0 = Holding 0" by simp
  then show ?thesis
    using pool_exclusive_use [OF ex_pool_step] by (intro exI [of _ ?s]) blast
qed

theorem pool_never_starves_witness:
  "\<exists>s :: unit pool. p_threads s 0 = Holding 0 \<and> (\<forall>t. p_threads s t \<noteq> NoConnection)"
proof -
  let ?s = "pool_init () 2\<lparr>p_db := \<lparr>db_mongo = (), m_connections = [1]\<rparr>,
        p_threads := (p_threads (pool_init () 2))(0 := Holding 0)\<rparr>"
  have "p_threads ?s 0 = Holding 0" by simp
  moreover have "p_threads ?s t \<noteq> NoConnection" for t
    using pool_never_starves [OF ex_pool_step, of t] by simp
  ultimately show ?thesis by blast
qed

end
