(* ===== verification/Stream_Buffer.thy ===== *)
theory Stream_Buffer
  imports External
begin

text \<open>
  Buffers for uploaded resources: \<open>FileBuffer\<close> and \<open>StreamBuffer\<close> of
  src/src/streambuffer.cpp and src/include/streambuffer.h, on top of C's stdio. A file
  handle is a number; what it stands for is in the handle table of the file system state.
  Closing a handle that is not open, and using a null or closed handle, is undefined
  behaviour in C: the operation is \<^const>\<open>None\<close>. The base class \<open>Zway::Buffer\<close> (an
  in-memory buffer) belongs to the core library and is a parameter.
\<close>

section \<open>stdio\<close>

datatype fmode = ReadBinary | AppendBinary

record files =
  f_disk :: "string \<Rightarrow> bytes option"
  f_handles :: "nat \<Rightarrow> (string \<times> fmode) option"
  f_next :: nat

text \<open>
  The environment: whether the system lets a file be opened, how many of the bytes given
  to \<open>fwrite\<close> reach the file, the in-memory buffers of the core library, and two of its
  constants (the size a \<open>Zway::Buffer\<close> is constructed with, the payload of a packet).
\<close>

record 'm buf_ext =
  io_open :: "string \<Rightarrow> fmode \<Rightarrow> bool"
  io_written :: "bytes \<Rightarrow> nat"
  zb_create :: "uint64 \<Rightarrow> 'm option"
  zb_read :: "'m \<Rightarrow> uint64 \<Rightarrow> uint64 \<Rightarrow> bytes option"
  zb_write :: "'m \<Rightarrow> bytes \<Rightarrow> uint64 \<Rightarrow> 'm option"
  zb_size :: "'m \<Rightarrow> uint64"
  zb_initialSize :: uint64
  max_packet_body :: uint64

definition contents :: "files \<Rightarrow> string \<Rightarrow> bytes" where
  "contents fs path = (case f_disk fs path of None \<Rightarrow> [] | Some bs \<Rightarrow> bs)"

definition new_handle :: "string \<Rightarrow> fmode \<Rightarrow> files \<Rightarrow> nat option \<times> files" where
  "new_handle path mode fs =
     (Some (f_next fs), fs\<lparr>f_handles := (f_handles fs)(f_next fs \<mapsto> (path, mode)), f_next := Suc (f_next fs)\<rparr>)"

definition fopen_rb :: "('m, 'z) buf_ext_scheme \<Rightarrow> string \<Rightarrow> files \<Rightarrow> nat option \<times> files" where
  "fopen_rb B path fs =
     (if f_disk fs path = None \<or> \<not> io_open B path ReadBinary then (None, fs)
      else new_handle path ReadBinary fs)"

definition fopen_ab :: "('m, 'z) buf_ext_scheme \<Rightarrow> string \<Rightarrow> files \<Rightarrow> nat option \<times> files" where
  "fopen_ab B path fs =
     (if \<not> io_open B path AppendBinary then (None, fs)
      else new_handle path AppendBinary (fs\<lparr>f_disk := (f_disk fs)(path \<mapsto> contents fs path)\<rparr>))"

definition fclose :: "nat \<Rightarrow> files \<Rightarrow> files option" where
  "fclose h fs =
     (case f_handles fs h of None \<Rightarrow> None | Some _ \<Rightarrow> Some (fs\<lparr>f_handles := (f_handles fs)(h := None)\<rparr>))"

section \<open>FileBuffer\<close>

record filebuffer =
  fb_fh :: "nat option"
  fb_size :: uint64

text \<open>
  \<open>init\<close> closes the handle it probed the file with, but leaves the pointer in \<open>m_fh\<close>
  when it returns false.
\<close>

definition FileBuffer_init ::
  "('m, 'z) buf_ext_scheme \<Rightarrow> string \<Rightarrow> filebuffer \<Rightarrow> files \<Rightarrow> ((bool \<times> filebuffer) \<times> files) option" where
  "FileBuffer_init B filename fb fs =
     (let (h, fs) = fopen_rb B filename fs; fb = fb\<lparr>fb_fh := h\<rparr> in
      case h of
        Some fh \<Rightarrow> do { fs \<leftarrow> fclose fh fs; Some ((False, fb), fs) }
      | None \<Rightarrow>
          (let (h, fs) = fopen_ab B filename fs; fb = fb\<lparr>fb_fh := h\<rparr>
           in Some ((h \<noteq> None, fb), fs)))"

definition FileBuffer_load ::
  "('m, 'z) buf_ext_scheme \<Rightarrow> string \<Rightarrow> filebuffer \<Rightarrow> files \<Rightarrow> (bool \<times> filebuffer) \<times> files" where
  "FileBuffer_load B filename fb fs =
     (let (h, fs) = fopen_rb B filename fs; fb = fb\<lparr>fb_fh := h\<rparr> in
      case h of
        None \<Rightarrow> ((False, fb), fs)
      | Some fh \<Rightarrow> ((True, fb\<lparr>fb_size := of_nat (length (contents fs filename))\<rparr>), fs))"

text \<open>\<open>release\<close> is also the destructor.\<close>

definition FileBuffer_release :: "filebuffer \<Rightarrow> files \<Rightarrow> (filebuffer \<times> files) option" where
  "FileBuffer_release fb fs =
     (case fb_fh fb of
        None \<Rightarrow> Some (fb, fs)
      | Some fh \<Rightarrow> do { fs \<leftarrow> fclose fh fs; Some (fb\<lparr>fb_fh := None\<rparr>, fs) })"

definition new_filebuffer :: "('m, 'z) buf_ext_scheme \<Rightarrow> filebuffer" where
  "new_filebuffer B = \<lparr>fb_fh = None, fb_size = zb_initialSize B\<rparr>"

definition FileBuffer_create ::
  "('m, 'z) buf_ext_scheme \<Rightarrow> string \<Rightarrow> files \<Rightarrow> (filebuffer option \<times> files) option" where
  "FileBuffer_create B filename fs = do {
     ((ok, buf), fs) \<leftarrow> FileBuffer_init B filename (new_filebuffer B) fs;
     if \<not> ok then do { (_, fs) \<leftarrow> FileBuffer_release buf fs; Some (None, fs) }
     else Some (Some buf, fs)
   }"

definition FileBuffer_open ::
  "('m, 'z) buf_ext_scheme \<Rightarrow> string \<Rightarrow> files \<Rightarrow> (filebuffer option \<times> files) option" where
  "FileBuffer_open B filename fs =
     (let ((ok, buf), fs) = FileBuffer_load B filename (new_filebuffer B) fs in
      if \<not> ok then do { (_, fs) \<leftarrow> FileBuffer_release buf fs; Some (None, fs) }
      else Some (Some buf, fs))"

definition handle :: "filebuffer \<Rightarrow> files \<Rightarrow> (string \<times> fmode) option" where
  "handle fb fs = (case fb_fh fb of None \<Rightarrow> None | Some fh \<Rightarrow> f_handles fs fh)"

text \<open>
  \<open>fseek\<close> takes a signed offset and rejects a negative one; \<open>fread\<close> and \<open>fwrite\<close> of one
  item answer 0 for an item of size zero, for an incomplete item, and (\<open>fwrite\<close>) for a
  handle opened for reading. In append mode every write goes to the end of the file,
  wherever the position is.
\<close>

definition FileBuffer_read ::
  "filebuffer \<Rightarrow> uint64 \<Rightarrow> uint64 \<Rightarrow> files \<Rightarrow> bytes option option" where
  "FileBuffer_read fb sz offset fs = do {
     (path, mode) \<leftarrow> handle fb fs;
     if sint offset < 0 then Some None
     else
       let chunk = take (unat sz) (drop (unat offset) (contents fs path)) in
       if sz = 0 \<or> length chunk < unat sz then Some None else Some (Some chunk)
   }"

definition FileBuffer_write ::
  "('m, 'z) buf_ext_scheme \<Rightarrow> filebuffer \<Rightarrow> bytes \<Rightarrow> uint64 \<Rightarrow> files \<Rightarrow> (uint64 option \<times> files) option" where
  "FileBuffer_write B fb data offset fs = do {
     (path, mode) \<leftarrow> handle fb fs;
     if sint offset < 0 then Some (None, fs)
     else if mode = ReadBinary \<or> data = [] then Some (None, fs)
     else
       let n = io_written B data;
           fs = fs\<lparr>f_disk := (f_disk fs)(path \<mapsto> contents fs path @ take n data)\<rparr>
       in Some (if n < length data then None else Some (of_nat (length data)), fs)
   }"

definition FileBuffer_flush :: "filebuffer \<Rightarrow> files \<Rightarrow> files option" where
  "FileBuffer_flush fb fs =
     (case fb_fh fb of None \<Rightarrow> Some fs | Some fh \<Rightarrow> (if f_handles fs fh = None then None else Some fs))"

section \<open>StreamBuffer\<close>

text \<open>\<open>m_buffer\<close> points to a \<open>FileBuffer\<close> or to a plain \<open>Zway::Buffer\<close>; the calls through it are virtual.\<close>

datatype 'm backing = FileB filebuffer | MemB 'm

record 'm streambuffer =
  sb_buffer :: "'m backing option"
  sb_streamId :: uint32
  sb_streamType :: stream_type
  sb_streamParts :: uint32
  sb_bytesReadable :: uint64
  sb_lastActivity :: uint64

record packet_info =
  pk_streamId :: uint32
  pk_streamType :: stream_type
  pk_parts :: uint32

fun backing_read :: "('m, 'z) buf_ext_scheme \<Rightarrow> 'm backing \<Rightarrow> uint64 \<Rightarrow> uint64 \<Rightarrow> files \<Rightarrow> bytes option option" where
  "backing_read B (FileB fb) sz offset fs = FileBuffer_read fb sz offset fs"
| "backing_read B (MemB mem) sz offset fs = Some (zb_read B mem sz offset)"

fun backing_write ::
  "('m, 'z) buf_ext_scheme \<Rightarrow> 'm backing \<Rightarrow> bytes \<Rightarrow> uint64 \<Rightarrow> files
     \<Rightarrow> ((uint64 option \<times> 'm backing) \<times> files) option" where
  "backing_write B (FileB fb) data offset fs = do {
     (r, fs) \<leftarrow> FileBuffer_write B fb data offset fs; Some ((r, FileB fb), fs) }"
| "backing_write B (MemB mem) data offset fs =
     (case zb_write B mem data offset of
        None \<Rightarrow> Some ((None, MemB mem), fs)
      | Some mem' \<Rightarrow> Some ((Some (of_nat (length data)), MemB mem'), fs))"

fun backing_size :: "('m, 'z) buf_ext_scheme \<Rightarrow> 'm backing \<Rightarrow> uint64" where
  "backing_size B (FileB fb) = fb_size fb"
| "backing_size B (MemB mem) = zb_size B mem"

definition new_streambuffer :: "packet_info \<Rightarrow> 'm streambuffer" where
  "new_streambuffer pkt =
     \<lparr>sb_buffer = None, sb_streamId = pk_streamId pkt, sb_streamType = pk_streamType pkt,
      sb_streamParts = pk_parts pkt, sb_bytesReadable = 0, sb_lastActivity = 0\<rparr>"

definition empty_streambuffer :: "'m streambuffer" where
  "empty_streambuffer =
     \<lparr>sb_buffer = None, sb_streamId = 0, sb_streamType = Undefined, sb_streamParts = 0,
      sb_bytesReadable = 0, sb_lastActivity = 0\<rparr>"

definition StreamBuffer_init ::
  "('m, 'z) buf_ext_scheme \<Rightarrow> string \<Rightarrow> 'm streambuffer \<Rightarrow> files \<Rightarrow> ((bool \<times> 'm streambuffer) \<times> files) option" where
  "StreamBuffer_init B filename sb fs =
     (if filename \<noteq> [] then do {
        (buf, fs) \<leftarrow> FileBuffer_create B filename fs;
        let sb = sb\<lparr>sb_buffer := map_option FileB buf\<rparr>;
        Some ((sb_buffer sb \<noteq> None, sb), fs) }
      else
        let sb = sb\<lparr>sb_buffer := map_option MemB (zb_create B (ucast (sb_streamParts sb) * max_packet_body B))\<rparr>
        in Some ((sb_buffer sb \<noteq> None, sb), fs))"

definition StreamBuffer_create ::
  "('m, 'z) buf_ext_scheme \<Rightarrow> string \<Rightarrow> packet_info \<Rightarrow> files \<Rightarrow> ('m streambuffer option \<times> files) option" where
  "StreamBuffer_create B filename pkt fs = do {
     ((ok, buffer), fs) \<leftarrow> StreamBuffer_init B filename (new_streambuffer pkt) fs;
     if \<not> ok then Some (None, fs) else Some (Some buffer, fs)
   }"

definition StreamBuffer_load ::
  "('m, 'z) buf_ext_scheme \<Rightarrow> string \<Rightarrow> 'm streambuffer \<Rightarrow> files \<Rightarrow> ((bool \<times> 'm streambuffer) \<times> files) option" where
  "StreamBuffer_load B filename sb fs = do {
     (buf, fs) \<leftarrow> FileBuffer_open B filename fs;
     case buf of
       None \<Rightarrow> Some ((False, sb), fs)
     | Some fb \<Rightarrow>
         let readable = fb_size fb;
             parts = ucast (readable div max_packet_body B) :: uint32;
             parts = (if readable mod max_packet_body B \<noteq> 0 then parts + 1 else parts)
         in Some ((True, sb\<lparr>sb_bytesReadable := readable, sb_streamType := Resource,
                            sb_streamParts := parts, sb_buffer := Some (FileB fb)\<rparr>), fs)
   }"

definition StreamBuffer_open ::
  "('m, 'z) buf_ext_scheme \<Rightarrow> string \<Rightarrow> uint32 \<Rightarrow> files \<Rightarrow> ('m streambuffer option \<times> files) option" where
  "StreamBuffer_open B filename sid fs =
     (let (pf, fs) = fopen_rb B filename fs in
      case pf of
        None \<Rightarrow> Some (None, fs)
      | Some h \<Rightarrow> do {
          fs \<leftarrow> fclose h fs;
          ((ok, buffer), fs) \<leftarrow> StreamBuffer_load B filename empty_streambuffer fs;
          if \<not> ok then Some (None, fs) else Some (Some (buffer\<lparr>sb_streamId := sid\<rparr>), fs) })"

text \<open>\<open>bytesReadable\<close> returns the 64-bit counter as a 32-bit number.\<close>

definition StreamBuffer_bytesReadable :: "'m streambuffer \<Rightarrow> uint32" where
  "StreamBuffer_bytesReadable sb = ucast (sb_bytesReadable sb)"

definition StreamBuffer_size :: "('m, 'z) buf_ext_scheme \<Rightarrow> 'm streambuffer \<Rightarrow> uint64" where
  "StreamBuffer_size B sb = (case sb_buffer sb of Some b \<Rightarrow> backing_size B b | None \<Rightarrow> 0)"

definition StreamBuffer_read ::
  "('m, 'z) buf_ext_scheme \<Rightarrow> uint64 \<Rightarrow> 'm streambuffer \<Rightarrow> uint64 \<Rightarrow> uint64 \<Rightarrow> files
     \<Rightarrow> (bytes option \<times> 'm streambuffer) option" where
  "StreamBuffer_read B now sb sz offset fs =
     (case sb_buffer sb of
        None \<Rightarrow> Some (None, sb)
      | Some b \<Rightarrow>
          (let br = ucast (StreamBuffer_bytesReadable sb) :: uint64;
               bytesToRead = (if offset < br then (if br - offset > sz then sz else br - offset) else 0)
           in if bytesToRead \<noteq> 0 then do {
                r \<leftarrow> backing_read B b bytesToRead offset fs;
                (case r of
                   None \<Rightarrow> Some (None, sb)
                 | Some data \<Rightarrow> Some (Some data, sb\<lparr>sb_lastActivity := now\<rparr>)) }
              else Some (Some [], sb\<lparr>sb_lastActivity := now\<rparr>)))"

text \<open>\<open>write\<close> ignores its offset argument and appends at the readable end.\<close>

definition StreamBuffer_write ::
  "('m, 'z) buf_ext_scheme \<Rightarrow> uint64 \<Rightarrow> 'm streambuffer \<Rightarrow> bytes \<Rightarrow> uint64 \<Rightarrow> files
     \<Rightarrow> ((uint64 option \<times> 'm streambuffer) \<times> files) option" where
  "StreamBuffer_write B now sb data offset fs =
     (case sb_buffer sb of
        None \<Rightarrow> Some ((None, sb), fs)
      | Some b \<Rightarrow>
          (let br = ucast (StreamBuffer_bytesReadable sb) :: uint64 in do {
             ((r, b), fs) \<leftarrow> backing_write B b data br fs;
             let sb = sb\<lparr>sb_buffer := Some b\<rparr>;
             (case r of
                None \<Rightarrow> Some ((None, sb), fs)
              | Some bw \<Rightarrow> Some ((Some bw, sb\<lparr>sb_bytesReadable := sb_bytesReadable sb + bw,
                                              sb_lastActivity := now\<rparr>), fs)) }))"

definition StreamBuffer_flush :: "'m streambuffer \<Rightarrow> files \<Rightarrow> files option" where
  "StreamBuffer_flush sb fs =
     (case sb_buffer sb of Some (FileB fb) \<Rightarrow> FileBuffer_flush fb fs | _ \<Rightarrow> Some fs)"

section \<open>The contract of an append-only byte store\<close>

text \<open>
  What the users of a buffer rely on: appending extends the content, reading inside the
  content returns that part of it, as long as the content stays below the capacity
  \<open>cap\<close> its counters can express.
\<close>

locale byte_store =
  fixes wr :: "'b \<Rightarrow> bytes \<Rightarrow> 's \<Rightarrow> ((uint64 option \<times> 'b) \<times> 's) option"
    and rd :: "'b \<Rightarrow> uint64 \<Rightarrow> uint64 \<Rightarrow> 's \<Rightarrow> bytes option option"
    and content :: "'b \<Rightarrow> 's \<Rightarrow> bytes"
    and valid :: "'b \<Rightarrow> 's \<Rightarrow> bool"
    and cap :: nat
  assumes appends: "valid b s \<Longrightarrow> data \<noteq> [] \<Longrightarrow> length (content b s) + length data < cap \<Longrightarrow>
      \<exists>b' s'. wr b data s = Some ((Some (of_nat (length data)), b'), s') \<and>
        valid b' s' \<and> content b' s' = content b s @ data"
    and reads: "valid b s \<Longrightarrow> length (content b s) < cap \<Longrightarrow> n \<noteq> 0 \<Longrightarrow>
      unat off + unat n \<le> length (content b s) \<Longrightarrow>
      rd b n off s = Some (Some (take (unat n) (drop (unat off) (content b s))))"
begin

lemma append_all:
  assumes "valid b s" and "\<forall>c \<in> set cs. c \<noteq> []"
    and "length (content b s) + length (concat cs) < cap"
  shows "\<exists>b' s'. for_each cs (\<lambda>c (b, s). map_option (\<lambda>((r, b), s). (b, s)) (wr b c s)) (b, s) = Some (b', s') \<and>
    valid b' s' \<and> content b' s' = content b s @ concat cs"
  using assms
proof (induction cs arbitrary: b s)
  case (Cons c cs)
  then have "length (content b s) + length c < cap" by simp
  then obtain b1 s1 where 1: "wr b c s = Some ((Some (of_nat (length c)), b1), s1)" "valid b1 s1"
    "content b1 s1 = content b s @ c"
    using appends [OF Cons.prems(1), of c] Cons.prems(2) by auto
  then have "\<exists>b' s'. for_each cs (\<lambda>c (b, s). map_option (\<lambda>((r, b), s). (b, s)) (wr b c s)) (b1, s1) = Some (b', s') \<and>
      valid b' s' \<and> content b' s' = content b1 s1 @ concat cs"
    by (intro Cons.IH) (use Cons.prems in auto)
  with 1 show ?case by auto
qed simp

lemma read_back:
  assumes "valid b s" and "length (content b s) < cap"
    and "unat off + unat n \<le> length (content b s)" and "n \<noteq> 0"
  shows "\<exists>data. rd b n off s = Some (Some data) \<and> length data = unat n"
  using reads [OF assms(1,2,4,3)] assms(3) by auto

end

section \<open>A file opened for appending is a byte store\<close>

definition file_content :: "filebuffer \<Rightarrow> files \<Rightarrow> bytes" where
  "file_content fb fs = (case handle fb fs of None \<Rightarrow> [] | Some (path, _) \<Rightarrow> contents fs path)"

definition file_valid :: "('m, 'z) buf_ext_scheme \<Rightarrow> filebuffer \<Rightarrow> files \<Rightarrow> bool" where
  "file_valid B fb fs \<longleftrightarrow>
     (\<exists>path. handle fb fs = Some (path, AppendBinary)) \<and> (\<forall>data. length data \<le> io_written B data)"

lemma sint_nonneg:
  assumes "unat (w :: uint64) < 2 ^ 63"
  shows "\<not> sint w < 0"
proof -
  have "int (unat w) < int (2 ^ 63)"
    using assms by (simp only: of_nat_less_iff)
  then have "uint w < 2 ^ 63" by simp
  then have "uint w = take_bit 63 (uint w)"
    by (intro take_bit_int_eq_self [symmetric]) simp_all
  then have "\<not> bit (uint w) 63"
    by (metis bit_take_bit_iff less_irrefl)
  then show ?thesis
    by (simp add: sint_uint not_less)
qed

lemma FileBuffer_read_slice:
  assumes "handle fb fs = Some (path, mode)" and "length (contents fs path) < 2 ^ 63"
    and "n \<noteq> 0" and "unat off + unat n \<le> length (contents fs path)"
  shows "FileBuffer_read fb n off fs = Some (Some (take (unat n) (drop (unat off) (contents fs path))))"
proof -
  have "\<not> sint off < 0" using assms(2,4) by (intro sint_nonneg) simp
  moreover have "length (take (unat n) (drop (unat off) (contents fs path))) = unat n"
    using assms(4) by simp
  ultimately show ?thesis using assms by (simp add: FileBuffer_read_def)
qed

interpretation file_store: byte_store
  "\<lambda>fb data fs. map_option (\<lambda>(r, fs). ((r, fb), fs)) (FileBuffer_write B fb data off fs)"
  FileBuffer_read file_content "\<lambda>fb fs. file_valid B fb fs \<and> \<not> sint off < 0" "2 ^ 63" for B off
proof
  fix fb fs and data :: bytes
  assume v: "file_valid B fb fs \<and> \<not> sint off < 0" and "data \<noteq> []"
  then obtain path where "handle fb fs = Some (path, AppendBinary)" "\<not> io_written B data < length data"
    by (auto simp: file_valid_def not_less)
  with v \<open>data \<noteq> []\<close>
  show "\<exists>b' s'. map_option (\<lambda>(r, fs). ((r, fb), fs)) (FileBuffer_write B fb data off fs) =
      Some ((Some (of_nat (length data)), b'), s') \<and>
      (file_valid B b' s' \<and> \<not> sint off < 0) \<and> file_content b' s' = file_content fb fs @ data"
    by (auto simp: FileBuffer_write_def file_valid_def file_content_def handle_def contents_def
        split: option.splits)
next
  fix fb fs and n o1 :: uint64
  assume r: "file_valid B fb fs \<and> \<not> sint off < 0" "length (file_content fb fs) < 2 ^ 63" "n \<noteq> 0"
    "unat o1 + unat n \<le> length (file_content fb fs)"
  then obtain path where p: "handle fb fs = Some (path, AppendBinary)"
    by (auto simp: file_valid_def)
  then have "file_content fb fs = contents fs path"
    by (simp add: file_content_def)
  with r p show "FileBuffer_read fb n o1 fs = Some (Some (take (unat n) (drop (unat o1) (file_content fb fs))))"
    using FileBuffer_read_slice [OF p] by simp
qed


section \<open>A stream buffer on such a file is a byte store\<close>

definition stream_content :: "'m streambuffer \<Rightarrow> files \<Rightarrow> bytes" where
  "stream_content sb fs =
     (case sb_buffer sb of Some (FileB fb) \<Rightarrow> file_content fb fs | _ \<Rightarrow> [])"

definition stream_valid :: "('m, 'z) buf_ext_scheme \<Rightarrow> 'm streambuffer \<Rightarrow> files \<Rightarrow> bool" where
  "stream_valid B sb fs \<longleftrightarrow>
     (\<exists>fb. sb_buffer sb = Some (FileB fb) \<and> handle fb fs \<noteq> None) \<and>
     unat (sb_bytesReadable sb) = length (stream_content sb fs)"

lemma readable_exact:
  assumes "stream_valid B sb fs" and "length (stream_content sb fs) < 2 ^ 32"
  shows "unat (ucast (StreamBuffer_bytesReadable sb) :: uint64) = length (stream_content sb fs)"
  using assms by (simp add: stream_valid_def StreamBuffer_bytesReadable_def unsigned_ucast_eq
      take_bit_eq_mod unat_mod_distrib)

text \<open>
  A read delivers the bytes of the requested range that exist, and fewer (possibly none)
  where the range reaches beyond the end.
\<close>

lemma StreamBuffer_read_clip:
  assumes valid: "stream_valid B sb fs" and small: "length (stream_content sb fs) < 2 ^ 32"
  shows "StreamBuffer_read B now sb sz off fs =
    Some (Some (take (unat sz) (drop (unat off) (stream_content sb fs))), sb\<lparr>sb_lastActivity := now\<rparr>)"
proof -
  obtain fb path mode where fb: "sb_buffer sb = Some (FileB fb)" "handle fb fs = Some (path, mode)"
    using valid by (auto simp: stream_valid_def)
  then have c: "stream_content sb fs = contents fs path"
    by (simp add: stream_content_def file_content_def)
  let ?br = "ucast (StreamBuffer_bytesReadable sb) :: uint64"
  let ?n = "if off < ?br then (if ?br - off > sz then sz else ?br - off) else 0"
  have br: "unat ?br = length (contents fs path)"
    using readable_exact [OF assms] c by simp
  have n: "unat ?n = min (unat sz) (length (contents fs path) - unat off)"
    using br by (auto simp: word_less_nat_alt unat_sub_if_size min_def)
  have slice: "take (unat ?n) (drop (unat off) (contents fs path)) =
      take (unat sz) (drop (unat off) (contents fs path))"
    unfolding n by (simp add: min_def)
  show ?thesis
  proof (cases "?n = 0")
    case True
    then have "take (unat sz) (drop (unat off) (contents fs path)) = []"
      using slice by simp
    with True fb c show ?thesis by (simp add: StreamBuffer_read_def Let_def)
  next
    case False
    then have "unat ?n \<noteq> 0" by (simp only: unsigned_eq_0_iff not_False_eq_True)
    then have "unat off + unat ?n \<le> length (contents fs path)"
      unfolding n by (auto simp: min_def split: if_splits)
    with False have "FileBuffer_read fb ?n off fs = Some (Some (take (unat ?n) (drop (unat off) (contents fs path))))"
      using small c by (intro FileBuffer_read_slice [OF fb(2)]) simp_all
    with False fb(1) c slice show ?thesis by (simp add: StreamBuffer_read_def Let_def)
  qed
qed



definition stream_writable :: "('m, 'z) buf_ext_scheme \<Rightarrow> 'm streambuffer \<Rightarrow> files \<Rightarrow> bool" where
  "stream_writable B sb fs \<longleftrightarrow>
     stream_valid B sb fs \<and> (\<exists>fb. sb_buffer sb = Some (FileB fb) \<and> file_valid B fb fs)"

lemma StreamBuffer_write_appends:
  assumes "stream_writable B sb fs" and "data \<noteq> []"
    and small: "length (stream_content sb fs) + length data < 2 ^ 32"
  shows "\<exists>sb' fs'. StreamBuffer_write B now sb data off fs = Some ((Some (of_nat (length data)), sb'), fs') \<and>
    stream_writable B sb' fs' \<and> stream_content sb' fs' = stream_content sb fs @ data"
proof -
  obtain fb where fb: "sb_buffer sb = Some (FileB fb)" "file_valid B fb fs" and v: "stream_valid B sb fs"
    using assms(1) by (auto simp: stream_writable_def)
  let ?br = "ucast (StreamBuffer_bytesReadable sb) :: uint64"
  have c: "stream_content sb fs = file_content fb fs"
    using fb(1) by (simp add: stream_content_def)
  have "unat ?br < 2 ^ 63"
    using readable_exact [OF v] small by simp
  then have "\<not> sint ?br < 0" by (rule sint_nonneg)
  then obtain fb' fs' where w: "map_option (\<lambda>(r, fs). ((r, fb), fs)) (FileBuffer_write B fb data ?br fs) =
      Some ((Some (of_nat (length data)), fb'), fs')" "file_valid B fb' fs'"
      "file_content fb' fs' = file_content fb fs @ data"
    using file_store.appends [of B fb fs ?br data] fb(2) assms(2) small c by auto
  then have w': "FileBuffer_write B fb data ?br fs = Some (Some (of_nat (length data)), fs')" "fb' = fb"
    by auto
  let ?sb = "sb\<lparr>sb_buffer := Some (FileB fb), sb_bytesReadable := sb_bytesReadable sb + of_nat (length data),
      sb_lastActivity := now\<rparr>"
  have "unat (sb_bytesReadable ?sb) = length (file_content fb fs @ data)"
    using v small c by (simp add: stream_valid_def unat_word_ariths unsigned_of_nat take_bit_eq_mod)
  then have "stream_writable B ?sb fs'"
    using w w' by (auto simp: stream_writable_def stream_valid_def stream_content_def file_valid_def)
  moreover have "StreamBuffer_write B now sb data off fs = Some ((Some (of_nat (length data)), ?sb), fs')"
    using fb(1) w'(1) by (simp add: StreamBuffer_write_def Let_def)
  ultimately show ?thesis
    using w w' c by (auto simp: stream_content_def)
qed

interpretation stream: byte_store
  "\<lambda>sb data fs. StreamBuffer_write B now sb data off fs"
  "\<lambda>sb n o1 fs. map_option fst (StreamBuffer_read B now sb n o1 fs)"
  stream_content "stream_writable B" "2 ^ 32" for B now off
proof
  fix sb :: "'a streambuffer" and fs and data :: bytes
  assume "stream_writable B sb fs" "data \<noteq> []" "length (stream_content sb fs) + length data < 2 ^ 32"
  then show "\<exists>b' s'. StreamBuffer_write B now sb data off fs = Some ((Some (of_nat (length data)), b'), s') \<and>
      stream_writable B b' s' \<and> stream_content b' s' = stream_content sb fs @ data"
    by (rule StreamBuffer_write_appends)
next
  fix sb :: "'a streambuffer" and fs and n o1 :: uint64
  assume "stream_writable B sb fs" "length (stream_content sb fs) < 2 ^ 32"
  then show "map_option fst (StreamBuffer_read B now sb n o1 fs) =
      Some (Some (take (unat n) (drop (unat o1) (stream_content sb fs))))"
    using StreamBuffer_read_clip [of B sb fs] by (auto simp: stream_writable_def)
qed

section \<open>Properties\<close>

text \<open>The upload of a resource: one write per received packet body.\<close>

definition upload ::
  "('m, 'z) buf_ext_scheme \<Rightarrow> uint64 \<Rightarrow> bytes list \<Rightarrow> 'm streambuffer \<Rightarrow> files \<Rightarrow> ('m streambuffer \<times> files) option" where
  "upload B now chunks sb fs =
     for_each chunks (\<lambda>c (sb, fs). map_option (\<lambda>((r, sb), fs). (sb, fs)) (StreamBuffer_write B now sb c 0 fs)) (sb, fs)"

lemma StreamBuffer_create_fresh:
  assumes "filename \<noteq> []" and "f_disk fs filename = None" and "io_open B filename AppendBinary"
    and "\<forall>data. length data \<le> io_written B data"
  shows "\<exists>sb fs'. StreamBuffer_create B filename pkt fs = Some (Some sb, fs') \<and>
    stream_writable B sb fs' \<and> stream_content sb fs' = [] \<and>
    sb_streamId sb = pk_streamId pkt \<and> sb_lastActivity sb = 0 \<and>
    (\<exists>fb. sb_buffer sb = Some (FileB fb) \<and> handle fb fs' = Some (filename, AppendBinary))"
  using assms
  by (auto simp: StreamBuffer_create_def StreamBuffer_init_def FileBuffer_create_def FileBuffer_init_def
      fopen_rb_def fopen_ab_def new_handle_def new_streambuffer_def new_filebuffer_def contents_def
      stream_writable_def stream_valid_def stream_content_def file_valid_def file_content_def handle_def Let_def)

text \<open>
  C27. A resource uploaded in any number of packets to a new stream buffer can be read
  back: every read delivers exactly the requested range of the concatenated packet bodies,
  clipped at the end of the data (for resources below 4 GiB, on a device that takes all
  the bytes).
\<close>

theorem upload_then_read:
  assumes "filename \<noteq> []" and "f_disk fs filename = None" and "io_open B filename AppendBinary"
    and "\<forall>data. length data \<le> io_written B data"
    and "\<forall>c \<in> set chunks. c \<noteq> []" and "length (concat chunks) < 2 ^ 32"
  shows "\<exists>sb fs1 sb' fs2. StreamBuffer_create B filename pkt fs = Some (Some sb, fs1) \<and>
    upload B now chunks sb fs1 = Some (sb', fs2) \<and>
    (\<forall>sz off t. map_option fst (StreamBuffer_read B t sb' sz off fs2) =
       Some (Some (take (unat sz) (drop (unat off) (concat chunks)))))"
proof -
  obtain sb fs1 where 1: "StreamBuffer_create B filename pkt fs = Some (Some sb, fs1)"
    "stream_writable B sb fs1" "stream_content sb fs1 = []"
    using StreamBuffer_create_fresh [OF assms(1-4)] by blast
  then obtain sb' fs2 where 2: "upload B now chunks sb fs1 = Some (sb', fs2)"
    "stream_writable B sb' fs2" "stream_content sb' fs2 = concat chunks"
    using stream.append_all [OF 1(2) assms(5), of now 0] assms(6) unfolding upload_def by auto
  moreover have "map_option fst (StreamBuffer_read B t sb' sz off fs2) =
      Some (Some (take (unat sz) (drop (unat off) (concat chunks))))" for sz off t
    using StreamBuffer_read_clip [of B sb' fs2 t sz off] 2 assms(6) by (simp add: stream_writable_def)
  ultimately show ?thesis using 1(1) by blast
qed

text \<open>
  C40. Creating a stream buffer for a file that already exists closes the same file handle
  twice (once in \<open>FileBuffer::init\<close>, once more in the destructor of the half-built
  buffer), which is undefined behaviour: there is no normal outcome.
\<close>

theorem create_on_existing_file_double_close:
  assumes "filename \<noteq> []" and "f_disk fs filename \<noteq> None" and "io_open B filename ReadBinary"
  shows "StreamBuffer_create B filename pkt fs = None"
proof -
  obtain bs where "f_disk fs filename = Some bs" using assms(2) by blast
  then show ?thesis
    using assms(1,3)
    by (simp add: StreamBuffer_create_def StreamBuffer_init_def FileBuffer_create_def
        FileBuffer_init_def fopen_rb_def new_handle_def fclose_def FileBuffer_release_def)
qed

text \<open>
  \<open>bytesReadable\<close> returns the 64-bit byte count as a 32-bit number: a buffer that
  holds exactly 4 GiB reports nothing to read, and every read of it succeeds with no data.
\<close>

theorem read_of_4GiB_is_empty:
  assumes "sb_buffer sb = Some b" and "sb_bytesReadable sb = 2 ^ 32"
  shows "StreamBuffer_bytesReadable sb = 0 \<and>
    StreamBuffer_read B now sb sz off fs = Some (Some [], sb\<lparr>sb_lastActivity := now\<rparr>)"
proof -
  have "StreamBuffer_bytesReadable sb = 0"
    using assms(2) by (simp add: StreamBuffer_bytesReadable_def)
  then show ?thesis using assms(1) by (simp add: StreamBuffer_read_def)
qed



text \<open>The number of packets a stored file is sent in: its size divided by the packet payload, rounded up.\<close>

lemma ceil_div_unat:
  fixes n k :: uint64
  assumes "k \<noteq> 0" and "unat n div unat k + 1 < 2 ^ 32"
  shows "unat (if n mod k \<noteq> 0 then ucast (n div k) + 1 else ucast (n div k) :: uint32) =
    unat n div unat k + (if unat n mod unat k = 0 then 0 else 1)"
proof -
  have m: "n mod k = 0 \<longleftrightarrow> unat n mod unat k = 0"
    by (metis unat_mod_distrib unsigned_eq_0_iff)
  have q: "unat (ucast (n div k) :: uint32) = unat n div unat k"
    using assms(2) by (simp add: unsigned_ucast_eq take_bit_eq_mod unat_mod_distrib unat_div_distrib)
  then have "unat (ucast (n div k) + 1 :: uint32) = unat n div unat k + 1"
    using assms(2) by (simp add: unat_word_ariths)
  with m q show ?thesis by simp
qed

text \<open>
  C28. Reopening a stored resource by its id gives a buffer over the whole file: it is a
  resource stream with that id, its byte count is the file's size, reads deliver the
  file's contents, and its number of parts is the size divided by the packet payload
  rounded up.
\<close>

theorem reopen_stored_resource:
  assumes "f_disk fs filename = Some bs" and "io_open B filename ReadBinary"
    and "length bs < 2 ^ 32" and "max_packet_body B \<noteq> 0"
    and "length bs div unat (max_packet_body B) + 1 < 2 ^ 32"
  shows "\<exists>sb fs'. StreamBuffer_open B filename sid fs = Some (Some sb, fs') \<and>
    sb_streamId sb = sid \<and> sb_streamType sb = Resource \<and> StreamBuffer_size B sb = of_nat (length bs) \<and>
    (\<forall>sz off t. map_option fst (StreamBuffer_read B t sb sz off fs') =
       Some (Some (take (unat sz) (drop (unat off) bs)))) \<and>
    unat (sb_streamParts sb) = length bs div unat (max_packet_body B) +
      (if length bs mod unat (max_packet_body B) = 0 then 0 else 1)"
proof -
  let ?n = "of_nat (length bs) :: uint64" and ?k = "max_packet_body B"
  let ?parts = "if ?n mod ?k \<noteq> 0 then ucast (?n div ?k) + 1 else ucast (?n div ?k) :: uint32"
  let ?h = "Suc (f_next fs)"
  let ?fb = "\<lparr>fb_fh = Some ?h, fb_size = ?n\<rparr>"
  let ?sb = "\<lparr>sb_buffer = Some (FileB ?fb), sb_streamId = sid, sb_streamType = Resource,
    sb_streamParts = ?parts, sb_bytesReadable = ?n, sb_lastActivity = 0\<rparr> :: 'a streambuffer"
  let ?fs = "fs\<lparr>f_handles := (f_handles fs)(f_next fs := None, ?h \<mapsto> (filename, ReadBinary)), f_next := Suc ?h\<rparr>"
  have n: "unat ?n = length bs"
    using assms(3) by (simp add: unsigned_of_nat take_bit_eq_mod)
  have "StreamBuffer_open B filename sid fs = Some (Some ?sb, ?fs)"
    using assms(1,2)
    by (simp add: StreamBuffer_open_def StreamBuffer_load_def FileBuffer_open_def FileBuffer_load_def
        fopen_rb_def new_handle_def fclose_def empty_streambuffer_def new_filebuffer_def contents_def Let_def)
  moreover have "stream_valid B ?sb ?fs" and "stream_content ?sb ?fs = bs"
    using assms(1) n
    by (simp_all add: stream_valid_def stream_content_def file_content_def handle_def contents_def)
  then have "map_option fst (StreamBuffer_read B t ?sb sz off ?fs) =
      Some (Some (take (unat sz) (drop (unat off) bs)))" for sz off t
    using StreamBuffer_read_clip [of B ?sb ?fs t sz off] assms(3) by simp
  moreover have "unat ?parts = length bs div unat ?k + (if length bs mod unat ?k = 0 then 0 else 1)"
    using ceil_div_unat [of ?k ?n] assms(4,5) n by simp
  ultimately show ?thesis
    by (intro exI [of _ ?sb] exI [of _ ?fs]) (simp add: StreamBuffer_size_def)
qed

section \<open>Witnesses\<close>

definition ex_buf :: "bytes buf_ext" where
  "ex_buf = \<lparr>io_open = (\<lambda>_ _. True), io_written = length, zb_create = (\<lambda>n. Some (replicate (unat n) 0)),
     zb_read = (\<lambda>m n off. Some (take (unat n) (drop (unat off) m))),
     zb_write = (\<lambda>m data off. Some (take (unat off) m @ data)),
     zb_size = (\<lambda>m. of_nat (length m)), zb_initialSize = 0, max_packet_body = 4\<rparr>"

definition ex_files :: files where
  "ex_files = \<lparr>f_disk = (\<lambda>_. None)(''tmp/5'' \<mapsto> [1, 2, 3, 4, 5, 6]), f_handles = (\<lambda>_. None), f_next = 0\<rparr>"

definition ex_pkt :: packet_info where
  "ex_pkt = \<lparr>pk_streamId = 6, pk_streamType = Resource, pk_parts = 2\<rparr>"

theorem upload_then_read_witness:
  "\<exists>sb fs1 sb' fs2. StreamBuffer_create ex_buf ''tmp/6'' ex_pkt ex_files = Some (Some sb, fs1) \<and>
    upload ex_buf 77 [[1, 2], [3, 4, 5]] sb fs1 = Some (sb', fs2) \<and>
    map_option fst (StreamBuffer_read ex_buf 78 sb' 3 1 fs2) = Some (Some [2, 3, 4])"
  using upload_then_read [of "''tmp/6''" ex_files ex_buf "[[1, 2], [3, 4, 5]]" ex_pkt 77]
  by (fastforce simp: ex_files_def ex_buf_def)

theorem create_on_existing_file_double_close_witness:
  "f_disk ex_files ''tmp/5'' \<noteq> None \<and> StreamBuffer_create ex_buf ''tmp/5'' ex_pkt ex_files = None"
  using create_on_existing_file_double_close [of "''tmp/5''" ex_files ex_buf ex_pkt]
  by (simp add: ex_files_def ex_buf_def)

theorem read_of_4GiB_is_empty_witness:
  "StreamBuffer_read ex_buf 9 ((new_streambuffer ex_pkt)\<lparr>sb_buffer := Some (MemB []), sb_bytesReadable := 2 ^ 32\<rparr>)
     10 0 ex_files = Some (Some [], (new_streambuffer ex_pkt)\<lparr>sb_buffer := Some (MemB []),
        sb_bytesReadable := 2 ^ 32, sb_lastActivity := 9\<rparr>)"
  using read_of_4GiB_is_empty [of "(new_streambuffer ex_pkt)\<lparr>sb_buffer := Some (MemB []), sb_bytesReadable := 2 ^ 32\<rparr>"
      "MemB []" ex_buf 9 10 0 ex_files]
  by simp

theorem reopen_stored_resource_witness:
  "\<exists>sb fs'. StreamBuffer_open ex_buf ''tmp/5'' 5 ex_files = Some (Some sb, fs') \<and> sb_streamId sb = 5 \<and>
    map_option fst (StreamBuffer_read ex_buf 78 sb 4 4 fs') = Some (Some [5, 6]) \<and> unat (sb_streamParts sb) = 2"
  using reopen_stored_resource [of ex_files "''tmp/5''" "[1, 2, 3, 4, 5, 6]" ex_buf 5]
  by (fastforce simp: ex_files_def ex_buf_def)

end
