(* ===== verification/World.thy ===== *)
theory World
  imports Pool Stream_Buffer
begin

text \<open>
  The state the server's components share. A \<open>ClientSession\<close> (src/include/session.h) is a
  record in a heap of session objects, addressed by a number that stands for its shared
  pointer; the members of \<open>Server\<close> (src/include/server.h) are fields of the record
  \<open>world\<close>, together with the database, the files, and the effects that leave the process
  (tasks posted to the \<open>io_service\<close>, cloud messages). The helpers update one session,
  record a call on its engine, or run a database method.
\<close>

section \<open>Sessions\<close>

abbreviation STATUS_DISCONNECTED :: uint32 where "STATUS_DISCONNECTED \<equiv> 0"
abbreviation STATUS_CONNECTED :: uint32 where "STATUS_CONNECTED \<equiv> 1"
abbreviation STATUS_LOGGEDIN :: uint32 where "STATUS_LOGGEDIN \<equiv> 2"

text \<open>
  A packet: the head fields the sources read and the body. The asynchronous operations a
  session starts on its socket, with the arguments that determine their effect.
\<close>

record packet = packet_info +
  pk_bodySize :: uint32
  pk_body :: "bytes option"

datatype io_op = AsyncHandshake | AsyncWrite packet | AsyncReadHead | AsyncReadBody packet nat nat

text \<open>
  The members of a session. The base class \<open>Zway::Engine\<close> appears as the list of calls
  made on it; \<open>s_open\<close> says whether the socket is open, \<open>s_timer\<close> whether the heartbeat
  timer runs, and \<open>s_io\<close> lists the operations started on the socket, in order.
\<close>

record session =
  s_status :: uint32
  s_remoteHost :: string
  s_accountId :: uint32
  s_contacts :: "(uint32, ubj) std_map"
  s_config :: ubj
  s_engine :: "engine_call list"
  s_open :: bool
  s_timer :: bool
  s_numPacketsSent :: uint32
  s_numPacketsRecv :: uint32
  s_sending :: bool
  s_packetQueue :: "packet list"
  s_io :: "io_op list"

definition new_session :: session where
  "new_session = \<lparr>s_status = 0, s_remoteHost = [], s_accountId = 0, s_contacts = [],
     s_config = UObject [], s_engine = [], s_open = True, s_timer = False,
     s_numPacketsSent = 0, s_numPacketsRecv = 0, s_sending = False, s_packetQueue = [], s_io = []\<rparr>"

text \<open>
  A \<open>StreamBufferSender\<close> (src/include/streambuffersender.h): its session, the id of the
  stream it sends and, once found, the stream buffer and the description taken from it.
\<close>

record bsender =
  bs_id :: uint32
  bs_session :: nat
  bs_buffer :: "nat option"
  bs_type :: stream_type
  bs_size :: uint64
  bs_parts :: uint32

section \<open>The server\<close>

record ('db, 'm) world =
  w_dbs :: "'db db_state"
  w_heap :: "nat \<Rightarrow> session"
  m_sessions :: "(uint32, nat list) std_map"
  m_numSessions :: uint32
  m_paused :: bool
  w_files :: files
  w_sbufs :: "nat \<Rightarrow> 'm streambuffer"
  w_nextbuf :: nat
  m_buffers :: "(uint32, nat) std_map"
  w_bsenders :: "nat \<Rightarrow> bsender"
  w_nextsender :: nat
  m_senders :: "nat list"
  w_posted :: "uint32 list"
  w_fcm :: "(string \<times> uint32 \<times> uint32) list"
  w_rand :: nat

text \<open>
  The external parameters together with those of the stream buffers and senders: the
  result of \<open>Zway::StreamSender::init\<close>, of \<open>Zway::Engine::addStreamSender\<close>, whether a
  sender's status is \<open>Completed\<close>, an empty packet and the size of a packet head. \<open>Zway::Engine::processStreamSenders\<close> hands over packets of
  the session's senders; preparing them, it calls back into the server (for stream buffers).
\<close>

record ('db, 'm) env = "'db ext" +
  e_buf :: "'m buf_ext"
  z_senderInit :: "uint32 \<Rightarrow> bool"
  z_addSender :: "engine_call list \<Rightarrow> nat \<Rightarrow> bool"
  z_completed :: "nat \<Rightarrow> bool"
  z_packetCreate :: "packet option"
  z_headSize :: nat
  z_processStreamSenders :: "nat \<Rightarrow> ('db, 'm) world \<Rightarrow> (packet list \<times> ('db, 'm) world) option"

definition upd_sess :: "nat \<Rightarrow> (session \<Rightarrow> session) \<Rightarrow> ('db, 'm) world \<Rightarrow> ('db, 'm) world" where
  "upd_sess sid f w = w\<lparr>w_heap := (w_heap w)(sid := f (w_heap w sid))\<rparr>"

definition engine :: "nat \<Rightarrow> engine_call \<Rightarrow> ('db, 'm) world \<Rightarrow> ('db, 'm) world" where
  "engine sid c = upd_sess sid (\<lambda>s. s\<lparr>s_engine := s_engine s @ [c]\<rparr>)"

abbreviation postRequestSuccess :: "nat \<Rightarrow> uint32 \<Rightarrow> ubj \<Rightarrow> ('db, 'm) world \<Rightarrow> ('db, 'm) world" where
  "postRequestSuccess sid rid obj \<equiv> engine sid (PostRequestSuccess rid obj)"

abbreviation postRequestFailure ::
  "nat \<Rightarrow> uint32 \<Rightarrow> uint32 \<Rightarrow> string \<Rightarrow> ('db, 'm) world \<Rightarrow> ('db, 'm) world" where
  "postRequestFailure sid rid code msg \<equiv> engine sid (PostRequestFailure rid code msg)"

definition async :: "nat \<Rightarrow> io_op \<Rightarrow> ('db, 'm) world \<Rightarrow> ('db, 'm) world" where
  "async sid oper = upd_sess sid (\<lambda>s. s\<lparr>s_io := s_io s @ [oper]\<rparr>)"

abbreviation io :: "nat \<Rightarrow> ('db, 'm) world \<Rightarrow> io_op list" where
  "io sid w \<equiv> s_io (w_heap w sid)"

definition onDb ::
  "('db db_state \<Rightarrow> ('a \<times> 'db db_state) option) \<Rightarrow> ('db, 'm) world \<Rightarrow> ('a \<times> ('db, 'm) world) option" where
  "onDb op1 w = do { (r, d) \<leftarrow> op1 (w_dbs w); Some (r, w\<lparr>w_dbs := d\<rparr>) }"

text \<open>\<open>RAND_pseudo_bytes\<close> into a 32-bit variable.\<close>

definition next_rand :: "('db, 'z) ext_scheme \<Rightarrow> ('db, 'm) world \<Rightarrow> uint32 \<times> ('db, 'm) world" where
  "next_rand X w = (rand_u32 X (w_rand w), w\<lparr>w_rand := Suc (w_rand w)\<rparr>)"

definition next_rand_bytes :: "('db, 'z) ext_scheme \<Rightarrow> nat \<Rightarrow> ('db, 'm) world \<Rightarrow> bytes \<times> ('db, 'm) world" where
  "next_rand_bytes X n w = (rand_bytes X (w_rand w) n, w\<lparr>w_rand := Suc (w_rand w)\<rparr>)"

text \<open>\<open>io_service()->post(boost::bind(&Server::processUserRequests, m_server, userId))\<close>\<close>

definition post_task :: "uint32 \<Rightarrow> ('db, 'm) world \<Rightarrow> ('db, 'm) world" where
  "post_task uid w = w\<lparr>w_posted := w_posted w @ [uid]\<rparr>"

abbreviation status :: "nat \<Rightarrow> ('db, 'm) world \<Rightarrow> uint32" where
  "status sid w \<equiv> s_status (w_heap w sid)"

abbreviation accountId :: "nat \<Rightarrow> ('db, 'm) world \<Rightarrow> uint32" where
  "accountId sid w \<equiv> s_accountId (w_heap w sid)"

abbreviation calls :: "nat \<Rightarrow> ('db, 'm) world \<Rightarrow> engine_call list" where
  "calls sid w \<equiv> s_engine (w_heap w sid)"

abbreviation mongo :: "('db, 'm) world \<Rightarrow> 'db" where
  "mongo w \<equiv> db_mongo (w_dbs w)"

abbreviation db_ready :: "('db, 'm) world \<Rightarrow> bool" where
  "db_ready w \<equiv> m_connections (w_dbs w) \<noteq> []"

section \<open>Frame lemmas\<close>

lemma upd_sess_simps [simp]:
  "w_heap (upd_sess sid f w) = (w_heap w)(sid := f (w_heap w sid))"
  "w_dbs (upd_sess sid f w) = w_dbs w"
  "m_sessions (upd_sess sid f w) = m_sessions w"
  "m_buffers (upd_sess sid f w) = m_buffers w"
  "m_senders (upd_sess sid f w) = m_senders w"
  "w_sbufs (upd_sess sid f w) = w_sbufs w"
  "w_files (upd_sess sid f w) = w_files w"
  "w_posted (upd_sess sid f w) = w_posted w"
  "w_fcm (upd_sess sid f w) = w_fcm w"
  "w_rand (upd_sess sid f w) = w_rand w"
  by (simp_all add: upd_sess_def)

lemma engine_simps [simp]:
  "w_heap (engine sid c w) = (w_heap w)(sid := (w_heap w sid)\<lparr>s_engine := s_engine (w_heap w sid) @ [c]\<rparr>)"
  "w_dbs (engine sid c w) = w_dbs w"
  "m_sessions (engine sid c w) = m_sessions w"
  "m_buffers (engine sid c w) = m_buffers w"
  "m_senders (engine sid c w) = m_senders w"
  "w_sbufs (engine sid c w) = w_sbufs w"
  "w_files (engine sid c w) = w_files w"
  "w_posted (engine sid c w) = w_posted w"
  "w_fcm (engine sid c w) = w_fcm w"
  "w_rand (engine sid c w) = w_rand w"
  by (simp_all add: engine_def)

lemma async_simps [simp]:
  "w_heap (async sid c w) = (w_heap w)(sid := (w_heap w sid)\<lparr>s_io := s_io (w_heap w sid) @ [c]\<rparr>)"
  "w_dbs (async sid c w) = w_dbs w"
  "m_sessions (async sid c w) = m_sessions w"
  "m_buffers (async sid c w) = m_buffers w"
  "m_senders (async sid c w) = m_senders w"
  "w_sbufs (async sid c w) = w_sbufs w"
  "w_files (async sid c w) = w_files w"
  "w_posted (async sid c w) = w_posted w"
  "w_fcm (async sid c w) = w_fcm w"
  "w_rand (async sid c w) = w_rand w"
  by (simp_all add: async_def)

lemma post_task_simps [simp]:
  "w_heap (post_task u w) = w_heap w" "w_dbs (post_task u w) = w_dbs w"
  "m_sessions (post_task u w) = m_sessions w" "m_buffers (post_task u w) = m_buffers w"
  "m_senders (post_task u w) = m_senders w" "w_sbufs (post_task u w) = w_sbufs w"
  "w_files (post_task u w) = w_files w" "w_posted (post_task u w) = w_posted w @ [u]"
  "w_fcm (post_task u w) = w_fcm w" "w_rand (post_task u w) = w_rand w"
  by (simp_all add: post_task_def)

lemma onDb_Some:
  "onDb op1 w = Some (r, w') \<longleftrightarrow> (\<exists>d. op1 (w_dbs w) = Some (r, d) \<and> w' = w\<lparr>w_dbs := d\<rparr>)"
  by (auto simp: onDb_def bind_pair)

lemma onDb_eqI: "op1 (w_dbs w) = Some (r, d) \<Longrightarrow> onDb op1 w = Some (r, w\<lparr>w_dbs := d\<rparr>)"
  by (simp add: onDb_def)

end
