(* ===== verification/Registry.thy ===== *)
theory Registry
  imports World
begin

text \<open>
  The session registry of src/src/server.cpp: the map from account ids to the lists of
  sessions of that account (\<open>appendSession\<close>, \<open>removeSession\<close>, \<open>removeSessions\<close>,
  \<open>getSessions\<close>, \<open>getSessionCount\<close>), and the operations of src/src/session.cpp that enter
  and leave it (\<open>create\<close>, \<open>start\<close>, \<open>close\<close>, \<open>setStatus\<close>). The invariant says that every
  registered session is listed once, under its own account id, and that no empty list is
  kept; the contract \<open>session_directory\<close> is what the request handlers rely on.
\<close>

section \<open>Operations\<close>

definition Server_getSessions :: "uint32 \<Rightarrow> ('db, 'm) world \<Rightarrow> nat list" where
  "Server_getSessions userId w =
     (case sm_find (m_sessions w) userId of Some l \<Rightarrow> l | None \<Rightarrow> [])"

definition Server_appendSession :: "nat \<Rightarrow> ('db, 'm) world \<Rightarrow> ('db, 'm) world" where
  "Server_appendSession sid w =
     (let a = accountId sid w;
          l = (case sm_find (m_sessions w) a of Some l \<Rightarrow> l | None \<Rightarrow> [])
      in w\<lparr>m_sessions := sm_put a (l @ [sid]) (m_sessions w)\<rparr>)"

definition Server_removeSession :: "nat \<Rightarrow> ('db, 'm) world \<Rightarrow> ('db, 'm) world" where
  "Server_removeSession sid w =
     (let a = accountId sid w in
      case sm_find (m_sessions w) a of
        None \<Rightarrow> w
      | Some sm \<Rightarrow>
          (let sm = list_remove sid sm in
           if sm = [] then w\<lparr>m_sessions := sm_erase a (m_sessions w)\<rparr>
           else w\<lparr>m_sessions := sm_put a sm (m_sessions w)\<rparr>))"

definition Server_getSessionCount :: "('db, 'm) world \<Rightarrow> nat" where
  "Server_getSessionCount w = length (m_sessions w)"

definition setStatus :: "nat \<Rightarrow> uint32 \<Rightarrow> ('db, 'm) world \<Rightarrow> ('db, 'm) world" where
  "setStatus sid st = upd_sess sid (\<lambda>s. s\<lparr>s_status := st\<rparr>)"

text \<open>
  \<open>close\<close>: the timer is cancelled and the socket closed whatever the error codes say; the
  shutdown asked for by \<open>shutdown\<close> precedes the closing and leaves no trace in the state.
\<close>

definition close :: "nat \<Rightarrow> bool \<Rightarrow> bool \<Rightarrow> ('db, 'm) world \<Rightarrow> ('db, 'm) world" where
  "close sid shutdown remove w =
     (let w = upd_sess sid (\<lambda>s. s\<lparr>s_timer := False\<rparr>) w;
          w = upd_sess sid (\<lambda>s. s\<lparr>s_open := False\<rparr>) w;
          w = setStatus sid STATUS_DISCONNECTED w
      in if remove then Server_removeSession sid w else w)"

definition Server_removeSessions :: "('db, 'm) world \<Rightarrow> ('db, 'm) world" where
  "Server_removeSessions w =
     (if m_sessions w \<noteq> [] then
        (let w = fold (\<lambda>(a, l) w. fold (\<lambda>s w. close s False False w) l w) (m_sessions w) w
         in w\<lparr>m_sessions := []\<rparr>)
      else w)"

text \<open>\<open>start\<close>: a random temporary id until the session is authenticated.\<close>

definition start :: "('db, 'z) ext_scheme \<Rightarrow> nat \<Rightarrow> ('db, 'm) world \<Rightarrow> ('db, 'm) world" where
  "start X sid w =
     (let (r, w) = next_rand X w;
          w = upd_sess sid (\<lambda>s. s\<lparr>s_accountId := r\<rparr>) w;
          w = Server_appendSession sid w
      in async sid AsyncHandshake w)"

section \<open>The invariant\<close>

definition reg_wf :: "('db, 'm) world \<Rightarrow> bool" where
  "reg_wf w \<longleftrightarrow> sm_wf (m_sessions w) \<and>
     (\<forall>a l. sm_find (m_sessions w) a = Some l \<longrightarrow>
        l \<noteq> [] \<and> distinct l \<and> (\<forall>sid \<in> set l. accountId sid w = a))"

definition registered :: "nat \<Rightarrow> ('db, 'm) world \<Rightarrow> bool" where
  "registered sid w \<longleftrightarrow> (\<exists>a. sid \<in> set (Server_getSessions a w))"

lemma getSessions_cong: "m_sessions w' = m_sessions w \<Longrightarrow> Server_getSessions a w' = Server_getSessions a w"
  by (simp add: Server_getSessions_def)

lemma registered_cong: "m_sessions w' = m_sessions w \<Longrightarrow> registered sid w' = registered sid w"
  by (simp add: registered_def Server_getSessions_def)

lemma reg_wf_getSessions:
  assumes "reg_wf w"
  shows "distinct (Server_getSessions a w)"
    and "sid \<in> set (Server_getSessions a w) \<Longrightarrow> accountId sid w = a"
  using assms by (cases "sm_find (m_sessions w) a"; auto simp: reg_wf_def Server_getSessions_def)+

lemma registered_iff:
  "reg_wf w \<Longrightarrow> registered sid w \<longleftrightarrow> sid \<in> set (Server_getSessions (accountId sid w) w)"
  using reg_wf_getSessions(2) by (fastforce simp: registered_def)

lemma getSessions_append:
  "Server_getSessions a (Server_appendSession sid w) =
     Server_getSessions a w @ (if a = accountId sid w then [sid] else [])"
  by (auto simp: Server_getSessions_def Server_appendSession_def Let_def sm.find_put split: option.split)

lemma getSessions_remove:
  assumes "reg_wf w"
  shows "Server_getSessions a (Server_removeSession sid w) = list_remove sid (Server_getSessions a w)"
proof (cases "sm_find (m_sessions w) (accountId sid w)")
  case None
  have "sid \<notin> set (Server_getSessions a w)"
  proof
    assume "sid \<in> set (Server_getSessions a w)"
    then have "a = accountId sid w" using reg_wf_getSessions(2) [OF assms] by blast
    with None \<open>sid \<in> _\<close> show False by (simp add: Server_getSessions_def)
  qed
  with None show ?thesis by (simp add: Server_removeSession_def)
next
  case (Some l)
  have "sid \<notin> set (Server_getSessions a w)" if "a \<noteq> accountId sid w"
    using that reg_wf_getSessions(2) [OF assms] by blast
  then show ?thesis
    using Some by (auto simp: Server_removeSession_def Let_def Server_getSessions_def
        sm.find_put sm.find_erase split: option.splits)
qed

lemma reg_frame [simp]:
  "w_heap (Server_appendSession sid w) = w_heap w" "w_dbs (Server_appendSession sid w) = w_dbs w"
  "w_posted (Server_appendSession sid w) = w_posted w" "w_rand (Server_appendSession sid w) = w_rand w"
  "w_heap (Server_removeSession sid w) = w_heap w" "w_dbs (Server_removeSession sid w) = w_dbs w"
  "w_posted (Server_removeSession sid w) = w_posted w" "w_rand (Server_removeSession sid w) = w_rand w"
  by (auto simp: Server_appendSession_def Server_removeSession_def Let_def split: option.split)

lemma setStatus_simps [simp]:
  "w_heap (setStatus sid st w) = (w_heap w)(sid := (w_heap w sid)\<lparr>s_status := st\<rparr>)"
  "w_dbs (setStatus sid st w) = w_dbs w" "m_sessions (setStatus sid st w) = m_sessions w"
  "w_posted (setStatus sid st w) = w_posted w" "w_rand (setStatus sid st w) = w_rand w"
  by (simp_all add: setStatus_def)

lemma reg_wf_append:
  assumes "reg_wf w" and "\<not> registered sid w"
  shows "reg_wf (Server_appendSession sid w)"
  using assms
  by (auto simp: reg_wf_def registered_def Server_getSessions_def Server_appendSession_def Let_def
      sm.find_put sm.wf_put split: option.splits)

lemma reg_wf_remove: "reg_wf w \<Longrightarrow> reg_wf (Server_removeSession sid w)"
  by (auto simp: reg_wf_def Server_removeSession_def Let_def sm.find_put sm.wf_put sm.find_erase
      sm.wf_erase split: option.splits if_splits)

text \<open>Changing a session that is in no list, or anything but an account id, is harmless.\<close>

lemma reg_wf_upd:
  assumes "reg_wf w" and "m_sessions w' = m_sessions w"
    and "\<And>sid. registered sid w \<Longrightarrow> accountId sid w' = accountId sid w"
  shows "reg_wf w'"
  using assms by (auto simp: reg_wf_def registered_def Server_getSessions_def split: option.splits) (metis option.inject)


section \<open>The contract the handlers rely on\<close>

text \<open>
  A directory of sessions by account: what a lookup answers after an entry is added or
  removed, and that both keep the invariant.
\<close>

locale session_directory =
  fixes append :: "nat \<Rightarrow> 'w \<Rightarrow> 'w" and remove :: "nat \<Rightarrow> 'w \<Rightarrow> 'w"
    and sessions :: "uint32 \<Rightarrow> 'w \<Rightarrow> nat list" and acct :: "nat \<Rightarrow> 'w \<Rightarrow> uint32"
    and wf :: "'w \<Rightarrow> bool"
  assumes wf_own: "wf w \<Longrightarrow> sid \<in> set (sessions a w) \<Longrightarrow> acct sid w = a"
    and wf_distinct: "wf w \<Longrightarrow> distinct (sessions a w)"
    and append_sessions: "sessions a (append sid w) = sessions a w @ (if a = acct sid w then [sid] else [])"
    and remove_sessions: "wf w \<Longrightarrow> sessions a (remove sid w) = list_remove sid (sessions a w)"
    and append_wf: "wf w \<Longrightarrow> \<forall>a. sid \<notin> set (sessions a w) \<Longrightarrow> wf (append sid w)"
    and remove_wf: "wf w \<Longrightarrow> wf (remove sid w)"
    and acct_append: "acct t (append sid w) = acct t w"
    and acct_remove: "acct t (remove sid w) = acct t w"
begin

lemma removed: "wf w \<Longrightarrow> sid \<notin> set (sessions a (remove sid w))"
  by (simp add: remove_sessions)

text \<open>
  Re-registration: take a session out, give it another account (by any change \<open>rename\<close>
  that leaves the lists and the other sessions alone), put it back. It is then listed
  exactly once, under the new account, and nobody else has moved.
\<close>

lemma reregister:
  assumes "wf w" and "\<And>a u. sessions a (rename u) = sessions a u"
    and "\<And>t u. acct t (rename u) = (if t = sid then new else acct t u)"
    and keeps: "\<And>u. wf u \<Longrightarrow> (\<forall>a. sid \<notin> set (sessions a u)) \<Longrightarrow> wf (rename u)"
  defines "w' \<equiv> append sid (rename (remove sid w))"
  shows "wf w'" and "sid \<in> set (sessions a w') \<longleftrightarrow> a = new"
    and "t \<noteq> sid \<Longrightarrow> t \<in> set (sessions a w') \<longleftrightarrow> t \<in> set (sessions a w)"
proof -
  have out: "\<forall>a. sid \<notin> set (sessions a (rename (remove sid w)))"
    using removed [OF assms(1)] assms(2) by simp
  have "wf (rename (remove sid w))"
    by (intro keeps remove_wf assms(1)) (use removed [OF assms(1)] in blast)
  then show "wf w'" unfolding w'_def by (rule append_wf [OF _ out])
  show "sid \<in> set (sessions a w') \<longleftrightarrow> a = new"
    using out by (simp add: w'_def append_sessions assms(2,3))
  show "t \<noteq> sid \<Longrightarrow> t \<in> set (sessions a w') \<longleftrightarrow> t \<in> set (sessions a w)"
    by (simp add: w'_def append_sessions assms(2) remove_sessions [OF assms(1)])
qed

end

interpretation dir: session_directory Server_appendSession Server_removeSession Server_getSessions accountId reg_wf
proof
  show "accountId sid w = a" if "reg_wf w" "sid \<in> set (Server_getSessions a w)"
    for sid a and w :: "('a, 'b) world"
    by (rule reg_wf_getSessions(2) [OF that])
  show "reg_wf (Server_appendSession sid w)"
    if "reg_wf w" "\<forall>a. sid \<notin> set (Server_getSessions a w)" for sid and w :: "('a, 'b) world"
    using that by (intro reg_wf_append) (auto simp: registered_def)
qed (simp_all add: reg_wf_getSessions getSessions_append getSessions_remove reg_wf_remove)

section \<open>Closing all sessions\<close>

lemma close_simps:
  "m_sessions (close sid sh False w) = m_sessions w"
  "w_heap (close sid sh False w) = (w_heap w)(sid := (w_heap w sid)\<lparr>s_timer := False, s_open := False, s_status := STATUS_DISCONNECTED\<rparr>)"
  by (simp_all add: close_def)

lemma close_fold:
  "m_sessions (fold (\<lambda>s w. close s False False w) l w) = m_sessions w"
  "w_heap (fold (\<lambda>s w. close s False False w) l w) sid =
     (if sid \<in> set l then (w_heap w sid)\<lparr>s_timer := False, s_open := False, s_status := STATUS_DISCONNECTED\<rparr> else w_heap w sid)"
  by (induction l arbitrary: w) (auto simp: close_simps)

lemma close_fold_all:
  "w_heap (fold (\<lambda>(a, l) w. fold (\<lambda>s w. close s False False w) l w) m w) sid =
     (if \<exists>(a, l) \<in> set m. sid \<in> set l
      then (w_heap w sid)\<lparr>s_timer := False, s_open := False, s_status := STATUS_DISCONNECTED\<rparr> else w_heap w sid)"
  by (induction m arbitrary: w) (auto simp: close_fold)

end
