(* ===== verification/Transport.thy ===== *)
theory Transport
  imports Registry
begin

text \<open>
  The packet transport of a session (src/src/session.cpp): the handshake, the heartbeat
  timer, the send queue (\<open>sendPacket\<close>, \<open>onPacketSent\<close>, \<open>postPacket\<close>, \<open>addStreamSender\<close>) and the
  receive loop (\<open>recvPacket\<close>, \<open>onPacketHeadRecv\<close>, \<open>recvPacketBody\<close>, \<open>onPacketBodyRecv\<close>,
  \<open>onPacketRecv\<close>). Each completion handler is a function of the error code, the number of
  bytes (or the bytes) transferred and the state; the operation it starts on the socket is
  appended to \<open>s_io\<close>. What the engine does with a received packet is the argument
  \<open>process\<close>, the result of \<open>Zway::Engine::processIncomingPacket\<close>.
\<close>

section \<open>Completion handlers\<close>

text \<open>The error codes the handlers distinguish.\<close>

datatype io_error =
    No_error | Connection_aborted | Connection_reset | Eof | Short_read | Operation_aborted | Other_error nat

definition disconnects :: "io_error \<Rightarrow> bool" where
  "disconnects e \<longleftrightarrow> e \<in> {Connection_aborted, Connection_reset, Eof, Short_read}"

definition session_onTimer :: "io_error \<Rightarrow> ('db, 'm) world \<Rightarrow> ('db, 'm) world" where
  "session_onTimer error w = w"

definition resetTimer :: "nat \<Rightarrow> ('db, 'm) world \<Rightarrow> ('db, 'm) world" where
  "resetTimer sid = upd_sess sid (\<lambda>s. s\<lparr>s_timer := True\<rparr>)"

definition pauseTimer :: "nat \<Rightarrow> ('db, 'm) world \<Rightarrow> ('db, 'm) world" where
  "pauseTimer sid = upd_sess sid (\<lambda>s. s\<lparr>s_timer := False\<rparr>)"

definition recvPacket :: "('db, 'm, 'z) env_scheme \<Rightarrow> nat \<Rightarrow> ('db, 'm) world \<Rightarrow> bool \<times> ('db, 'm) world" where
  "recvPacket X sid w =
     (case z_packetCreate X of None \<Rightarrow> (False, w) | Some _ \<Rightarrow> (True, async sid AsyncReadHead w))"

definition recvPacketBody ::
  "('db, 'm, 'z) env_scheme \<Rightarrow> nat \<Rightarrow> packet \<Rightarrow> ('db, 'm) world \<Rightarrow> ('db, 'm) world" where
  "recvPacketBody X sid pkt w =
     (case z_bufferCreate X (replicate (unat (pk_bodySize pkt)) 0) of
        None \<Rightarrow> w
      | Some body \<Rightarrow> async sid (AsyncReadBody (pkt\<lparr>pk_body := Some body\<rparr>) 0 (length body)) w)"

definition onPacketRecv ::
  "('db, 'm, 'z) env_scheme \<Rightarrow> (packet \<Rightarrow> ('db, 'm) world \<Rightarrow> (bool \<times> ('db, 'm) world) option)
     \<Rightarrow> nat \<Rightarrow> packet \<Rightarrow> ('db, 'm) world \<Rightarrow> ('db, 'm) world option" where
  "onPacketRecv X process sid pkt w = do {
     let w = upd_sess sid (\<lambda>s. s\<lparr>s_numPacketsRecv := s_numPacketsRecv s + 1\<rparr>) w;
     w \<leftarrow> (if pk_streamId pkt \<noteq> 0 \<and> pk_bodySize pkt \<noteq> 0
           then do { (ok, w) \<leftarrow> process pkt w; Some w }
           else Some w);
     Some (snd (recvPacket X sid w)) }"

definition onPacketHeadRecv ::
  "('db, 'm, 'z) env_scheme \<Rightarrow> (packet \<Rightarrow> ('db, 'm) world \<Rightarrow> (bool \<times> ('db, 'm) world) option)
     \<Rightarrow> io_error \<Rightarrow> nat \<Rightarrow> nat \<Rightarrow> packet \<Rightarrow> ('db, 'm) world \<Rightarrow> ('db, 'm) world option" where
  "onPacketHeadRecv X process error bytes_transferred sid pkt w =
     (if error = No_error \<and> bytes_transferred = z_headSize X then
        (let w = resetTimer sid w in
         if pk_bodySize pkt > 0 then Some (recvPacketBody X sid pkt w)
         else onPacketRecv X process sid pkt w)
      else if error = No_error \<and> bytes_transferred = 0 then Some (snd (recvPacket X sid w))
      else if disconnects error then Some (close sid False True w)
      else if error = Operation_aborted then Some w
      else Some w)"

text \<open>
  The bytes of a read land in the body at the offset the read was started with.
  \<open>packetOffset\<close> is a 32-bit variable, the comparison is made in \<open>size_t\<close>.
\<close>

definition write_body :: "nat \<Rightarrow> bytes \<Rightarrow> packet \<Rightarrow> packet" where
  "write_body offset data pkt =
     pkt\<lparr>pk_body := map_option (\<lambda>b. take offset b @ data @ drop (offset + length data) b) (pk_body pkt)\<rparr>"

definition onPacketBodyRecv ::
  "('db, 'm, 'z) env_scheme \<Rightarrow> (packet \<Rightarrow> ('db, 'm) world \<Rightarrow> (bool \<times> ('db, 'm) world) option)
     \<Rightarrow> io_error \<Rightarrow> bytes \<Rightarrow> nat \<Rightarrow> nat \<Rightarrow> packet \<Rightarrow> ('db, 'm) world \<Rightarrow> ('db, 'm) world option" where
  "onPacketBodyRecv X process error data offset sid pkt w =
     (let pkt = write_body offset data pkt;
          received = offset + length data;
          bodySize = unat (pk_bodySize pkt)
      in
      if error = No_error \<and> received < bodySize then
        (let packetOffset = unat (of_nat received :: uint32)
         in Some (async sid (AsyncReadBody pkt packetOffset (bodySize - packetOffset)) w))
      else if error = No_error \<and> received = bodySize then
        onPacketRecv X process sid pkt (resetTimer sid w)
      else if disconnects error then Some (close sid False True w)
      else if error = Operation_aborted then Some w
      else Some w)"

text \<open>
  \<open>remote_endpoint()\<close> throws when the peer is already gone (\<open>endpoint = None\<close>).
\<close>

definition handleHandshake ::
  "('db, 'm, 'z) env_scheme \<Rightarrow> io_error \<Rightarrow> (string \<times> string) option \<Rightarrow> nat \<Rightarrow> ('db, 'm) world
     \<Rightarrow> ('db, 'm) world option" where
  "handleHandshake X error endpoint sid w =
     (if error = No_error then do {
        let w = setStatus sid STATUS_CONNECTED w;
        (address, port) \<leftarrow> endpoint;
        let w = upd_sess sid (\<lambda>s. s\<lparr>s_remoteHost := address @ '':'' @ port\<rparr>) w;
        let w = resetTimer sid w;
        Some (snd (recvPacket X sid w)) }
      else Some (close sid False True w))"

section \<open>Sending\<close>

text \<open>The three critical sections of \<open>sendPacket\<close>, run without interruption.\<close>

definition next_packet ::
  "('db, 'm, 'z) env_scheme \<Rightarrow> nat \<Rightarrow> ('db, 'm) world \<Rightarrow> (packet option \<times> ('db, 'm) world) option" where
  "next_packet X sid w = do {
     w \<leftarrow> (if s_packetQueue (w_heap w sid) = [] then do {
            (pkts, w) \<leftarrow> z_processStreamSenders X sid w;
            Some (upd_sess sid (\<lambda>s. s\<lparr>s_packetQueue := s_packetQueue s @ pkts\<rparr>) w) }
          else Some w);
     (case s_packetQueue (w_heap w sid) of
        [] \<Rightarrow> Some (None, w)
      | pkt # rest \<Rightarrow> Some (Some pkt, upd_sess sid (\<lambda>s. s\<lparr>s_packetQueue := rest\<rparr>) w)) }"

definition sendPacket ::
  "('db, 'm, 'z) env_scheme \<Rightarrow> nat \<Rightarrow> ('db, 'm) world \<Rightarrow> (bool \<times> ('db, 'm) world) option" where
  "sendPacket X sid w =
     (if s_sending (w_heap w sid) then Some (False, w)
      else do {
        (pkt, w) \<leftarrow> next_packet X sid w;
        (case pkt of
           None \<Rightarrow> Some (False, w)
         | Some pkt \<Rightarrow>
             (let w = upd_sess sid (\<lambda>s. s\<lparr>s_sending := True\<rparr>) w
              in Some (True, async sid (AsyncWrite pkt) w))) })"

definition onPacketSent ::
  "('db, 'm, 'z) env_scheme \<Rightarrow> io_error \<Rightarrow> nat \<Rightarrow> ('db, 'm) world \<Rightarrow> ('db, 'm) world option" where
  "onPacketSent X error sid w = do {
     let w = (if error = No_error
              then upd_sess sid (\<lambda>s. s\<lparr>s_numPacketsSent := s_numPacketsSent s + 1\<rparr>) (resetTimer sid w)
              else w);
     let w = upd_sess sid (\<lambda>s. s\<lparr>s_sending := False\<rparr>) w;
     (sent, w) \<leftarrow> sendPacket X sid w;
     Some w }"

definition postPacket ::
  "('db, 'm, 'z) env_scheme \<Rightarrow> nat \<Rightarrow> packet option \<Rightarrow> ('db, 'm) world \<Rightarrow> (bool \<times> ('db, 'm) world) option" where
  "postPacket X sid pkt w =
     (case pkt of
        None \<Rightarrow> Some (False, w)
      | Some pkt \<Rightarrow> do {
          let w = upd_sess sid (\<lambda>s. s\<lparr>s_packetQueue := s_packetQueue s @ [pkt]\<rparr>) w;
          (sent, w) \<leftarrow> sendPacket X sid w;
          Some (True, w) })"

definition addStreamSender ::
  "('db, 'm, 'z) env_scheme \<Rightarrow> nat \<Rightarrow> nat \<Rightarrow> ('db, 'm) world \<Rightarrow> (bool \<times> ('db, 'm) world) option" where
  "addStreamSender X sid sender w =
     (if \<not> z_addSender X (calls sid w) sender then Some (False, w)
      else do {
        let w = engine sid (AddStreamSender sender) w;
        (sent, w) \<leftarrow> sendPacket X sid w;
        Some (True, w) })"


lemma timer_simps [simp]:
  "w_heap (resetTimer sid w) = (w_heap w)(sid := (w_heap w sid)\<lparr>s_timer := True\<rparr>)"
  by (simp add: resetTimer_def)

section \<open>Reassembly of a packet body\<close>

text \<open>
  The socket delivers the body in pieces of any size: each piece completes the read that
  was started last.
\<close>

fun deliver_body ::
  "('db, 'm, 'z) env_scheme \<Rightarrow> (packet \<Rightarrow> ('db, 'm) world \<Rightarrow> (bool \<times> ('db, 'm) world) option)
     \<Rightarrow> nat \<Rightarrow> bytes list \<Rightarrow> ('db, 'm) world \<Rightarrow> ('db, 'm) world option" where
  "deliver_body X process sid [] w = Some w"
| "deliver_body X process sid (c # cs) w =
     (case last (io sid w) of
        AsyncReadBody pkt offset n \<Rightarrow> do {
          w \<leftarrow> onPacketBodyRecv X process No_error c offset sid pkt w;
          deliver_body X process sid cs w }
      | _ \<Rightarrow> None)"

lemma upd_sess_upd_sess [simp]: "upd_sess sid f (upd_sess sid g w) = upd_sess sid (f \<circ> g) w"
  by (simp add: upd_sess_def)

lemma deliver_body_from:
  assumes "io sid w \<noteq> []" and "last (io sid w) = AsyncReadBody (p\<lparr>pk_body := Some b\<rparr>) off n"
    and "off + length (concat cs) = unat (pk_bodySize p)" and "length b = unat (pk_bodySize p)"
    and "cs \<noteq> []" and "[] \<notin> set cs"
  shows "\<exists>ops. deliver_body X process sid cs w =
      onPacketRecv X process sid (p\<lparr>pk_body := Some (take off b @ concat cs)\<rparr>)
        (upd_sess sid (\<lambda>s. s\<lparr>s_io := s_io s @ ops, s_timer := True\<rparr>) w) \<and>
      Suc (length ops) = length cs"
  using assms
proof (induction cs arbitrary: off b n w)
  case (Cons c cs)
  let ?b = "take off b @ c @ drop (off + length c) b"
  show ?case
  proof (cases "cs = []")
    case True
    with Cons.prems show ?thesis
      by (auto simp: onPacketBodyRecv_def write_body_def Let_def resetTimer_def intro!: exI [of _ "[]"]
          split: Option.bind_split)
  next
    case False
    let ?w = "async sid (AsyncReadBody (p\<lparr>pk_body := Some ?b\<rparr>) (off + length c)
        (unat (pk_bodySize p) - (off + length c))) w"
    have "length (concat cs) > 0"
      using False Cons.prems(6) by (cases cs) auto
    then have lt: "off + length c < unat (pk_bodySize p)"
      using Cons.prems(3) by (simp only: concat.simps length_append)
    then have "off + length c < 2 ^ 32"
      using unsigned_less [of "pk_bodySize p", where ?'a = nat] by simp
    then have "unat (of_nat (off + length c) :: uint32) = off + length c"
      by (simp add: unat_of_nat take_bit_nat_eq_self_iff del: of_nat_add)
    then have step: "onPacketBodyRecv X process No_error c off sid (p\<lparr>pk_body := Some b\<rparr>) w = Some ?w"
      using lt by (simp add: onPacketBodyRecv_def write_body_def Let_def del: of_nat_add)
    have "\<exists>ops. deliver_body X process sid cs ?w =
      onPacketRecv X process sid (p\<lparr>pk_body := Some (take (off + length c) ?b @ concat cs)\<rparr>)
        (upd_sess sid (\<lambda>s. s\<lparr>s_io := s_io s @ ops, s_timer := True\<rparr>) ?w) \<and> Suc (length ops) = length cs"
      using Cons.prems False lt by (intro Cons.IH) auto
    then obtain ops where ops: "deliver_body X process sid cs ?w =
      onPacketRecv X process sid (p\<lparr>pk_body := Some (take (off + length c) ?b @ concat cs)\<rparr>)
        (upd_sess sid (\<lambda>s. s\<lparr>s_io := s_io s @ ops, s_timer := True\<rparr>) ?w)"
      "Suc (length ops) = length cs" by blast
    have eq: "take (off + length c) ?b = take off b @ c"
      using Cons.prems(4) lt by simp
    from ops(1) [unfolded eq] ops(2) step Cons.prems(2) show ?thesis
      by (intro exI [of _ "AsyncReadBody (p\<lparr>pk_body := Some ?b\<rparr>) (off + length c)
          (unat (pk_bodySize p) - (off + length c)) # ops"]) (simp add: async_def o_def)
  qed
qed simp

text \<open>
  C24. However the network splits the body of a packet, the receive loop reassembles it: once
  the last byte has arrived, and not before, the packet is handed to \<open>onPacketRecv\<close> with
  exactly the bytes sent, and one read was started per piece.
\<close>

theorem body_reassembled:
  assumes "ubj_laws X" and "pieces \<noteq> []" and "[] \<notin> set pieces"
    and "length (concat pieces) = unat (pk_bodySize p)"
  shows "\<exists>ops. deliver_body X process sid pieces (recvPacketBody X sid p w) =
      onPacketRecv X process sid (p\<lparr>pk_body := Some (concat pieces)\<rparr>)
        (upd_sess sid (\<lambda>s. s\<lparr>s_io := s_io s @ ops, s_timer := True\<rparr>) w) \<and>
      length ops = length pieces"
proof -
  let ?n = "unat (pk_bodySize p)"
  let ?r = "AsyncReadBody (p\<lparr>pk_body := Some (replicate ?n 0)\<rparr>) 0 ?n"
  have start: "recvPacketBody X sid p w = async sid ?r w"
    by (simp add: recvPacketBody_def ubj_lawsD [OF assms(1)])
  have "\<exists>ops. deliver_body X process sid pieces (async sid ?r w) =
      onPacketRecv X process sid (p\<lparr>pk_body := Some (take 0 (replicate ?n 0) @ concat pieces)\<rparr>)
        (upd_sess sid (\<lambda>s. s\<lparr>s_io := s_io s @ ops, s_timer := True\<rparr>) (async sid ?r w)) \<and>
      Suc (length ops) = length pieces"
    using assms by (intro deliver_body_from) auto
  then obtain ops where "deliver_body X process sid pieces (async sid ?r w) =
      onPacketRecv X process sid (p\<lparr>pk_body := Some (concat pieces)\<rparr>)
        (upd_sess sid (\<lambda>s. s\<lparr>s_io := s_io s @ ops, s_timer := True\<rparr>) (async sid ?r w))"
      "Suc (length ops) = length pieces" by auto
  then show ?thesis
    by (intro exI [of _ "?r # ops"]) (simp add: start async_def o_def)
qed

text \<open>
  The head of a packet is not reassembled: when the socket delivers a part of it, no
  further read is started, the session stays registered and connected, and nothing the
  client sends afterwards is ever read.
\<close>

theorem partial_head_stalls:
  assumes "0 < n" and "n < z_headSize X"
  shows "onPacketHeadRecv X process No_error n sid pkt w = Some w"
  using assms by (simp add: onPacketHeadRecv_def disconnects_def)


section \<open>One write at a time, when handlers do not overlap\<close>

text \<open>
  The members \<open>m_sending\<close>, \<open>m_packetQueue\<close> and the socket are private to the session: the
  engine does not touch them while it prepares packets.
\<close>

definition senders_frame :: "('db, 'm, 'z) env_scheme \<Rightarrow> bool" where
  "senders_frame X \<longleftrightarrow>
     (\<forall>sid w pkts w'. z_processStreamSenders X sid w = Some (pkts, w') \<longrightarrow>
        (\<forall>t. s_sending (w_heap w' t) = s_sending (w_heap w t) \<and> io t w' = io t w \<and>
             s_packetQueue (w_heap w' t) = s_packetQueue (w_heap w t)))"

definition writes :: "io_op list \<Rightarrow> packet list" where
  "writes ops = concat (map (\<lambda>oper. case oper of AsyncWrite p \<Rightarrow> [p] | _ \<Rightarrow> []) ops)"

lemma writes_simps [simp]:
  "writes [] = []" "writes (a @ b) = writes a @ writes b" "writes [AsyncWrite p] = [p]"
  by (simp_all add: writes_def)

text \<open>
  The events of the send side of one session, run one after another: a call of
  \<open>sendPacket\<close>, a packet posted, the completion of a write. The second component counts
  the completions; a completion needs a write that is not completed yet.
\<close>

inductive send_event ::
  "('db, 'm, 'z) env_scheme \<Rightarrow> nat \<Rightarrow> ('db, 'm) world \<times> nat \<Rightarrow> ('db, 'm) world \<times> nat \<Rightarrow> bool"
  for X sid where
  send: "sendPacket X sid w = Some (r, w') \<Longrightarrow> send_event X sid (w, c) (w', c)"
| post: "postPacket X sid pkt w = Some (r, w') \<Longrightarrow> send_event X sid (w, c) (w', c)"
| sent: "c < length (writes (io sid w)) \<Longrightarrow> onPacketSent X error sid w = Some w' \<Longrightarrow>
    send_event X sid (w, c) (w', Suc c)"

definition send_inv :: "nat \<Rightarrow> ('db, 'm) world \<times> nat \<Rightarrow> bool" where
  "send_inv sid = (\<lambda>(w, c). length (writes (io sid w)) = c + (if s_sending (w_heap w sid) then 1 else 0))"

lemma next_packet_frame:
  assumes "senders_frame X" and "next_packet X sid w = Some (pkt, w')"
  shows "s_sending (w_heap w' t) = s_sending (w_heap w t)" and "io t w' = io t w"
proof -
  have "s_sending (w_heap w' t) = s_sending (w_heap w t) \<and> io t w' = io t w"
  proof (cases "s_packetQueue (w_heap w sid) = []")
    case True
    then obtain pkts w1 where "z_processStreamSenders X sid w = Some (pkts, w1)"
      using assms(2) by (auto simp: next_packet_def bind_pair Option.bind_eq_Some_conv)
    moreover from this have "s_sending (w_heap w1 t) = s_sending (w_heap w t) \<and> io t w1 = io t w"
      using assms(1) unfolding senders_frame_def by blast
    ultimately show ?thesis
      using assms(2) True by (cases "t = sid") (auto simp: next_packet_def split: list.splits)
  qed (use assms(2) in \<open>cases "t = sid"; auto simp: next_packet_def split: list.splits\<close>)
  then show "s_sending (w_heap w' t) = s_sending (w_heap w t)" and "io t w' = io t w" by blast+
qed

lemma sendPacket_inv:
  assumes "senders_frame X" and "sendPacket X sid w = Some (r, w')" and "send_inv sid (w, c)"
  shows "send_inv sid (w', c)"
  using assms(2,3) next_packet_frame [OF assms(1)]
  by (auto simp: sendPacket_def send_inv_def bind_pair Let_def split: if_splits option.splits)

lemma send_event_inv:
  assumes "senders_frame X" and "send_event X sid s s'" and "send_inv sid s"
  shows "send_inv sid s'"
  using assms(2,3)
proof (cases rule: send_event.cases)
  case (send w r w' c)
  then show ?thesis using sendPacket_inv [OF assms(1)] assms(3) by blast
next
  case (post pkt w r w' c)
  show ?thesis
  proof (cases pkt)
    case None
    with post assms(3) show ?thesis by (simp add: postPacket_def)
  next
    case (Some p)
    let ?w = "upd_sess sid (\<lambda>s. s\<lparr>s_packetQueue := s_packetQueue s @ [p]\<rparr>) w"
    have "send_inv sid (?w, c)" using post assms(3) by (simp add: send_inv_def)
    then show ?thesis
      using post Some sendPacket_inv [OF assms(1), of sid ?w] by (auto simp: postPacket_def bind_pair)
  qed
next
  case (sent c w error w')
  let ?w = "upd_sess sid (\<lambda>s. s\<lparr>s_sending := False\<rparr>)
     (if error = No_error
      then upd_sess sid (\<lambda>s. s\<lparr>s_numPacketsSent := s_numPacketsSent s + 1\<rparr>) (resetTimer sid w) else w)"
  have "send_inv sid (?w, Suc c)"
    using sent assms(3) by (auto simp: send_inv_def split: if_splits)
  then show ?thesis
    using sent sendPacket_inv [OF assms(1), of sid ?w] by (auto simp: onPacketSent_def bind_pair Let_def)
qed

text \<open>
  C25. When the handlers of a session run one after another, at most one write is in flight
  on its socket, and \<open>m_sending\<close> says exactly whether there is one: whatever sequence of
  posted packets, \<open>sendPacket\<close> calls and completions follows a fresh session.
\<close>

theorem at_most_one_write:
  assumes "senders_frame X" and "(send_event X sid)\<^sup>*\<^sup>* (w\<^sub>0, 0) (w, completed)"
    and "w_heap w\<^sub>0 sid = new_session"
  shows "length (writes (io sid w)) - completed \<le> 1 \<and>
    (s_sending (w_heap w sid) \<longleftrightarrow> length (writes (io sid w)) = completed + 1)"
proof -
  have "send_inv sid (w\<^sub>0, 0)" using assms(3) by (simp add: send_inv_def new_session_def)
  with assms(2) have "send_inv sid (w, completed)"
    by (induction rule: rtranclp_induct) (auto intro: send_event_inv [OF assms(1)])
  then show ?thesis by (auto simp: send_inv_def split: if_splits)
qed


section \<open>Overlapping calls of \<open>sendPacket\<close>\<close>

text \<open>
  \<open>sendPacket\<close> tests \<open>m_sending\<close> in one critical section, takes a packet in a second and
  sets \<open>m_sending\<close> in a third, and the workers of the \<open>io_service\<close> (and the timer of the
  server) may call it at the same time. A worker is between two of its critical sections
  when it has \<open>Checked\<close> the flag or \<open>Took\<close> a packet. A call that finds the flag set returns
  and changes nothing.
\<close>

datatype send_pc = Outside | Checked | Took packet

record send_state =
  x_sending :: bool
  x_queue :: "packet list"
  x_flight :: "packet list"
  x_pc :: "nat \<Rightarrow> send_pc"

inductive lock_step :: "nat set \<Rightarrow> send_state \<Rightarrow> send_state \<Rightarrow> bool" for T where
  check: "i \<in> T \<Longrightarrow> x_pc s i = Outside \<Longrightarrow> \<not> x_sending s \<Longrightarrow>
    lock_step T s (s\<lparr>x_pc := (x_pc s)(i := Checked)\<rparr>)"
| take: "i \<in> T \<Longrightarrow> x_pc s i = Checked \<Longrightarrow> x_queue s = p # q \<Longrightarrow>
    lock_step T s (s\<lparr>x_queue := q, x_pc := (x_pc s)(i := Took p)\<rparr>)"
| empty: "i \<in> T \<Longrightarrow> x_pc s i = Checked \<Longrightarrow> x_queue s = [] \<Longrightarrow>
    lock_step T s (s\<lparr>x_pc := (x_pc s)(i := Outside)\<rparr>)"
| start_write: "i \<in> T \<Longrightarrow> x_pc s i = Took p \<Longrightarrow>
    lock_step T s (s\<lparr>x_sending := True, x_flight := x_flight s @ [p], x_pc := (x_pc s)(i := Outside)\<rparr>)"
| complete: "i \<in> T \<Longrightarrow> x_pc s i = Outside \<Longrightarrow> x_flight s = a @ p # b \<Longrightarrow>
    lock_step T s (s\<lparr>x_sending := False, x_flight := a @ b\<rparr>)"
| enqueue: "lock_step T s (s\<lparr>x_queue := x_queue s @ [p]\<rparr>)"

definition send_abs :: "nat \<Rightarrow> ('db, 'm) world \<times> nat \<Rightarrow> send_state" where
  "send_abs sid = (\<lambda>(w, completed).
     \<lparr>x_sending = s_sending (w_heap w sid), x_queue = s_packetQueue (w_heap w sid),
      x_flight = drop completed (writes (io sid w)), x_pc = (\<lambda>_. Outside)\<rparr>)"

text \<open>
  The steps are those of \<open>sendPacket\<close>: a call that is not interrupted is a sequence of them.
\<close>

lemma lock_steps_of_sendPacket:
  assumes "s_packetQueue (w_heap w sid) \<noteq> []" and "sendPacket X sid w = Some (r, w')"
    and "i \<in> T" and "completed \<le> length (writes (io sid w))"
  shows "(lock_step T)\<^sup>*\<^sup>* (send_abs sid (w, completed)) (send_abs sid (w', completed))"
proof (cases "s_sending (w_heap w sid)")
  case True
  with assms(2) show ?thesis by (simp add: sendPacket_def)
next
  case False
  obtain p q where pq: "s_packetQueue (w_heap w sid) = p # q"
    using assms(1) by (meson list.exhaust)
  let ?s = "send_abs sid (w, completed)"
  let ?s1 = "?s\<lparr>x_pc := (x_pc ?s)(i := Checked)\<rparr>"
  let ?s2 = "?s1\<lparr>x_queue := q, x_pc := (x_pc ?s1)(i := Took p)\<rparr>"
  let ?s3 = "?s2\<lparr>x_sending := True, x_flight := x_flight ?s2 @ [p], x_pc := (x_pc ?s2)(i := Outside)\<rparr>"
  have "lock_step T ?s ?s1" using False assms(3) by (intro lock_step.check) (simp_all add: send_abs_def)
  moreover have "lock_step T ?s1 ?s2"
    using pq assms(3) by (intro lock_step.take) (simp_all add: send_abs_def)
  moreover have "lock_step T ?s2 ?s3"
    using assms(3) by (intro lock_step.start_write) simp_all
  moreover have "?s3 = send_abs sid (w', completed)"
    using False assms(2,4) pq by (auto simp: sendPacket_def next_packet_def send_abs_def Let_def)
  ultimately show ?thesis by simp
qed

text \<open>
  C26. Overlapping calls break the exclusion: two workers that both test \<open>m_sending\<close> before
  either sets it end up with two writes in flight on the same socket, which
  \<open>boost::asio::async_write\<close> forbids.
\<close>

theorem two_writes_in_flight:
  "\<exists>s. (lock_step {0, 1})\<^sup>*\<^sup>*
      \<lparr>x_sending = False, x_queue = [p, q], x_flight = [], x_pc = (\<lambda>_. Outside)\<rparr> s \<and>
    x_flight s = [p, q]"
proof -
  let ?s = "\<lambda>snd1 qu fl a b. \<lparr>x_sending = snd1, x_queue = qu, x_flight = fl,
    x_pc = ((\<lambda>_. Outside)(0 := a, 1 := b))\<rparr>"
  note step = converse_rtranclp_into_rtranclp [of "lock_step {0, 1}"]
  have init: "((\<lambda>_. Outside)(0 := Outside, 1 := Outside)) = (\<lambda>_::nat. Outside)" by auto
  have "lock_step {0, 1} (?s False [p, q] [] Outside Outside) (?s False [p, q] [] Checked Outside)"
    using lock_step.check [of 0 "{0, 1}" "?s False [p, q] [] Outside Outside"] by (simp add: fun_upd_twist)
  moreover have "lock_step {0, 1} (?s False [p, q] [] Checked Outside) (?s False [p, q] [] Checked Checked)"
    using lock_step.check [of 1 "{0, 1}" "?s False [p, q] [] Checked Outside"] by simp
  moreover have "lock_step {0, 1} (?s False [p, q] [] Checked Checked) (?s False [q] [] (Took p) Checked)"
    using lock_step.take [of 0 "{0, 1}" "?s False [p, q] [] Checked Checked"] by (simp add: fun_upd_twist)
  moreover have "lock_step {0, 1} (?s False [q] [] (Took p) Checked) (?s False [] [] (Took p) (Took q))"
    using lock_step.take [of 1 "{0, 1}" "?s False [q] [] (Took p) Checked"] by simp
  moreover have "lock_step {0, 1} (?s False [] [] (Took p) (Took q)) (?s True [] [p] Outside (Took q))"
    using lock_step.start_write [of 0 "{0, 1}" "?s False [] [] (Took p) (Took q)"] by (simp add: fun_upd_twist)
  moreover have "lock_step {0, 1} (?s True [] [p] Outside (Took q)) (?s True [] [p, q] Outside Outside)"
    using lock_step.start_write [of 1 "{0, 1}" "?s True [] [p] Outside (Took q)"] by simp
  ultimately have "(lock_step {0, 1})\<^sup>*\<^sup>* (?s False [p, q] [] Outside Outside) (?s True [] [p, q] Outside Outside)"
    by (meson step rtranclp.rtrancl_refl)
  then show ?thesis unfolding init by (intro exI conjI) (assumption, simp)
qed

end
