(* ===== verification/Server_Buffers.thy ===== *)
theory Server_Buffers
  imports Transport
begin

text \<open>
  The stream buffers and stream senders the server keeps (src/src/server.cpp:
  \<open>addStreamBuffer\<close>, \<open>removeStreamBuffer\<close>, \<open>getStreamBuffer\<close>, \<open>addStreamBufferSender\<close>,
  \<open>numStreamBuffers\<close>, \<open>onTimer\<close>) and the sender objects of src/src/streambuffersender.cpp.
  Buffers are shared objects: \<open>m_buffers\<close> and the senders hold their addresses.
\<close>

section \<open>The buffers by stream id\<close>

text \<open>\<open>std::stringstream\<close> output of an unsigned number.\<close>

fun dec :: "nat \<Rightarrow> string" where
  "dec n = (if n < 10 then [char_of (48 + n)] else dec (n div 10) @ [char_of (48 + n mod 10)])"

declare dec.simps [simp del]

definition tmp_file :: "uint32 \<Rightarrow> string" where
  "tmp_file sid = ''tmp/'' @ dec (unat sid)"

definition Server_addStreamBuffer :: "nat \<Rightarrow> ('db, 'm) world \<Rightarrow> bool \<times> ('db, 'm) world" where
  "Server_addStreamBuffer b w =
     (let i = sb_streamId (w_sbufs w b) in
      if sm_find (m_buffers w) i \<noteq> None then (False, w)
      else (True, w\<lparr>m_buffers := sm_put i b (m_buffers w)\<rparr>))"

definition Server_removeStreamBuffer :: "uint32 \<Rightarrow> ('db, 'm) world \<Rightarrow> bool \<times> ('db, 'm) world" where
  "Server_removeStreamBuffer i w =
     (if sm_find (m_buffers w) i = None then (False, w)
      else (True, w\<lparr>m_buffers := sm_erase i (m_buffers w)\<rparr>))"

definition alloc_sbuf :: "'m streambuffer \<Rightarrow> ('db, 'm) world \<Rightarrow> nat \<times> ('db, 'm) world" where
  "alloc_sbuf sb w =
     (w_nextbuf w, w\<lparr>w_sbufs := (w_sbufs w)(w_nextbuf w := sb), w_nextbuf := Suc (w_nextbuf w)\<rparr>)"

definition Server_getStreamBuffer ::
  "('db, 'm, 'z) env_scheme \<Rightarrow> uint32 \<Rightarrow> ('db, 'm) world \<Rightarrow> (nat option \<times> ('db, 'm) world) option" where
  "Server_getStreamBuffer X i w =
     (case sm_find (m_buffers w) i of
        Some b \<Rightarrow> Some (Some b, w)
      | None \<Rightarrow> do {
          (r, fs) \<leftarrow> StreamBuffer_open (e_buf X) (tmp_file i) i (w_files w);
          let w = w\<lparr>w_files := fs\<rparr>;
          (case r of
             None \<Rightarrow> Some (None, w)
           | Some sb \<Rightarrow>
               (let (b, w) = alloc_sbuf sb w
                in Some (Some b, w\<lparr>m_buffers := sm_put i b (m_buffers w)\<rparr>))) })"

definition Server_numStreamBuffers :: "('db, 'm) world \<Rightarrow> nat" where
  "Server_numStreamBuffers w = length (m_buffers w)"

section \<open>Stream senders\<close>

definition BSender_getBuffer ::
  "('db, 'm, 'z) env_scheme \<Rightarrow> nat \<Rightarrow> ('db, 'm) world \<Rightarrow> ('db, 'm) world option" where
  "BSender_getBuffer X s w =
     (if bs_buffer (w_bsenders w s) \<noteq> None then Some w
      else do {
        (r, w) \<leftarrow> Server_getStreamBuffer X (bs_id (w_bsenders w s)) w;
        (case r of
           None \<Rightarrow> Some w
         | Some b \<Rightarrow>
             (let sb = w_sbufs w b;
                  snd1 = (w_bsenders w s)\<lparr>bs_type := sb_streamType sb, bs_size := StreamBuffer_size (e_buf X) sb,
                     bs_parts := sb_streamParts sb, bs_buffer := Some b\<rparr>
              in Some (w\<lparr>w_bsenders := (w_bsenders w)(s := snd1)\<rparr>))) })"

definition BSender_init ::
  "('db, 'm, 'z) env_scheme \<Rightarrow> nat \<Rightarrow> ('db, 'm) world \<Rightarrow> (bool \<times> ('db, 'm) world) option" where
  "BSender_init X s w =
     (if \<not> z_senderInit X (bs_id (w_bsenders w s)) then Some (False, w)
      else do { w \<leftarrow> BSender_getBuffer X s w; Some (True, w) })"

definition BSender_create ::
  "('db, 'm, 'z) env_scheme \<Rightarrow> nat \<Rightarrow> uint32 \<Rightarrow> ('db, 'm) world \<Rightarrow> (nat option \<times> ('db, 'm) world) option" where
  "BSender_create X session i w =
     (let s = w_nextsender w;
          w = w\<lparr>w_bsenders := (w_bsenders w)(s := \<lparr>bs_id = i, bs_session = session, bs_buffer = None,
                  bs_type = Undefined, bs_size = 0, bs_parts = 0\<rparr>), w_nextsender := Suc s\<rparr>
      in do {
        (ok, w) \<leftarrow> BSender_init X s w;
        if \<not> ok then Some (None, w) else Some (Some s, w) })"

text \<open>
  \<open>preparePacket\<close>: without a buffer the packet is dropped (reset) and the sender stays in
  the engine; with one, \<open>Zway::BufferSender::preparePacket\<close> (the argument \<open>prepare\<close>) fills it.
\<close>

definition BSender_preparePacket ::
  "('db, 'm, 'z) env_scheme \<Rightarrow> (bsender \<Rightarrow> 'p \<Rightarrow> bool \<times> 'p option) \<Rightarrow> nat \<Rightarrow> 'p \<Rightarrow> ('db, 'm) world
     \<Rightarrow> ((bool \<times> 'p option) \<times> ('db, 'm) world) option" where
  "BSender_preparePacket X prepare s pkt w = do {
     w \<leftarrow> BSender_getBuffer X s w;
     if bs_buffer (w_bsenders w s) \<noteq> None then Some (prepare (w_bsenders w s) pkt, w)
     else Some ((True, None), w) }"

definition Server_addStreamBufferSender :: "nat \<Rightarrow> ('db, 'm) world \<Rightarrow> ('db, 'm) world" where
  "Server_addStreamBufferSender s w = w\<lparr>m_senders := m_senders w @ [s]\<rparr>"

section \<open>The two-second timer\<close>

text \<open>
  \<open>onTimer\<close> drops completed senders, asks the sessions of the others to send, and evicts the
  buffers whose last activity is more than 60 seconds ago. The age is an unsigned 64-bit
  difference. Without an error the timer is armed again.
\<close>

definition idle :: "uint64 \<Rightarrow> 'm streambuffer \<Rightarrow> bool" where
  "idle now sb \<longleftrightarrow> now - sb_lastActivity sb > 60"

definition serve_senders ::
  "('db, 'm, 'z) env_scheme \<Rightarrow> ('db, 'm) world \<Rightarrow> ('db, 'm) world option" where
  "serve_senders X w =
     for_each (m_senders w)
       (\<lambda>s w. if z_completed X s then Some w
              else map_option snd (sendPacket X (bs_session (w_bsenders w s)) w)) w"

definition evict_idle :: "uint64 \<Rightarrow> ('db, 'm) world \<Rightarrow> ('db, 'm) world" where
  "evict_idle now w =
     (let remove = filter (\<lambda>(i, b). idle now (w_sbufs w b)) (m_buffers w)
      in w\<lparr>m_buffers := fold (\<lambda>(i, b). sm_erase (sb_streamId (w_sbufs w b))) remove (m_buffers w)\<rparr>)"

definition Server_onTimer ::
  "('db, 'm, 'z) env_scheme \<Rightarrow> io_error \<Rightarrow> uint64 \<Rightarrow> ('db, 'm) world \<Rightarrow> (bool \<times> ('db, 'm) world) option" where
  "Server_onTimer X error now w =
     (if error \<noteq> No_error then Some (False, w)
      else do {
        let remove = filter (z_completed X) (m_senders w);
        w \<leftarrow> serve_senders X w;
        let w = w\<lparr>m_senders := fold list_remove remove (m_senders w)\<rparr>;
        Some (True, evict_idle now w) })"

section \<open>The invariant\<close>

definition buffers_wf :: "('db, 'm) world \<Rightarrow> bool" where
  "buffers_wf w \<longleftrightarrow> sm_wf (m_buffers w) \<and>
     (\<forall>i b. sm_find (m_buffers w) i = Some b \<longrightarrow> sb_streamId (w_sbufs w b) = i \<and> b < w_nextbuf w)"

lemma buffers_wf_add:
  assumes "buffers_wf w" and "b < w_nextbuf w" and "Server_addStreamBuffer b w = (ok, w')"
  shows "buffers_wf w'"
  using assms by (auto simp: buffers_wf_def Server_addStreamBuffer_def Let_def sm.find_put sm.wf_put split: if_splits)

lemma buffers_wf_remove:
  "buffers_wf w \<Longrightarrow> Server_removeStreamBuffer i w = (ok, w') \<Longrightarrow> buffers_wf w'"
  by (auto simp: buffers_wf_def Server_removeStreamBuffer_def sm.find_erase sm.wf_erase split: if_splits)

lemma StreamBuffer_open_id:
  "StreamBuffer_open B f sid fs = Some (Some sb, fs') \<Longrightarrow> sb_streamId sb = sid"
  by (auto simp: StreamBuffer_open_def bind_pair bind_eq_Some_conv split: option.splits if_splits prod.splits)

lemma buffers_wf_get:
  assumes "buffers_wf w" and "Server_getStreamBuffer X i w = Some (r, w')"
  shows "buffers_wf w'" and "r = Some b \<Longrightarrow> sm_find (m_buffers w') i = Some b \<and> sb_streamId (w_sbufs w' b) = i"
proof -
  have old: "b < w_nextbuf w" "b \<noteq> w_nextbuf w" if "sm_find (m_buffers w) j = Some b" for j b
    using assms(1) that by (auto simp: buffers_wf_def)
  show "buffers_wf w'"
    using assms old by (auto simp: buffers_wf_def Server_getStreamBuffer_def alloc_sbuf_def bind_pair Let_def
      sm.find_put sm.wf_put less_SucI dest!: StreamBuffer_open_id split: option.splits if_splits)
  show "r = Some b \<Longrightarrow> sm_find (m_buffers w') i = Some b \<and> sb_streamId (w_sbufs w' b) = i"
    using assms by (auto simp: buffers_wf_def Server_getStreamBuffer_def alloc_sbuf_def bind_pair Let_def
      sm.find_put dest!: StreamBuffer_open_id split: option.splits if_splits)
qed

section \<open>Eviction\<close>

lemma fold_erase:
  "sm_find (fold (\<lambda>(i, b). sm_erase (f b)) remove m) k =
     (if \<exists>(i, b) \<in> set remove. f b = k then None else sm_find m k)"
  by (induction remove arbitrary: m) (auto simp: sm_find_erase)

lemma fold_erase_wf: "sm_wf m \<Longrightarrow> sm_wf (fold (\<lambda>(i, b). sm_erase (f b)) remove m)"
  by (induction remove arbitrary: m) (auto simp: sm.wf_erase)

lemma fold_list_remove: "fold list_remove xs ys = filter (\<lambda>y. y \<notin> set xs) ys"
  by (induction xs arbitrary: ys) (auto simp: list_remove_def intro: filter_cong)

lemma evict_frame [simp]:
  "w_sbufs (evict_idle now w) = w_sbufs w" "w_nextbuf (evict_idle now w) = w_nextbuf w"
  by (simp_all add: evict_idle_def Let_def)

lemma evict_find:
  assumes "buffers_wf w"
  shows "sm_find (m_buffers (evict_idle now w)) k =
      (if \<exists>c. sm_find (m_buffers w) k = Some c \<and> idle now (w_sbufs w c) then None
       else sm_find (m_buffers w) k)"
proof -
  let ?remove = "filter (\<lambda>(i, b). idle now (w_sbufs w b)) (m_buffers w)"
  have wf: "sm_wf (m_buffers w)" using assms by (simp add: buffers_wf_def)
  have own: "(j, c) \<in> set (m_buffers w) \<Longrightarrow> sb_streamId (w_sbufs w c) = j" for j c
    using assms by (auto simp: sm.entry_iff [OF wf] buffers_wf_def)
  have "(\<exists>(j, c) \<in> set ?remove. sb_streamId (w_sbufs w c) = k) \<longleftrightarrow>
      (\<exists>c. sm_find (m_buffers w) k = Some c \<and> idle now (w_sbufs w c))"
    using own by (auto simp: sm.entry_iff [OF wf])
  then show ?thesis by (simp add: evict_idle_def Let_def fold_erase)
qed

text \<open>
  C29. The timer evicts exactly the idle buffers: after a tick a stream id is mapped to a
  buffer if and only if it was before and the buffer had some activity within the last 60
  seconds (by the unsigned difference of the clock values).
\<close>

theorem evict_exactly_idle:
  assumes "buffers_wf w"
  shows "(sm_find (m_buffers (evict_idle now w)) i = Some b \<longleftrightarrow>
      sm_find (m_buffers w) i = Some b \<and> now - sb_lastActivity (w_sbufs w b) \<le> 60) \<and>
    buffers_wf (evict_idle now w)"
proof -
  have wf: "sm_wf (m_buffers w)" using assms by (simp add: buffers_wf_def)
  have "sm_wf (m_buffers (evict_idle now w))"
    using wf by (simp add: evict_idle_def Let_def fold_erase_wf)
  with assms show ?thesis
    by (auto simp: buffers_wf_def evict_find [OF assms] idle_def not_less split: if_splits)
qed

text \<open>
  The tick of the timer: the completed senders leave the list and nobody else does; of
  the buffers (as the sending phase leaves them) those that were never read or written go
  as soon as the clock exceeds 60, because their last activity is 0.
\<close>

theorem onTimer_effect:
  assumes "serve_senders X w = Some v" and "m_senders v = m_senders w" and "buffers_wf v"
  shows "\<exists>w'. Server_onTimer X No_error now w = Some (True, w') \<and>
    m_senders w' = filter (\<lambda>s. \<not> z_completed X s) (m_senders w) \<and>
    (\<forall>i b. sm_find (m_buffers v) i = Some b \<and> sb_lastActivity (w_sbufs v b) = 0 \<and> now > 60 \<longrightarrow>
       sm_find (m_buffers w') i = None)"
proof -
  let ?v = "v\<lparr>m_senders := fold list_remove (filter (z_completed X) (m_senders w)) (m_senders v)\<rparr>"
  have wf: "buffers_wf ?v" using assms(3) by (simp add: buffers_wf_def)
  have "Server_onTimer X No_error now w = Some (True, evict_idle now ?v)"
    using assms(1) by (simp add: Server_onTimer_def)
  moreover have "m_senders (evict_idle now ?v) = filter (\<lambda>s. \<not> z_completed X s) (m_senders w)"
    by (auto simp: evict_idle_def Let_def fold_list_remove assms(2) intro: filter_cong)
  moreover have "sm_find (m_buffers (evict_idle now ?v)) i = None"
    if "sm_find (m_buffers v) i = Some b" "sb_lastActivity (w_sbufs v b) = 0" "now > 60" for i b
    using evict_find [OF wf] that by (simp add: idle_def)
  ultimately show ?thesis by blast
qed

end
