(* ===== verification/Fcm.thy ===== *)
theory Fcm
  imports Server_Buffers
begin

text \<open>
  Cloud messages, src/src/fcmsender.cpp: the JSON text of a message, the transfer options
  handed to libcurl, and the callbacks libcurl drives. The theorems say that the text is
  delivered byte by byte without loss however libcurl sizes its buffers, and that it
  determines the message as long as the token holds no quotation mark.
\<close>

section \<open>The message\<close>

definition fcmUrl :: string where
  "fcmUrl = ''https://fcm.googleapis.com/fcm/send''"

text \<open>The literal parts of the text; a quotation mark is \<open>CHR 0x22\<close>.\<close>

abbreviation quote :: string where
  "quote \<equiv> [CHR 0x22]"

definition json_field :: "string \<Rightarrow> string" where
  "json_field name = quote @ name @ quote @ '':''"

definition message_body :: "string \<Rightarrow> uint32 \<Rightarrow> uint32 \<Rightarrow> string" where
  "message_body token type numElements =
     ''{'' @ json_field ''to'' @ quote @ token @ quote @ '','' @
     json_field ''priority'' @ quote @ ''normal'' @ quote @ '','' @
     json_field ''data'' @ ''{'' @ json_field ''type'' @ quote @ dec (unat type) @ quote @ '','' @
     json_field ''numElements'' @ quote @ dec (unat numElements) @ quote @ ''}}''"

section \<open>Transfer\<close>

text \<open>
  \<open>WriteThis\<close>: the text from \<open>readptr\<close> on, and \<open>sizeLeft\<close>. The callbacks get the sizes as
  64-bit numbers, whose product wraps around; \<open>readCallback\<close> hands over the bytes it wrote
  to its buffer (at most one) and returns their number.
\<close>

record write_this =
  readptr :: string
  sizeLeft :: nat

definition readCallback :: "uint64 \<Rightarrow> uint64 \<Rightarrow> write_this \<Rightarrow> (uint64 \<times> string) \<times> write_this" where
  "readCallback size1 nmemb pooh =
     (if size1 * nmemb < 1 then ((0, []), pooh)
      else if sizeLeft pooh \<noteq> 0 then
        ((1, [hd (readptr pooh)]), pooh\<lparr>readptr := tl (readptr pooh), sizeLeft := sizeLeft pooh - 1\<rparr>)
      else ((0, []), pooh))"

definition writeCallback :: "uint64 \<Rightarrow> uint64 \<Rightarrow> uint64" where
  "writeCallback size1 nmemb = size1 * nmemb"

record curl_request =
  cr_url :: string
  cr_post :: bool
  cr_header :: "string list"
  cr_readdata :: write_this

text \<open>
  \<open>sendMessage\<close>: \<open>init\<close> says whether libcurl gave a handle, \<open>perform\<close> whether the transfer
  with the given options succeeded.
\<close>

definition sendMessage ::
  "string \<Rightarrow> bool \<Rightarrow> (curl_request \<Rightarrow> bool) \<Rightarrow> string \<Rightarrow> uint32 \<Rightarrow> uint32 \<Rightarrow> bool" where
  "sendMessage fcmServerKey init perform token type numElements =
     (if \<not> init then False
      else
        (let header = [''Transfer-Encoding: chunked'', ''Content-Type: application/json'',
               ''Authorization: key='' @ fcmServerKey];
             dataStr = message_body token type numElements;
             pooh = \<lparr>readptr = dataStr, sizeLeft = length dataStr\<rparr>
         in perform \<lparr>cr_url = fcmUrl, cr_post = True, cr_header = header, cr_readdata = pooh\<rparr>))"

section \<open>Decimal numbers\<close>

definition digit :: "char \<Rightarrow> bool" where
  "digit c \<longleftrightarrow> (48::nat) \<le> of_char c \<and> of_char c < (58::nat)"

definition undec :: "string \<Rightarrow> nat" where
  "undec cs = foldl (\<lambda>n c. 10 * n + (of_char c - 48)) 0 cs"

lemma undec_dec: "undec (dec n) = n"
proof (induction n rule: dec.induct)
  case (1 n)
  show ?case
  proof (cases "n < 10")
    case True
    then show ?thesis by (subst dec.simps) (simp add: undec_def)
  next
    case False
    have "undec (dec n) = 10 * undec (dec (n div 10)) + n mod 10"
      using False by (subst dec.simps) (simp add: undec_def)
    then show ?thesis using 1 False by simp
  qed
qed

lemma dec_inj: "dec m = dec n \<Longrightarrow> m = n"
  by (metis undec_dec)

lemma digit_char_of: "n < 10 \<Longrightarrow> digit (char_of (48 + n :: nat))"
  by (simp add: digit_def)

lemma dec_digits: "c \<in> set (dec n) \<Longrightarrow> digit c"
proof (induction n rule: dec.induct)
  case (1 n)
  then show ?case
    by (cases "n < 10") (auto simp: dec.simps [of n] digit_char_of)
qed

lemma dec_no_quote: "CHR 0x22 \<notin> set (dec n)"
  using dec_digits [of "CHR 0x22" n] by (auto simp: digit_def)

section \<open>The text determines the message\<close>

lemma takeWhile_mark: "takeWhile (\<lambda>x. x \<noteq> c) (xs @ c # ys) = xs \<longleftrightarrow> c \<notin> set xs"
proof
  assume "takeWhile (\<lambda>x. x \<noteq> c) (xs @ c # ys) = xs"
  then show "c \<notin> set xs" by (metis set_takeWhileD)
next
  assume "c \<notin> set xs"
  then have "\<And>x. x \<in> set xs \<Longrightarrow> x \<noteq> c" by blast
  then show "takeWhile (\<lambda>x. x \<noteq> c) (xs @ c # ys) = xs" by (simp add: takeWhile_append2)
qed

text \<open>Two texts that end in strings without a mark, after the mark, agree in both parts.\<close>

lemma split_at_last_mark:
  assumes "xs @ c # us = ys @ c # vs" and "c \<notin> set us" and "c \<notin> set vs"
  shows "xs = ys" and "us = vs"
proof -
  have "takeWhile (\<lambda>x. x \<noteq> c) (rev us @ c # rev xs) = rev us" "takeWhile (\<lambda>x. x \<noteq> c) (rev vs @ c # rev ys) = rev vs"
    using assms(2,3) by (simp_all add: takeWhile_mark)
  moreover have "rev us @ c # rev xs = rev vs @ c # rev ys"
    using arg_cong [OF assms(1), of rev] by simp
  ultimately show "us = vs" by simp
  then show "xs = ys" using assms(1) by simp
qed

lemma message_body_parts:
  "\<exists>B C. \<forall>t k n. message_body t k n =
    (((''{'' @ json_field ''to'' @ quote) @ t @ CHR 0x22 # B) @ CHR 0x22 # dec (unat k)) @ C @
      CHR 0x22 # dec (unat n) @ quote @ ''}}''"
proof (intro exI allI)
  show "message_body t k n = (((''{'' @ json_field ''to'' @ quote) @ t @ CHR 0x22 #
      ('','' @ json_field ''priority'' @ quote @ ''normal'' @ quote @ '','' @
        json_field ''data'' @ ''{'' @ json_field ''type'')) @ CHR 0x22 # dec (unat k)) @
      (quote @ '','' @ json_field ''numElements'') @ CHR 0x22 # dec (unat n) @ quote @ ''}}''" for t k n
    by (simp only: message_body_def append_assoc append_Cons append_Nil)
qed

lemma message_body_inj:
  assumes "message_body t k n = message_body t' k' n'"
  shows "t = t' \<and> k = k' \<and> n = n'"
proof -
  obtain B C where parts: "\<And>t k n. message_body t k n =
    (((''{'' @ json_field ''to'' @ quote) @ t @ CHR 0x22 # B) @ CHR 0x22 # dec (unat k)) @ C @
      CHR 0x22 # dec (unat n) @ quote @ ''}}''"
    using message_body_parts by blast
  let ?p = "\<lambda>t k. ((''{'' @ json_field ''to'' @ quote) @ t @ CHR 0x22 # B) @ CHR 0x22 # dec (unat k)"
  have "(?p t k @ C) @ CHR 0x22 # dec (unat n) = (?p t' k' @ C) @ CHR 0x22 # dec (unat n')"
    using assms unfolding parts by simp
  note n = split_at_last_mark [OF this dec_no_quote dec_no_quote]
  have k: "?p t k = ?p t' k'" using n(1) by (simp only: append_same_eq)
  note k = split_at_last_mark [OF k dec_no_quote dec_no_quote]
  have "t = t'" using k(1) by (simp only: append_same_eq same_append_eq)
  then show ?thesis using k(2) n(2) by (simp add: dec_inj word_unat_eq_iff)
qed

text \<open>
  The text sent to the cloud determines the message (token, kind and number). Its
  address field reads back as the token exactly when the token holds no quotation mark: the
  token, which the client chose, is put into the JSON text without escaping.
\<close>

theorem message_text_faithful:
  "(message_body t k n = message_body t' k' n' \<longleftrightarrow> t = t' \<and> k = k' \<and> n = n') \<and>
   (takeWhile (\<lambda>c. c \<noteq> CHR 0x22) (drop (length (''{'' @ json_field ''to'' @ quote)) (message_body t k n)) = t \<longleftrightarrow>
      CHR 0x22 \<notin> set t)"
proof
  show "message_body t k n = message_body t' k' n' \<longleftrightarrow> t = t' \<and> k = k' \<and> n = n'"
    using message_body_inj by blast
  obtain B C where parts: "message_body t k n =
    (((''{'' @ json_field ''to'' @ quote) @ t @ CHR 0x22 # B) @ CHR 0x22 # dec (unat k)) @ C @
      CHR 0x22 # dec (unat n) @ quote @ ''}}''"
    using message_body_parts by blast
  then obtain r where r: "message_body t k n = (''{'' @ json_field ''to'' @ quote) @ t @ CHR 0x22 # r"
    by simp
  have "drop (length (''{'' @ json_field ''to'' @ quote)) (message_body t k n) = t @ CHR 0x22 # r"
    unfolding r by (subst drop_append) simp
  then show "takeWhile (\<lambda>c. c \<noteq> CHR 0x22) (drop (length (''{'' @ json_field ''to'' @ quote)) (message_body t k n)) = t \<longleftrightarrow>
      CHR 0x22 \<notin> set t"
    by (simp only: takeWhile_mark)
qed

section \<open>The text is delivered\<close>

text \<open>What libcurl collects from a sequence of calls with the given buffer sizes.\<close>

fun collect :: "(uint64 \<times> uint64) list \<Rightarrow> write_this \<Rightarrow> string \<times> write_this" where
  "collect [] pooh = ([], pooh)"
| "collect ((s, n) # sizes) pooh =
     (let ((r, bytes), pooh) = readCallback s n pooh; (rest, pooh) = collect sizes pooh
      in (bytes @ rest, pooh))"

definition useful_calls :: "(uint64 \<times> uint64) list \<Rightarrow> nat" where
  "useful_calls sizes = length (filter (\<lambda>(s, n). s * n \<noteq> 0) sizes)"

lemma collect_prefix:
  "collect sizes \<lparr>readptr = body, sizeLeft = length body\<rparr> =
     (take (useful_calls sizes) body,
      \<lparr>readptr = drop (useful_calls sizes) body, sizeLeft = length body - useful_calls sizes\<rparr>)"
proof (induction sizes arbitrary: body)
  case (Cons call sizes)
  obtain s n where "call = (s, n)" by fastforce
  then show ?case
    using Cons.IH [of body] Cons.IH [of "tl body"]
    by (cases body) (auto simp: readCallback_def useful_calls_def Let_def word_less_1)
qed (simp add: useful_calls_def)

text \<open>
  C33. The request body arrives complete: \<open>sendMessage\<close> gives libcurl a source from which
  any sequence of callbacks collects a prefix of the message's text, one byte per call with
  a buffer of nonzero size, hence the whole text after enough of them; a callback with a
  buffer reports the end of the data exactly when the whole text was handed over.
\<close>

theorem message_delivered:
  "\<exists>request. (\<forall>perform. sendMessage key True perform token type n = perform request) \<and>
    (\<forall>sizes s m. s * m \<noteq> 0 \<longrightarrow>
      (let body = message_body token type n;
           (got, pooh) = collect sizes (cr_readdata request)
       in got = take (useful_calls sizes) body \<and>
          (fst (fst (readCallback s m pooh)) = 0 \<longleftrightarrow> got = body)))"
proof -
  let ?body = "message_body token type n"
  let ?request = "\<lparr>cr_url = fcmUrl, cr_post = True, cr_header = [''Transfer-Encoding: chunked'',
    ''Content-Type: application/json'', ''Authorization: key='' @ key],
    cr_readdata = \<lparr>readptr = ?body, sizeLeft = length ?body\<rparr>\<rparr>"
  have "sendMessage key True perform token type n = perform ?request" for perform
    by (simp add: sendMessage_def Let_def)
  then show ?thesis
    by (intro exI [of _ ?request]) (auto simp: collect_prefix readCallback_def word_less_1)
qed

theorem message_delivered_witness:
  "\<exists>request. (\<forall>perform. sendMessage ''key'' True perform ''ab'' 1000 3 = perform request) \<and>
    fst (collect [(1, 1), (0, 5), (1, 16)] (cr_readdata request)) = [CHR 0x7B, CHR 0x22]"
proof -
  obtain request where "\<forall>perform. sendMessage ''key'' True perform ''ab'' 1000 3 = perform request"
    and "\<forall>sizes s m. s * m \<noteq> 0 \<longrightarrow>
      (let body = message_body ''ab'' 1000 3; (got, pooh) = collect sizes (cr_readdata request)
       in got = take (useful_calls sizes) body \<and> (fst (fst (readCallback s m pooh)) = 0 \<longleftrightarrow> got = body))"
    using message_delivered [of "''key''" "''ab''" 1000 3] by blast
  moreover have two: "useful_calls [(1, 1), (0, 5), (1, 16)] = 2" by (simp add: useful_calls_def)
  from calculation(2) [rule_format, of 1 1 "[(1, 1), (0, 5), (1, 16)]"]
  have "fst (collect [(1, 1), (0, 5), (1, 16)] (cr_readdata request)) = take 2 (message_body ''ab'' 1000 3)"
    by (simp add: split_def Let_def two del: collect.simps)
  moreover have "take 2 (message_body ''ab'' 1000 3) = [CHR 0x7B, CHR 0x22]"
    by (simp add: message_body_def json_field_def)
  ultimately show ?thesis by (auto simp del: collect.simps)
qed

end
