(* ===== verification/Requests.thy ===== *)
theory Requests
  imports Server_Buffers
begin

text \<open>
  The stored requests on their way to a client: the request objects of
  src/src/request/*.cpp, \<open>ClientSession::processRequests\<close> with the callbacks it passes to
  them, \<open>getContactStatus\<close>, \<open>broadcastStatus\<close> and \<open>setConfig\<close> of src/src/session.cpp, and
  \<open>Server::processUserRequests\<close> of src/src/server.cpp, which runs as a task of the
  \<open>io_service\<close>. A request is posted to the client, and deleted from the database when the
  client reports success.
\<close>

section \<open>Request objects\<close>

text \<open>
  A request of the server: its type and id (given to the constructor of \<open>Zway::Request\<close>)
  and its head, which the constructors of the server overwrite with the data.
\<close>

record zrequest =
  rq_type :: request_type
  rq_id :: uint32
  rq_head :: ubj

definition DispatchRequest_create :: "uint32 \<Rightarrow> ubj \<Rightarrow> zrequest" where
  "DispatchRequest_create rid request = \<lparr>rq_type = Dispatch, rq_id = rid, rq_head = request\<rparr>"

definition AddContactRequest_create :: "uint32 \<Rightarrow> ubj \<Rightarrow> zrequest" where
  "AddContactRequest_create rid request = \<lparr>rq_type = AddContact, rq_id = rid, rq_head = request\<rparr>"

definition AcceptContactRequest_create :: "uint32 \<Rightarrow> ubj \<Rightarrow> zrequest" where
  "AcceptContactRequest_create rid request = \<lparr>rq_type = AcceptContact, rq_id = rid, rq_head = request\<rparr>"

definition RejectContactRequest_create :: "uint32 \<Rightarrow> ubj \<Rightarrow> zrequest" where
  "RejectContactRequest_create rid request = \<lparr>rq_type = RejectContact, rq_id = rid, rq_head = request\<rparr>"

definition PushRequest_create :: "uint32 \<Rightarrow> ubj \<Rightarrow> zrequest" where
  "PushRequest_create rid request = \<lparr>rq_type = Push, rq_id = rid, rq_head = request\<rparr>"

lemmas create_defs = DispatchRequest_create_def AddContactRequest_create_def
  AcceptContactRequest_create_def RejectContactRequest_create_def PushRequest_create_def

text \<open>
  \<open>processResponse\<close> of the five classes: the callback, if there is one, gets the head of
  the response; a push request calls it only when the status is 1.
\<close>

type_synonym 'w callback = "(ubj \<Rightarrow> 'w \<Rightarrow> 'w option) option"

definition run_callback :: "'w callback \<Rightarrow> ubj \<Rightarrow> 'w \<Rightarrow> 'w option" where
  "run_callback cb head w = (case cb of None \<Rightarrow> Some w | Some f \<Rightarrow> f head w)"

definition DispatchRequest_processResponse :: "'w callback \<Rightarrow> ubj \<Rightarrow> 'w \<Rightarrow> 'w option" where
  "DispatchRequest_processResponse m_callback head w = run_callback m_callback head w"

definition AddContactRequest_processResponse :: "'w callback \<Rightarrow> ubj \<Rightarrow> 'w \<Rightarrow> 'w option" where
  "AddContactRequest_processResponse m_callback head w = run_callback m_callback head w"

definition AcceptContactRequest_processResponse :: "'w callback \<Rightarrow> ubj \<Rightarrow> 'w \<Rightarrow> 'w option" where
  "AcceptContactRequest_processResponse m_callback head w = run_callback m_callback head w"

definition RejectContactRequest_processResponse :: "'w callback \<Rightarrow> ubj \<Rightarrow> 'w \<Rightarrow> 'w option" where
  "RejectContactRequest_processResponse m_callback head w = run_callback m_callback head w"

definition PushRequest_processResponse ::
  "('z) lib_scheme \<Rightarrow> 'w callback \<Rightarrow> ubj \<Rightarrow> 'w \<Rightarrow> 'w option" where
  "PushRequest_processResponse X m_callback head w =
     (let status = u_toInt X (u_at X head ''status'') in
      if status = 1 then run_callback m_callback head w else Some w)"

definition postRequest :: "nat \<Rightarrow> zrequest \<Rightarrow> ('db, 'm) world \<Rightarrow> ('db, 'm) world" where
  "postRequest sid r = engine sid (PostRequest (rq_type r) (rq_id r) (rq_head r))"

section \<open>Contacts and their status\<close>

definition notifies :: "('z) lib_scheme \<Rightarrow> ubj \<Rightarrow> bool" where
  "notifies X obj = u_toBool X (u_at X obj ''notifyStatus'')"

definition getContactStatus :: "('z) lib_scheme \<Rightarrow> uint32 \<Rightarrow> ('db, 'm) world \<Rightarrow> uint32" where
  "getContactStatus X contactId w =
     (if list_ex (\<lambda>s. notifies X (s_config (w_heap w s))) (Server_getSessions contactId w) then 1 else 0)"

definition status_message :: "('db, 'z) ext_scheme \<Rightarrow> uint32 \<Rightarrow> uint32 \<Rightarrow> ubj" where
  "status_message X account st =
     UBJ_OBJ X [(''requestType'', UInt32 (rt_code X ContactStatus)),
       (''contactStatus'', UArray [UBJ_OBJ X [(''contactId'', UInt32 account), (''status'', UInt32 st)]])]"

definition notify_contact ::
  "('db, 'z) ext_scheme \<Rightarrow> uint32 \<Rightarrow> uint32 \<Rightarrow> uint32 \<times> ubj \<Rightarrow> ('db, 'm) world \<Rightarrow> ('db, 'm) world" where
  "notify_contact X account st = (\<lambda>(contactId, contact) w.
     if notifies X contact then
       (let sessions = Server_getSessions contactId w in
        if sessions \<noteq> [] then
          (let obj = status_message X account st;
               (requestId, w) = next_rand X w
           in fold (\<lambda>s. engine s (AddUbjSender requestId Request obj)) sessions w)
        else w)
     else w)"

definition broadcastStatus ::
  "('db, 'z) ext_scheme \<Rightarrow> nat \<Rightarrow> uint32 \<Rightarrow> bool \<Rightarrow> ('db, 'm) world \<Rightarrow> ('db, 'm) world" where
  "broadcastStatus X sid st check w =
     (if check \<and> \<not> notifies X (s_config (w_heap w sid)) then w
      else fold (notify_contact X (accountId sid w) st) (s_contacts (w_heap w sid)) w)"

definition set_contacts :: "('z) lib_scheme \<Rightarrow> ubj \<Rightarrow> (uint32, ubj) std_map" where
  "set_contacts X config =
     fold (\<lambda>it. sm_put (u_toInt X (u_at X it ''contactId'')) it) (u_toArray X (u_at X config ''contacts'')) []"

definition setConfig ::
  "('db, 'z) ext_scheme \<Rightarrow> nat \<Rightarrow> ubj \<Rightarrow> ('db, 'm) world \<Rightarrow> (bool \<times> ('db, 'm) world) option" where
  "setConfig X sid config w = do {
     let w = (if u_hasField X config ''contacts''
              then upd_sess sid (\<lambda>s. s\<lparr>s_contacts := set_contacts X config\<rparr>) w else w);
     let newStatus = notifies X config;
     let curStatus = notifies X (s_config (w_heap w sid));
     w \<leftarrow> (if u_hasField X config ''fcmToken'' then do {
            (ok, w) \<leftarrow> onDb (DB_setFcmToken X (accountId sid w) (u_toStr X (u_at X config ''fcmToken''))) w;
            Some w }
          else Some w);
     let w = upd_sess sid (\<lambda>s. s\<lparr>s_config := config\<rparr>) w;
     let w = (if newStatus \<noteq> curStatus then broadcastStatus X sid (if newStatus then 1 else 0) False w else w);
     Some (True, w) }"

section \<open>Posting the stored requests\<close>

definition process_request ::
  "('db, 'z) ext_scheme \<Rightarrow> nat \<Rightarrow> bson_obj \<Rightarrow> ('db, 'm) world \<Rightarrow> ('db, 'm) world" where
  "process_request X sid request w =
     (let rid = b_numberInt X (b_elem X request ''id'');
          type = b_numberInt X (b_elem X request ''type'')
      in
      if e_requestPending X (calls sid w) type rid then w
      else if type = rt_code X Dispatch then
        (let data = UBJ_OBJ X [(''requestId'', UInt32 rid), (''requestType'', UInt32 type),
               (''dispatchId'', UInt32 rid),
               (''dispatchType'', UInt32 (b_numberInt X (b_elem X request ''dispatchType'')))]
         in postRequest sid (DispatchRequest_create rid data) w)
      else if type = rt_code X AddContact then
        (let data = UBJ_OBJ X [(''requestId'', UInt32 rid), (''requestType'', UInt32 type),
               (''addCode'', UStr (b_str X (b_elem X request ''addCode''))),
               (''name'', UStr (b_str X (b_elem X request ''name''))),
               (''phone'', UStr (b_str X (b_elem X request ''phone'')))]
         in postRequest sid (AddContactRequest_create rid data) w)
      else if type = rt_code X AcceptContact then
        (let src = b_numberInt X (b_elem X request ''src'');
             data = UBJ_OBJ X [(''requestId'', UInt32 rid), (''requestType'', UInt32 type),
               (''contactRequestId'', UInt32 (b_numberInt X (b_elem X request ''contactRequestId''))),
               (''contactId'', UInt32 src),
               (''contactStatus'', UInt32 (getContactStatus X src w)),
               (''name'', UStr (b_str X (b_elem X request ''name''))),
               (''phone'', UStr (b_str X (b_elem X request ''phone''))),
               (''publicKey'', bsonToUbj X (b_elem X request ''publicKey''))];
             w = upd_sess sid (\<lambda>s. s\<lparr>s_contacts := sm_put src
                   (UBJ_OBJ X [(''contactId'', UInt32 src), (''notifyStatus'', UInt32 1)]) (s_contacts s)\<rparr>) w
         in postRequest sid (AcceptContactRequest_create rid data) w)
      else if type = rt_code X RejectContact then
        (let data = UBJ_OBJ X [(''requestId'', UInt32 rid), (''requestType'', UInt32 type),
               (''contactRequestId'', UInt32 (b_numberInt X (b_elem X request ''contactRequestId'')))]
         in postRequest sid (RejectContactRequest_create rid data) w)
      else if type = rt_code X Push then
        postRequest sid (PushRequest_create rid (bsonToUbj X (b_elem X request ''data''))) w
      else w)"

definition processRequests ::
  "('db, 'z) ext_scheme \<Rightarrow> nat \<Rightarrow> ('db, 'm) world \<Rightarrow> (bool \<times> ('db, 'm) world) option" where
  "processRequests X sid w = do {
     (requests, w) \<leftarrow> onDb (DB_getRequests X [(''dst'', BNumberInt (accountId sid w))]) w;
     Some (True, fold (process_request X sid) requests w) }"

section \<open>Responses\<close>

definition delete_on_success ::
  "('db, 'z) ext_scheme \<Rightarrow> nat \<Rightarrow> uint32 \<Rightarrow> ubj \<Rightarrow> ('db, 'm) world \<Rightarrow> ('db, 'm) world option" where
  "delete_on_success X sid rid response w =
     (let status = u_toInt X (u_at X response ''status'') in
      if status = 1 then do {
        (ok, w) \<leftarrow> onDb (DB_deleteRequest X [(''id'', BNumberInt rid), (''dst'', BNumberInt (accountId sid w))]) w;
        Some w }
      else Some w)"

definition send_resource ::
  "('db, 'm, 'z) env_scheme \<Rightarrow> nat \<Rightarrow> uint32 \<Rightarrow> ('db, 'm) world \<Rightarrow> ('db, 'm) world option" where
  "send_resource X sid res w =
     (if res \<noteq> 0 then do {
        (sender, w) \<leftarrow> BSender_create X sid res w;
        (case sender of
           None \<Rightarrow> Some w
         | Some s \<Rightarrow> do {
             (added, w) \<leftarrow> addStreamSender X sid s w;
             Some (if added then Server_addStreamBufferSender s w else w) }) }
      else Some w)"

definition push_callback ::
  "('db, 'm, 'z) env_scheme \<Rightarrow> nat \<Rightarrow> uint32 \<Rightarrow> ubj \<Rightarrow> ('db, 'm) world \<Rightarrow> ('db, 'm) world option" where
  "push_callback X sid rid response w =
     (let status = u_toInt X (u_at X response ''status'') in
      if status = 1 then do {
        (ok, w) \<leftarrow> onDb (DB_deleteRequest X [(''id'', BNumberInt rid), (''dst'', BNumberInt (accountId sid w))]) w;
        for_each (u_toArray X (u_at X response ''resources''))
          (\<lambda>it. send_resource X sid (u_toInt X it)) w }
      else Some w)"

text \<open>
  The response of a client to the request \<open>(t, rid)\<close>: the engine finds the posted request
  and calls its \<open>processResponse\<close>; the request is then no longer pending.
\<close>

definition response ::
  "('db, 'm, 'z) env_scheme \<Rightarrow> nat \<Rightarrow> request_type \<Rightarrow> uint32 \<Rightarrow> ubj \<Rightarrow> ('db, 'm) world \<Rightarrow> ('db, 'm) world option" where
  "response X sid t rid head w = do {
     w \<leftarrow> (case t of
             Dispatch \<Rightarrow> DispatchRequest_processResponse (Some (delete_on_success X sid rid)) head w
           | AddContact \<Rightarrow> AddContactRequest_processResponse (Some (\<lambda>head w. Some w)) head w
           | AcceptContact \<Rightarrow> AcceptContactRequest_processResponse (Some (delete_on_success X sid rid)) head w
           | RejectContact \<Rightarrow> RejectContactRequest_processResponse (Some (delete_on_success X sid rid)) head w
           | Push \<Rightarrow> PushRequest_processResponse X (Some (push_callback X sid rid)) head w
           | _ \<Rightarrow> Some w);
     Some (engine sid (ResponseReceived t rid) w) }"

section \<open>The task that serves a user\<close>

definition Server_processUserRequests ::
  "('db, 'z) ext_scheme \<Rightarrow> uint32 \<Rightarrow> ('db, 'm) world \<Rightarrow> ('db, 'm) world option" where
  "Server_processUserRequests X userId w =
     (let sessions = Server_getSessions userId w in
      if sessions \<noteq> [] then for_each sessions (\<lambda>s w. map_option snd (processRequests X s w)) w
      else do {
        (fcmToken, w) \<leftarrow> onDb (DB_getFcmToken X userId) w;
        if fcmToken \<noteq> [] then do {
          (numContactRequests, w) \<leftarrow> onDb (DB_numContactRequests X userId) w;
          let w = (if numContactRequests > 0
                   then w\<lparr>w_fcm := w_fcm w @ [(fcmToken, 1000, numContactRequests)]\<rparr> else w);
          (numMessages, w) \<leftarrow> onDb (DB_numPushRequests X userId) w;
          let w = (if numMessages > 0
                   then w\<lparr>w_fcm := w_fcm w @ [(fcmToken, 2000, numMessages)]\<rparr> else w);
          Some w }
        else Some w })"

text \<open>A worker takes the first posted task and runs it.\<close>

definition run_task :: "('db, 'z) ext_scheme \<Rightarrow> ('db, 'm) world \<Rightarrow> ('db, 'm) world option" where
  "run_task X w =
     (case w_posted w of
        [] \<Rightarrow> Some w
      | userId # rest \<Rightarrow> Server_processUserRequests X userId (w\<lparr>w_posted := rest\<rparr>))"


section \<open>Delivery\<close>

text \<open>
  \<open>Zway::Engine::requestPending\<close>: a request is pending from the moment it is posted until
  its response arrives; the other calls do not matter.
\<close>

fun about_requests :: "engine_call \<Rightarrow> bool" where
  "about_requests (PostRequest t n v) = True"
| "about_requests (ResponseReceived t n) = True"
| "about_requests _ = False"

definition pending_laws :: "('db, 'z) ext_scheme \<Rightarrow> bool" where
  "pending_laws X \<longleftrightarrow>
     (\<forall>cs t n v c k. e_requestPending X (cs @ [PostRequest t n v]) c k \<longleftrightarrow>
        (c = rt_code X t \<and> k = n) \<or> e_requestPending X cs c k) \<and>
     (\<forall>cs t n. \<not> e_requestPending X (cs @ [ResponseReceived t n]) (rt_code X t) n) \<and>
     (\<forall>cs e c k. \<not> about_requests e \<longrightarrow> e_requestPending X (cs @ [e]) c k = e_requestPending X cs c k)"

definition delivered_type :: "('db, 'z) ext_scheme \<Rightarrow> uint32 \<Rightarrow> bool" where
  "delivered_type X c \<longleftrightarrow> c \<in> rt_code X ` {Dispatch, AddContact, AcceptContact, RejectContact, Push}"

abbreviation request_pending :: "('db, 'z) ext_scheme \<Rightarrow> nat \<Rightarrow> ('db, 'm) world \<Rightarrow> bson_obj \<Rightarrow> bool" where
  "request_pending X sid w e \<equiv> e_requestPending X (calls sid w) (doc_int X ''type'' e) (doc_int X ''id'' e)"

text \<open>
  What posting a request leaves alone: everything but the engine and the contacts of the
  session it is posted to.
\<close>

definition same_but_delivery :: "nat \<Rightarrow> ('db, 'm) world \<Rightarrow> ('db, 'm) world \<Rightarrow> bool" where
  "same_but_delivery sid w' w \<longleftrightarrow>
     (\<exists>cs ct. w' = upd_sess sid (\<lambda>s. s\<lparr>s_engine := cs, s_contacts := ct\<rparr>) w)"

lemma same_but_delivery_refl: "same_but_delivery sid w w"
  unfolding same_but_delivery_def upd_sess_def
  by (intro exI [of _ "calls sid w"] exI [of _ "s_contacts (w_heap w sid)"]) simp

lemma same_but_delivery_trans:
  assumes "same_but_delivery sid w3 w2" and "same_but_delivery sid w2 w1"
  shows "same_but_delivery sid w3 w1"
proof -
  obtain cs ct where "w3 = upd_sess sid (\<lambda>s. s\<lparr>s_engine := cs, s_contacts := ct\<rparr>) w2"
    using assms(1) unfolding same_but_delivery_def by blast
  moreover obtain cs' ct' where "w2 = upd_sess sid (\<lambda>s. s\<lparr>s_engine := cs', s_contacts := ct'\<rparr>) w1"
    using assms(2) unfolding same_but_delivery_def by blast
  ultimately have "w3 = upd_sess sid (\<lambda>s. s\<lparr>s_engine := cs, s_contacts := ct\<rparr>) w1"
    by (simp add: o_def)
  then show ?thesis unfolding same_but_delivery_def by blast
qed

lemma same_but_delivery_engine: "same_but_delivery sid (engine sid c w) w"
  unfolding same_but_delivery_def engine_def upd_sess_def
  by (intro exI [of _ "calls sid w @ [c]"] exI [of _ "s_contacts (w_heap w sid)"]) simp

lemma same_but_delivery_contacts:
  "same_but_delivery sid (upd_sess sid (\<lambda>s. s\<lparr>s_contacts := f (s_contacts s)\<rparr>) w) w"
  unfolding same_but_delivery_def upd_sess_def
  by (intro exI [of _ "calls sid w"] exI [of _ "f (s_contacts (w_heap w sid))"]) simp

lemma same_but_delivery_frame:
  assumes "same_but_delivery sid w' w"
  shows "w_dbs w' = w_dbs w" "m_sessions w' = m_sessions w" "w_posted w' = w_posted w"
    "w_fcm w' = w_fcm w" "m_buffers w' = m_buffers w" "accountId t w' = accountId t w"
    "status t w' = status t w" "s_config (w_heap w' t) = s_config (w_heap w t)"
    "t \<noteq> sid \<Longrightarrow> w_heap w' t = w_heap w t"
  using assms unfolding same_but_delivery_def by auto

lemma process_request_frame: "same_but_delivery sid (process_request X sid e w) w"
  unfolding process_request_def postRequest_def Let_def
  by (auto intro!: same_but_delivery_refl same_but_delivery_engine
      intro: same_but_delivery_trans [OF same_but_delivery_engine same_but_delivery_contacts])

lemma process_requests_frame: "same_but_delivery sid (fold (process_request X sid) es w) w"
  by (induction es arbitrary: w)
    (auto intro: same_but_delivery_refl same_but_delivery_trans [OF _ process_request_frame])

text \<open>One request: it is pending afterwards, and nothing becomes pending but it.\<close>

lemma dbs_process_requests: "w_dbs (fold (process_request X sid) es w) = w_dbs w"
  using process_requests_frame [of sid X es w] by (simp add: same_but_delivery_frame)

lemma process_request_pending:
  assumes "pending_laws X"
  shows "e_requestPending X (calls sid (process_request X sid e w)) c k \<longleftrightarrow>
    e_requestPending X (calls sid w) c k \<or>
    (c = doc_int X ''type'' e \<and> k = doc_int X ''id'' e \<and> delivered_type X c)"
  using assms unfolding pending_laws_def process_request_def postRequest_def Let_def create_defs delivered_type_def
  by auto

lemma process_request_skip:
  "request_pending X sid w e \<or> \<not> delivered_type X (doc_int X ''type'' e) \<Longrightarrow> process_request X sid e w = w"
  by (auto simp: process_request_def Let_def delivered_type_def)

lemma process_requests_pending:
  assumes "pending_laws X"
  shows "e_requestPending X (calls sid (fold (process_request X sid) es w)) c k \<longleftrightarrow>
    e_requestPending X (calls sid w) c k \<or>
    (\<exists>e \<in> set es. c = doc_int X ''type'' e \<and> k = doc_int X ''id'' e \<and> delivered_type X c)"
  by (induction es arbitrary: w) (auto simp: process_request_pending [OF assms])

lemma process_requests_skip:
  "\<forall>e \<in> set es. request_pending X sid w e \<or> \<not> delivered_type X (doc_int X ''type'' e) \<Longrightarrow>
   fold (process_request X sid) es w = w"
  by (induction es) (auto simp: process_request_skip)

lemma processRequests_mongo:
  assumes "mongo_laws X docs sat" and "db_ready w"
  obtains es w' where "processRequests X sid w =
      Some (True, fold (process_request X sid) es w')"
    and "mset es = filter_mset (sat [(''dst'', BNumberInt (accountId sid w))]) (docs (mongo w) ''zway.requests'')"
    and "w' = w\<lparr>w_dbs := w_dbs w'\<rparr>" and "docs (mongo w') = docs (mongo w)" and "db_ready w'"
proof -
  let ?q = "[(''dst'', BNumberInt (accountId sid w))]"
  obtain ds d' where *: "with_lock X (\<lambda>db. m_query X db ''zway.requests'' ?q [] 0 None) (w_dbs w) =
      Some (Some (map (project None) ds, False), d')"
    "mset ds = filter_mset (sat ?q) (docs (mongo w) ''zway.requests'')"
    "docs (db_mongo d') = docs (mongo w)" "m_connections d' \<noteq> []"
    using with_lock_query [OF assms] by metis
  show thesis
    using * by (intro that [of ds "w\<lparr>w_dbs := d'\<rparr>"]) (simp_all add: processRequests_def onDb_def DB_getRequests_def)
qed

text \<open>
  C10. Delivery is complete and not repeated: \<open>processRequests\<close> leaves every request stored
  for the session's account pending at its client (the requests of the five types the
  server forwards), and a second call, however the database orders its answer, posts
  nothing at all. Neither call changes the database or another session.
\<close>

theorem processRequests_complete_once:
  assumes "mongo_laws X docs sat" and "pending_laws X" and "db_ready w"
  shows "\<exists>w' w''. processRequests X sid w = Some (True, w') \<and>
    (\<forall>e \<in># docs (mongo w) ''zway.requests''.
       sat [(''dst'', BNumberInt (accountId sid w))] e \<longrightarrow> delivered_type X (doc_int X ''type'' e) \<longrightarrow>
       request_pending X sid w' e) \<and>
    processRequests X sid w' = Some (True, w'') \<and> w_heap w'' = w_heap w' \<and>
    docs (mongo w'') = docs (mongo w) \<and> (\<forall>t. t \<noteq> sid \<longrightarrow> w_heap w'' t = w_heap w t)"
proof -
  let ?q = "[(''dst'', BNumberInt (accountId sid w))]"
  obtain es w1 where es: "processRequests X sid w = Some (True, fold (process_request X sid) es w1)"
    "mset es = filter_mset (sat ?q) (docs (mongo w) ''zway.requests'')"
    "w1 = w\<lparr>w_dbs := w_dbs w1\<rparr>" "docs (mongo w1) = docs (mongo w)" "db_ready w1"
    using processRequests_mongo [OF assms(1,3)] by metis
  define w' where "w' = fold (process_request X sid) es w1"
  note frame = same_but_delivery_frame [OF process_requests_frame [of sid X es w1], folded w'_def]
  have heap1: "w_heap w1 = w_heap w" by (subst es(3)) simp
  have pend: "request_pending X sid w' e"
    if "e \<in># docs (mongo w) ''zway.requests''" "sat ?q e" "delivered_type X (doc_int X ''type'' e)" for e
  proof -
    have "e \<in> set es" using that(1,2) set_of_mset_filter [OF es(2)] by simp
    then show ?thesis
      using that(3) by (auto simp: w'_def process_requests_pending [OF assms(2)])
  qed
  have ready: "db_ready w'" using frame(1) es(5) by simp
  obtain fs w2 where fs: "processRequests X sid w' = Some (True, fold (process_request X sid) fs w2)"
    "mset fs = filter_mset (sat [(''dst'', BNumberInt (accountId sid w'))]) (docs (mongo w') ''zway.requests'')"
    "w2 = w'\<lparr>w_dbs := w_dbs w2\<rparr>" "docs (mongo w2) = docs (mongo w')"
    using processRequests_mongo [OF assms(1) ready] by metis
  have heap2: "w_heap w2 = w_heap w'" by (subst fs(3)) simp
  have "accountId sid w' = accountId sid w" using frame(6) heap1 by simp
  then have "set fs \<subseteq> {e. e \<in># docs (mongo w) ''zway.requests'' \<and> sat ?q e}"
    using set_of_mset_filter [OF fs(2)] frame(1) es(4) by auto
  then have "fold (process_request X sid) fs w2 = w2"
    using pend by (intro process_requests_skip) (auto simp: heap2)
  then have second: "processRequests X sid w' = Some (True, w2)" using fs(1) by simp
  have "w_heap w2 t = w_heap w t" if "t \<noteq> sid" for t
    using frame(9) [OF that] heap1 heap2 by simp
  moreover have "docs (mongo w2) = docs (mongo w)" using fs(4) frame(1) es(4) by simp
  ultimately show ?thesis
    using es(1) [folded w'_def] second heap2 pend by blast
qed

end
