(* ===== verification/Delivery.thy ===== *)
theory Delivery
  imports Requests
begin

text \<open>
  Properties of the delivery of stored requests that rest on the contracts of the database
  and of the registry: what a response does, who gets a status message, and what the task
  \<open>Server::processUserRequests\<close> does for a user who is connected and for one who is not.
\<close>

section \<open>Responses\<close>

abbreviation request_key :: "uint32 \<Rightarrow> uint32 \<Rightarrow> bson_obj" where
  "request_key rid dst \<equiv> [(''id'', BNumberInt rid), (''dst'', BNumberInt dst)]"

lemma onDb_deleteRequest:
  assumes "mongo_laws X docs sat" and "db_ready w"
  obtains d' D' where "onDb (DB_deleteRequest X q) w = Some (True, w\<lparr>w_dbs := d'\<rparr>)" and "m_connections d' \<noteq> []"
    and "deleted sat q (docs (mongo w) ''zway.requests'') D'"
    and "docs (db_mongo d') = (docs (mongo w))(''zway.requests'' := D')"
  by (rule DB_deleteRequest_mongo [OF assms, of q]) (auto intro: that onDb_eqI)


section \<open>Status messages\<close>

lemma engine_fold:
  "distinct l \<Longrightarrow> w_heap (fold (\<lambda>s. engine s c) l w) t =
    (if t \<in> set l then (w_heap w t)\<lparr>s_engine := calls t w @ [c]\<rparr> else w_heap w t)"
  by (induction l arbitrary: w) auto

lemma engine_fold_frame [simp]:
  "m_sessions (fold (\<lambda>s. engine s c) l w) = m_sessions w"
  "w_dbs (fold (\<lambda>s. engine s c) l w) = w_dbs w"
  "w_posted (fold (\<lambda>s. engine s c) l w) = w_posted w"
  by (induction l arbitrary: w) auto

lemma next_rand_simps [simp]:
  "w_heap (snd (next_rand X w)) = w_heap w" "m_sessions (snd (next_rand X w)) = m_sessions w"
  "w_dbs (snd (next_rand X w)) = w_dbs w" "w_posted (snd (next_rand X w)) = w_posted w"
  by (simp_all add: next_rand_def)

lemma notify_contact_frame [simp]:
  "m_sessions (notify_contact X a st c w) = m_sessions w"
  "w_dbs (notify_contact X a st c w) = w_dbs w"
  "w_posted (notify_contact X a st c w) = w_posted w"
  by (simp_all add: notify_contact_def Let_def split_def)

lemma notify_contact_heap:
  assumes "reg_wf w"
  shows "\<exists>r. w_heap (notify_contact X a st (k, c) w) t = (w_heap w t)\<lparr>s_engine := calls t w @
     (if notifies X c \<and> t \<in> set (Server_getSessions k w)
      then [AddUbjSender r Request (status_message X a st)] else [])\<rparr>"
  using reg_wf_getSessions(1) [OF assms, of k]
  by (auto simp: notify_contact_def Let_def split_def engine_fold)

lemma notify_contact_wf: "reg_wf w \<Longrightarrow> reg_wf (notify_contact X a st c w)"
proof (rule reg_wf_upd)
  assume "reg_wf w"
  then show "accountId t (notify_contact X a st c w) = accountId t w" for t
    using notify_contact_heap [of w X a st "fst c" "snd c" t] by auto
qed simp_all

lemma notify_all_heap:
  assumes "reg_wf w" and "distinct (map fst cs)"
  shows "\<exists>r. w_heap (fold (notify_contact X a st) cs w) t = (w_heap w t)\<lparr>s_engine := calls t w @
     (if \<exists>(k, c) \<in> set cs. notifies X c \<and> t \<in> set (Server_getSessions k w)
      then [AddUbjSender r Request (status_message X a st)] else [])\<rparr>"
  using assms
proof (induction cs arbitrary: w)
  case (Cons e cs)
  obtain k c where e: "e = (k, c)" by fastforce
  let ?w = "notify_contact X a st e w"
  have same: "Server_getSessions k ?w = Server_getSessions k w" for k
    by (rule getSessions_cong) simp
  obtain r1 where r1: "w_heap ?w t = (w_heap w t)\<lparr>s_engine := calls t w @
     (if notifies X c \<and> t \<in> set (Server_getSessions k w)
      then [AddUbjSender r1 Request (status_message X a st)] else [])\<rparr>"
    using notify_contact_heap [OF Cons.prems(1)] unfolding e by blast
  obtain r2 where r2: "w_heap (fold (notify_contact X a st) cs ?w) t = (w_heap ?w t)\<lparr>s_engine := calls t ?w @
     (if \<exists>(k, c) \<in> set cs. notifies X c \<and> t \<in> set (Server_getSessions k w)
      then [AddUbjSender r2 Request (status_message X a st)] else [])\<rparr>"
    using Cons.IH [OF notify_contact_wf [OF Cons.prems(1), of X a st e]] Cons.prems(2) unfolding same by auto
  have "\<not> (\<exists>(k', c) \<in> set cs. notifies X c \<and> t \<in> set (Server_getSessions k' w))"
    if "t \<in> set (Server_getSessions k w)"
  proof
    assume "\<exists>(k', c) \<in> set cs. notifies X c \<and> t \<in> set (Server_getSessions k' w)"
    then obtain k' c' where "(k', c') \<in> set cs" "t \<in> set (Server_getSessions k' w)" by auto
    moreover from this that have "k' = k"
      using reg_wf_getSessions(2) [OF Cons.prems(1)] by metis
    ultimately have "k \<in> fst ` set cs" by force
    with Cons.prems(2) e show False by simp
  qed
  then show ?case
    using r1 r2 by (cases "notifies X c \<and> t \<in> set (Server_getSessions k w)") (auto simp: e)
qed simp

text \<open>
  C17. A status broadcast reaches every session of every contact that asked for it, once, and
  nobody else: a session gets exactly one message when it is registered under the account
  of a contact with the notify flag, and its engine is left alone otherwise.
\<close>

theorem broadcast_exactly_once:
  assumes "reg_wf w" and "sm_wf (s_contacts (w_heap w sid))"
    and "check \<longrightarrow> notifies X (s_config (w_heap w sid))"
  shows "\<exists>r. w_heap (broadcastStatus X sid st check w) t = (w_heap w t)\<lparr>s_engine := calls t w @
    (if registered t w \<and> (\<exists>c. sm_find (s_contacts (w_heap w sid)) (accountId t w) = Some c \<and> notifies X c)
     then [AddUbjSender r Request (status_message X (accountId sid w) st)] else [])\<rparr>"
proof -
  let ?cs = "s_contacts (w_heap w sid)"
  have own: "t \<in> set (Server_getSessions k w) \<longleftrightarrow> registered t w \<and> accountId t w = k" for k
    using reg_wf_getSessions(2) [OF assms(1)] registered_iff [OF assms(1)] by (auto simp: registered_def)
  have "(\<exists>(k, c) \<in> set ?cs. notifies X c \<and> t \<in> set (Server_getSessions k w)) \<longleftrightarrow>
      registered t w \<and> (\<exists>c. sm_find ?cs (accountId t w) = Some c \<and> notifies X c)"
    unfolding own by (auto simp: sm.entry_iff [OF assms(2)])
  then show ?thesis
    using notify_all_heap [OF assms(1) sm_wf_distinct [OF assms(2)], of X "accountId sid w" st t] assms(3)
    by (auto simp: broadcastStatus_def)
qed

section \<open>The task that serves a user\<close>

lemma with_lock_count:
  assumes "mongo_laws X docs sat" and "m_connections d \<noteq> []"
  obtains d' where "with_lock X (\<lambda>db. m_count X db ns q) d =
      Some (Some (of_nat (size (filter_mset (sat q) (docs (db_mongo d) ns)))), d')"
    and "docs (db_mongo d') = docs (db_mongo d)" and "m_connections d' \<noteq> []"
proof -
  obtain d' where "with_lock X (\<lambda>db. m_count X db ns q) d = Some (fst (m_count X (db_mongo d) ns q), d')"
    and "db_mongo d' = snd (m_count X (db_mongo d) ns q)" and "m_connections d' \<noteq> []"
    using with_lock_ready [OF assms(2)] by blast
  then show thesis
    by (intro that [of d']) (simp_all add: mongo_lawsD [OF assms(1)])
qed

text \<open>The requests of one type stored for a user, counted in 32 bits.\<close>

definition num_stored ::
  "('db \<Rightarrow> string \<Rightarrow> bson_obj multiset) \<Rightarrow> (bson_obj \<Rightarrow> bson_obj \<Rightarrow> bool) \<Rightarrow> uint32 \<Rightarrow> uint32
     \<Rightarrow> ('db, 'm) world \<Rightarrow> uint32" where
  "num_stored docs sat type user w =
     of_nat (size (filter_mset (sat [(''dst'', BNumberInt user), (''type'', BNumberInt type)])
       (docs (mongo w) ''zway.requests'')))"

lemma ucast_of_nat_64: "(ucast (of_nat n :: uint64) :: uint32) = of_nat n"
  by (rule bit_word_eqI) (simp add: bit_simps)

lemma onDb_num:
  assumes "mongo_laws X docs sat" and "db_ready w"
  obtains d' where "onDb (DB_numContactRequests X u) w = Some (num_stored docs sat 3100 u w, w\<lparr>w_dbs := d'\<rparr>)"
      and "docs (db_mongo d') = docs (mongo w)" and "m_connections d' \<noteq> []"
  by (rule with_lock_count [OF assms, of "''zway.requests''" "[(''dst'', BNumberInt u), (''type'', BNumberInt 3100)]"])
    (auto intro!: that simp: onDb_def DB_numContactRequests_def num_stored_def ucast_of_nat_64)

lemma onDb_numPush:
  assumes "mongo_laws X docs sat" and "db_ready w"
  obtains d' where "onDb (DB_numPushRequests X u) w = Some (num_stored docs sat 4100 u w, w\<lparr>w_dbs := d'\<rparr>)"
      and "docs (db_mongo d') = docs (mongo w)" and "m_connections d' \<noteq> []"
  by (rule with_lock_count [OF assms, of "''zway.requests''" "[(''dst'', BNumberInt u), (''type'', BNumberInt 4100)]"])
    (auto intro!: that simp: onDb_def DB_numPushRequests_def num_stored_def ucast_of_nat_64)


text \<open>
  C12. A user without a session is notified through the cloud: when the account has a
  token, one message per kind of request that is stored for the user, with the number of
  them (contact requests first), and none for a kind that has no request; no session and
  no stored request changes.
\<close>

theorem offline_user_notified:
  assumes "mongo_laws X docs sat" and "db_ready w" and "Server_getSessions u w = []"
    and "DB_getFcmToken X u (w_dbs w) = Some (token, d)" and "token \<noteq> []"
  shows "\<exists>w'. Server_processUserRequests X u w = Some w' \<and>
    w_fcm w' = w_fcm w @ filter (\<lambda>(_, _, n). n > 0)
      [(token, 1000, num_stored docs sat 3100 u w), (token, 2000, num_stored docs sat 4100 u w)] \<and>
    w_heap w' = w_heap w \<and> docs (mongo w') = docs (mongo w)"
proof -
  let ?w = "w\<lparr>w_dbs := d\<rparr>"
  obtain d0 where d0: "docs (db_mongo d0) = docs (mongo w)" "m_connections d0 \<noteq> []" and "d0 = d"
  proof -
    obtain ds d' where "with_lock X (\<lambda>db. m_query X db ''zway.accounts''
        [(''id'', BNumberInt u)] [] 0 (Some [(''fcmToken'', BNumberInt 1)])) (w_dbs w) =
        Some (Some (map (project (Some [(''fcmToken'', BNumberInt 1)])) ds, False), d')"
      and *: "docs (db_mongo d') = docs (mongo w)" "m_connections d' \<noteq> []"
      using with_lock_query [OF assms(1,2)] by metis
    with assms(4) have "d' = d"
      by (auto simp: DB_getFcmToken_def split: list.splits option.splits)
    with * show thesis by (intro that) auto
  qed
  have ready: "db_ready ?w" using d0 \<open>d0 = d\<close> by simp
  have same: "num_stored docs sat c u ?w = num_stored docs sat c u w" for c
    using d0 \<open>d0 = d\<close> by (simp add: num_stored_def)
  obtain d1 where d1: "onDb (DB_numContactRequests X u) ?w =
      Some (num_stored docs sat 3100 u w, ?w\<lparr>w_dbs := d1\<rparr>)"
    "docs (db_mongo d1) = docs (mongo w)" "m_connections d1 \<noteq> []"
    using onDb_num [OF assms(1) ready, of u] d0 \<open>d0 = d\<close> same by auto
  let ?c = "num_stored docs sat 3100 u w"
  define v where "v = (if ?c > 0 then ?w\<lparr>w_dbs := d1, w_fcm := w_fcm w @ [(token, 1000, ?c)]\<rparr> else ?w\<lparr>w_dbs := d1\<rparr>)"
  have v: "w_dbs v = d1" "w_heap v = w_heap w" "w_fcm v = w_fcm w @ filter (\<lambda>(_, _, n). n > 0) [(token, 1000, ?c)]"
    by (simp_all add: v_def)
  have "num_stored docs sat 4100 u v = num_stored docs sat 4100 u w"
    using d1(2) v(1) by (simp add: num_stored_def)
  then obtain d2 where d2: "onDb (DB_numPushRequests X u) v =
      Some (num_stored docs sat 4100 u w, v\<lparr>w_dbs := d2\<rparr>)"
    "docs (db_mongo d2) = docs (mongo w)"
    using onDb_numPush [OF assms(1), of v u] d1 v(1) by auto
  have "Server_processUserRequests X u w =
      Some (if num_stored docs sat 4100 u w > 0
        then v\<lparr>w_dbs := d2, w_fcm := w_fcm v @ [(token, 2000, num_stored docs sat 4100 u w)]\<rparr>
        else v\<lparr>w_dbs := d2\<rparr>)"
    using assms(3,5) d1(1) d2(1) onDb_eqI [of "DB_getFcmToken X u" w, OF assms(4)]
    by (cases "?c > 0") (simp_all add: Server_processUserRequests_def v_def)
  with v d2(2) show ?thesis by auto
qed

lemma pending_mono:
  assumes "pending_laws X" and "mongo_laws X docs sat" and "db_ready w" and "processRequests X s w = Some (r, w')"
    and "request_pending X t w e"
  shows "request_pending X t w' e"
proof -
  obtain es w1 where es: "processRequests X s w = Some (True, fold (process_request X s) es w1)"
    "w1 = w\<lparr>w_dbs := w_dbs w1\<rparr>"
    using processRequests_mongo [OF assms(2,3), of s] by metis
  have heap: "w_heap w1 = w_heap w" by (subst es(2)) simp
  have w': "w' = fold (process_request X s) es w1" using es(1) assms(4) by simp
  show ?thesis
  proof (cases "t = s")
    case True
    with assms(5) show ?thesis by (simp add: w' process_requests_pending [OF assms(1)] heap)
  next
    case False
    then have "w_heap w' t = w_heap w t"
      using same_but_delivery_frame(9) [OF process_requests_frame, of t s X es w1] by (simp add: w' heap)
    with assms(5) show ?thesis by simp
  qed
qed

lemma serve_sessions:
  assumes "mongo_laws X docs sat" and "pending_laws X" and "db_ready w"
    and "\<forall>s \<in> set l. accountId s w = u"
  shows "\<exists>w'. for_each l (\<lambda>s w. map_option snd (processRequests X s w)) w = Some w' \<and>
    docs (mongo w') = docs (mongo w) \<and> w_fcm w' = w_fcm w \<and> m_sessions w' = m_sessions w \<and>
    w_posted w' = w_posted w \<and>
    (\<forall>t. t \<notin> set l \<longrightarrow> w_heap w' t = w_heap w t) \<and>
    (\<forall>t e. request_pending X t w e \<longrightarrow> request_pending X t w' e) \<and>
    (\<forall>s \<in> set l. \<forall>e \<in># docs (mongo w) ''zway.requests''. sat [(''dst'', BNumberInt u)] e \<longrightarrow>
       delivered_type X (doc_int X ''type'' e) \<longrightarrow> request_pending X s w' e)"
  using assms(3,4)
proof (induction l arbitrary: w)
  case (Cons s l)
  obtain es w1 where es: "processRequests X s w = Some (True, fold (process_request X s) es w1)"
    "mset es = filter_mset (sat [(''dst'', BNumberInt (accountId s w))]) (docs (mongo w) ''zway.requests'')"
    "w1 = w\<lparr>w_dbs := w_dbs w1\<rparr>" "docs (mongo w1) = docs (mongo w)" "db_ready w1"
    using processRequests_mongo [OF assms(1) Cons.prems(1), of s] by metis
  define w' where "w' = fold (process_request X s) es w1"
  note frame = same_but_delivery_frame [OF process_requests_frame [of s X es w1], folded w'_def]
  have eqs: "w_heap w1 = w_heap w" "w_fcm w1 = w_fcm w" "m_sessions w1 = m_sessions w" "w_posted w1 = w_posted w"
    by (subst es(3), simp)+
  have step: "processRequests X s w = Some (True, w')" using es(1) w'_def by simp
  note mono = pending_mono [OF assms(2,1) Cons.prems(1) step]
  have here: "request_pending X s w' e" if "e \<in># docs (mongo w) ''zway.requests''"
    "sat [(''dst'', BNumberInt u)] e" "delivered_type X (doc_int X ''type'' e)" for e
  proof -
    have "e \<in> set es" using that(1,2) set_of_mset_filter [OF es(2)] Cons.prems(2) by simp
    then show ?thesis
      using that(3) by (auto simp: w'_def process_requests_pending [OF assms(2)])
  qed
  have "db_ready w'" "\<forall>s \<in> set l. accountId s w' = u"
    using frame(1,6) es(5) eqs Cons.prems(2) by simp_all
  from Cons.IH [OF this] obtain w2 where w2:
    "for_each l (\<lambda>s w. map_option snd (processRequests X s w)) w' = Some w2"
    "docs (mongo w2) = docs (mongo w')" "w_fcm w2 = w_fcm w'" "m_sessions w2 = m_sessions w'"
    "w_posted w2 = w_posted w'" "\<And>t. t \<notin> set l \<Longrightarrow> w_heap w2 t = w_heap w' t"
    "\<And>t e. request_pending X t w' e \<Longrightarrow> request_pending X t w2 e"
    "\<And>s e. s \<in> set l \<Longrightarrow> e \<in># docs (mongo w') ''zway.requests'' \<Longrightarrow> sat [(''dst'', BNumberInt u)] e \<Longrightarrow>
       delivered_type X (doc_int X ''type'' e) \<Longrightarrow> request_pending X s w2 e" by blast
  have "for_each (s # l) (\<lambda>s w. map_option snd (processRequests X s w)) w = Some w2"
    using step w2(1) by simp
  moreover have "docs (mongo w2) = docs (mongo w)" "docs (mongo w') = docs (mongo w)"
    using w2(2) frame(1) es(4) by simp_all
  moreover have "w_fcm w2 = w_fcm w" "m_sessions w2 = m_sessions w" "w_posted w2 = w_posted w"
    using w2(3,4,5) frame eqs by simp_all
  moreover have "w_heap w2 t = w_heap w t" if "t \<notin> set (s # l)" for t
    using w2(6) frame(9) eqs that by simp
  ultimately show ?case
    using w2(7,8) mono here by (intro exI [of _ w2]) auto
qed simp

text \<open>
  C11. A user with sessions is served on every one of them: after the task each session of
  the user has every request stored for the user pending at its client, no cloud message
  is sent, and no session of anybody else is touched.
\<close>

theorem online_user_served:
  assumes "mongo_laws X docs sat" and "pending_laws X" and "db_ready w" and "reg_wf w"
    and "Server_getSessions u w \<noteq> []"
  shows "\<exists>w'. Server_processUserRequests X u w = Some w' \<and> w_fcm w' = w_fcm w \<and>
    docs (mongo w') = docs (mongo w) \<and>
    (\<forall>t. t \<notin> set (Server_getSessions u w) \<longrightarrow> w_heap w' t = w_heap w t) \<and>
    (\<forall>s \<in> set (Server_getSessions u w). \<forall>e \<in># docs (mongo w) ''zway.requests''.
       sat [(''dst'', BNumberInt u)] e \<longrightarrow> delivered_type X (doc_int X ''type'' e) \<longrightarrow>
       request_pending X s w' e)"
proof -
  have "\<forall>s \<in> set (Server_getSessions u w). accountId s w = u"
    using reg_wf_getSessions(2) [OF assms(4)] by blast
  from serve_sessions [OF assms(1,2,3) this] assms(5) show ?thesis
    unfolding Server_processUserRequests_def Let_def by auto
qed

end
