(* ===== verification/Handlers.thy ===== *)
theory Handlers
  imports Delivery
begin

text \<open>
  The request handlers of a session, src/src/session.cpp: one definition per handler, with
  its checks in the order of the source and every call on the database, the registry and
  the engine. The result is what the handler returns (true or false) and the new state;
  \<^const>\<open>None\<close> is an exception that leaves the handler or an invalid memory access.
\<close>

abbreviation at_int :: "('z) lib_scheme \<Rightarrow> ubj \<Rightarrow> string \<Rightarrow> uint32" where
  "at_int X v k \<equiv> u_toInt X (u_at X v k)"

abbreviation at_str :: "('z) lib_scheme \<Rightarrow> ubj \<Rightarrow> string \<Rightarrow> string" where
  "at_str X v k \<equiv> u_toStr X (u_at X v k)"

abbreviation not_permitted :: "nat \<Rightarrow> uint32 \<Rightarrow> ('db, 'm) world \<Rightarrow> (bool \<times> ('db, 'm) world) option" where
  "not_permitted sid rid w \<equiv> Some (False, postRequestFailure sid rid 0 ''Operation not permitted'' w)"

abbreviation failure ::
  "nat \<Rightarrow> uint32 \<Rightarrow> uint32 \<Rightarrow> string \<Rightarrow> ('db, 'm) world \<Rightarrow> (bool \<times> ('db, 'm) world) option" where
  "failure sid rid code msg w \<equiv> Some (False, postRequestFailure sid rid code msg w)"

section \<open>Accounts\<close>

definition processDispatchRequest ::
  "('db, 'z) ext_scheme \<Rightarrow> nat \<Rightarrow> ubj \<Rightarrow> ('db, 'm) world \<Rightarrow> (bool \<times> ('db, 'm) world) option" where
  "processDispatchRequest X sid head w =
     (let requestId = at_int X head ''requestId'' in
      if status sid w < STATUS_LOGGEDIN then not_permitted sid requestId w
      else if u_hasField X head ''dispatchId'' then do {
        let query = [(''id'', BNumberInt (at_int X head ''dispatchId'')),
              (''$or'', BArray (b_mkArray X [BObject [(''src'', BNumberInt (accountId sid w))],
                                             BObject [(''dst'', BNumberInt (accountId sid w))]]))];
        (deleted, w) \<leftarrow> onDb (DB_deleteRequest X query) w;
        if \<not> deleted then failure sid requestId 0 ''invalid data'' w
        else Some (True, postRequestSuccess sid requestId (UObject []) w) }
      else Some (False, w))"

definition processCreateAccount ::
  "('db, 'z) ext_scheme \<Rightarrow> nat \<Rightarrow> ubj \<Rightarrow> ('db, 'm) world \<Rightarrow> (bool \<times> ('db, 'm) world) option" where
  "processCreateAccount X sid head w =
     (let requestId = at_int X head ''requestId'' in
      if status sid w \<ge> STATUS_LOGGEDIN then not_permitted sid requestId w
      else if \<not> u_hasField X head ''name'' \<or> at_str X head ''name'' = [] then
        failure sid requestId 0 ''Missing field: name'' w
      else if \<not> u_hasField X head ''password'' \<or> u_bufferSize X (u_at X head ''password'') \<noteq> 32 then
        failure sid requestId 0 ''Missing field: password'' w
      else do {
        (account, w) \<leftarrow> onDb (DB_getAccount X
           [(''name'', BObject [(''$regex'', BString (at_str X head ''name'')), (''$options'', BString ''i'')])]
           [(''id'', BNumberInt 1)]) w;
        if account \<noteq> None then failure sid requestId 0 ''Invalid account name'' w
        else do {
          (newId, w) \<leftarrow> onDb (DB_newAccountId X) w;
          case sha_Init X of
            None \<Rightarrow> Some (False, w)
          | Some ctx \<Rightarrow> do {
              buf \<leftarrow> u_buffer X (u_at X head ''password'');
              password \<leftarrow> z_bufferCreate X buf;
              case sha_Update X ctx password of
                None \<Rightarrow> Some (False, w)
              | Some ctx \<Rightarrow> do {
                  saltBuf \<leftarrow> z_bufferCreate X (replicate 32 0);
                  let (salt, w) = next_rand_bytes X (length saltBuf) w;
                  (case sha_Update X ctx salt of
                    None \<Rightarrow> Some (False, w)
                  | Some ctx \<Rightarrow> do {
                      passBuf \<leftarrow> z_bufferCreate X (replicate 32 0);
                      (case sha_Final X ctx of
                        None \<Rightarrow> Some (False, w)
                      | Some pass \<Rightarrow> do {
                          (inserted, w) \<leftarrow> onDb (DB_insertAccount X newId
                             (at_str X head ''name'') (at_str X head ''phone'')
                             (u_toBool X (u_at X head ''findByName'')) (u_toBool X (u_at X head ''findByPhone''))
                             pass salt) w;
                          if \<not> inserted then failure sid requestId 0 ''Failed to create account'' w
                          else Some (True, postRequestSuccess sid requestId
                                 (UBJ_OBJ X [(''accountId'', UInt32 newId)]) w) }) }) } } } })"

text \<open>
  \<open>verifyPassword\<close>. A null password buffer is dereferenced; \<open>memcmp\<close> compares \<open>passLen\<close>
  bytes, whatever length the stored value has, with the 32 bytes of the digest.
\<close>

definition verifyPassword :: "('db, 'z) ext_scheme \<Rightarrow> bson_obj \<Rightarrow> bytes option \<Rightarrow> bool option" where
  "verifyPassword X account password =
     (let saltData = b_binData X (b_elem X account ''salt'');
          passData = b_binData X (b_elem X account ''pass'')
      in case sha_Init X of
           None \<Rightarrow> Some False
         | Some ctx \<Rightarrow> do {
             password \<leftarrow> password;
             case sha_Update X ctx password of
               None \<Rightarrow> Some False
             | Some ctx \<Rightarrow>
                 (case sha_Update X ctx saltData of
                    None \<Rightarrow> Some False
                  | Some ctx \<Rightarrow>
                      (case z_bufferCreate X (replicate 32 0) of
                         None \<Rightarrow> Some False
                       | Some _ \<Rightarrow>
                           (case sha_Final X ctx of
                              None \<Rightarrow> Some False
                            | Some digest \<Rightarrow>
                                if length passData > length digest then None
                                else Some (take (length passData) digest = passData)))) })"

definition contact_status_list :: "('z) lib_scheme \<Rightarrow> nat \<Rightarrow> ('db, 'm) world \<Rightarrow> ubj" where
  "contact_status_list X sid w =
     UArray (map (\<lambda>(contactId, c). UBJ_OBJ X [(''contactId'', UInt32 contactId),
        (''status'', UInt32 (getContactStatus X contactId w))]) (s_contacts (w_heap w sid)))"

text \<open>\<open>processLogin\<close>, from the line after the verification of the password.\<close>

definition login_accepted ::
  "('db, 'z) ext_scheme \<Rightarrow> nat \<Rightarrow> ubj \<Rightarrow> uint32 \<Rightarrow> ('db, 'm) world \<Rightarrow> (bool \<times> ('db, 'm) world) option" where
  "login_accepted X sid head newAccount w = do {
     let requestId = at_int X head ''requestId'';
     let w = setStatus sid STATUS_LOGGEDIN w;
     let w = Server_removeSession sid w;
     let w = upd_sess sid (\<lambda>s. s\<lparr>s_accountId := newAccount\<rparr>) w;
     let w = Server_appendSession sid w;
     w \<leftarrow> (if u_hasField X head ''config''
           then map_option snd (setConfig X sid (u_at X head ''config'') w) else Some w);
     let contactStatus = contact_status_list X sid w;
     ((_, inbox), w) \<leftarrow> onDb (DB_getInbox X (UArray []) newAccount) w;
     let w = postRequestSuccess sid requestId
        (UBJ_OBJ X [(''contactStatus'', contactStatus), (''inbox'', inbox)]) w;
     (_, w) \<leftarrow> processRequests X sid w;
     Some (True, w) }"

definition processLogin ::
  "('db, 'z) ext_scheme \<Rightarrow> nat \<Rightarrow> ubj \<Rightarrow> ('db, 'm) world \<Rightarrow> (bool \<times> ('db, 'm) world) option" where
  "processLogin X sid head w =
     (let requestId = at_int X head ''requestId'' in
      if status sid w \<ge> STATUS_LOGGEDIN then not_permitted sid requestId w
      else if \<not> u_hasField X head ''account'' then failure sid requestId 0 ''account missing'' w
      else if \<not> u_hasField X head ''password'' then failure sid requestId 0 ''password missing'' w
      else do {
        let newAccount = at_int X head ''account'';
        (account, w) \<leftarrow> onDb (DB_getAccount X [(''id'', BNumberInt newAccount)]
           [(''pass'', BNumberInt 1), (''salt'', BNumberInt 1)]) w;
        case account of
          None \<Rightarrow> failure sid requestId 0 ''Invalid account id'' w
        | Some account \<Rightarrow> do {
            ok \<leftarrow> verifyPassword X account (u_buffer X (u_at X head ''password''));
            if \<not> ok then failure sid requestId 0 ''login failed'' w
            else login_accepted X sid head newAccount w } })"

definition processLogout ::
  "('db, 'z) ext_scheme \<Rightarrow> nat \<Rightarrow> ubj \<Rightarrow> ('db, 'm) world \<Rightarrow> (bool \<times> ('db, 'm) world) option" where
  "processLogout X sid head w =
     (let requestId = at_int X head ''requestId'' in
      if status sid w < STATUS_LOGGEDIN then not_permitted sid requestId w
      else do {
        let w = postRequestSuccess sid requestId (UObject []) w;
        (_, w) \<leftarrow> onDb (DB_setFcmToken X (accountId sid w) []) w;
        let w = setStatus sid STATUS_CONNECTED w;
        let w = broadcastStatus X sid 0 True w;
        Some (True, w) })"

definition processConfigRequest ::
  "('db, 'z) ext_scheme \<Rightarrow> nat \<Rightarrow> ubj \<Rightarrow> ('db, 'm) world \<Rightarrow> (bool \<times> ('db, 'm) world) option" where
  "processConfigRequest X sid head w =
     (let requestId = at_int X head ''requestId'' in
      if status sid w < STATUS_LOGGEDIN then not_permitted sid requestId w
      else do {
        (ok, w) \<leftarrow> (if u_hasField X head ''config'' then setConfig X sid (u_at X head ''config'') w
                    else Some (True, w));
        if \<not> ok then failure sid requestId 0 ''failure'' w
        else Some (True, postRequestSuccess sid requestId (UObject []) w) })"

section \<open>Contacts\<close>

definition processContactStatusRequest ::
  "('db, 'z) ext_scheme \<Rightarrow> nat \<Rightarrow> ubj \<Rightarrow> ('db, 'm) world \<Rightarrow> (bool \<times> ('db, 'm) world) option" where
  "processContactStatusRequest X sid head w =
     (let requestId = at_int X head ''requestId'' in
      if status sid w < STATUS_LOGGEDIN then not_permitted sid requestId w
      else Some (True, postRequestSuccess sid requestId
             (UBJ_OBJ X [(''contactStatus'', contact_status_list X sid w)]) w))"

definition processFindContactRequest ::
  "('db, 'z) ext_scheme \<Rightarrow> nat \<Rightarrow> ubj \<Rightarrow> ('db, 'm) world \<Rightarrow> (bool \<times> ('db, 'm) world) option" where
  "processFindContactRequest X sid head w =
     (let requestId = at_int X head ''requestId'' in
      if status sid w < STATUS_LOGGEDIN then not_permitted sid requestId w
      else if \<not> u_hasField X head ''query'' then failure sid requestId 0 ''query missing'' w
      else do {
        let query = u_at X head ''query'';
        (contacts, w) \<leftarrow> (if u_hasField X query ''subject'' then
             (let subject = at_str X query ''subject'';
                  q = [(''name'', BObject [(''$regex'', BString subject), (''$options'', BString ''i'')]),
                       (''id'', BObject [(''$ne'', BNumberInt (accountId sid w))]),
                       (''findByName'', BBool True)]
              in onDb (DB_getContacts X q (Some [(''name'', BNumberInt 1)])) w)
           else Some ([], w));
        Some (True, postRequestSuccess sid requestId
             (UBJ_OBJ X [(''result'', bsonArrToUbj X contacts)]) w) })"

text \<open>
  The public key of a request: absent, or not convertible, counts as missing (the handlers
  catch every \<open>std::exception\<close> of the conversion).
\<close>

definition get_publicKey :: "('z) lib_scheme \<Rightarrow> ubj \<Rightarrow> bson_obj option" where
  "get_publicKey X head =
     (if u_hasField X head ''publicKey'' then
        (case ubjToBson X (u_at X head ''publicKey'') of Inr publicKey \<Rightarrow> Some publicKey | Inl _ \<Rightarrow> None)
      else None)"

abbreviation own_account_query :: "nat \<Rightarrow> ('db, 'm) world \<Rightarrow> bson_obj" where
  "own_account_query sid w \<equiv> [(''id'', BNumberInt (accountId sid w))]"

abbreviation name_and_phone :: bson_obj where
  "name_and_phone \<equiv> [(''name'', BNumberInt 1), (''phone'', BNumberInt 1)]"

text \<open>\<open>processAddContactRequest\<close>, from the point where all its inputs are there.\<close>

definition add_contact_commit ::
  "('db, 'z) ext_scheme \<Rightarrow> nat \<Rightarrow> uint32 \<Rightarrow> string \<Rightarrow> bson_obj \<Rightarrow> bson_obj \<Rightarrow> bson_obj
     \<Rightarrow> ('db, 'm) world \<Rightarrow> (bool \<times> ('db, 'm) world) option" where
  "add_contact_commit X sid requestId addCode account contact publicKey w = do {
     let contactAccountId = doc_int X ''id'' contact;
     doc \<leftarrow> BSON X
        [(''id'', BNumberInt requestId), (''type'', BNumberInt (rt_code X AddContact)),
         (''time'', BNumberInt 0), (''ttl'', BNumberInt 0),
         (''src'', BNumberInt (accountId sid w)), (''dst'', BNumberInt contactAccountId),
         (''name'', b_elem X account ''name''), (''phone'', b_elem X account ''phone''),
         (''publicKey'', BObject publicKey), (''addCode'', BString addCode)];
     (added, w) \<leftarrow> onDb (DB_addRequest X doc) w;
     if \<not> added then failure sid requestId 0 ''Internal server error'' w
     else do {
       w \<leftarrow> (if addCode \<noteq> [] then
              map_option snd (onDb (DB_deleteRequest X [(''addCode'', BString addCode)]) w)
            else Some w);
       let w = postRequestSuccess sid requestId (UBJ_OBJ X
          [(''requestId'', UInt32 requestId), (''status'', UInt32 1),
           (''addCode'', UStr addCode),
           (''name'', UStr (b_str X (b_elem X contact ''name''))),
           (''phone'', UStr (b_str X (b_elem X contact ''phone'')))]) w;
       Some (True, post_task contactAccountId w) } }"

definition processAddContactRequest ::
  "('db, 'z) ext_scheme \<Rightarrow> nat \<Rightarrow> ubj \<Rightarrow> ('db, 'm) world \<Rightarrow> (bool \<times> ('db, 'm) world) option" where
  "processAddContactRequest X sid head w =
     (let requestId = at_int X head ''requestId'' in
      if status sid w < STATUS_LOGGEDIN then not_permitted sid requestId w
      else do {
        (account, w) \<leftarrow> onDb (DB_getAccount X (own_account_query sid w) name_and_phone) w;
        case account of
          None \<Rightarrow> failure sid requestId 0 ''Internal server error'' w
        | Some account \<Rightarrow> do {
            let addCode = at_str X head ''addCode'';
            (contactQuery, w) \<leftarrow> (if addCode \<noteq> [] then do {
                 (request, w) \<leftarrow> onDb (DB_getRequest X
                    [(''type'', BNumberInt (rt_code X AddContact)), (''addCode'', BString addCode)]) w;
                 (case request of
                    None \<Rightarrow> Some (Inl ''invalid add code'', w)
                  | Some request \<Rightarrow> do {
                      q \<leftarrow> BSON X [(''id'', b_elem X request ''src'')];
                      Some (Inr q, w) }) }
               else if at_str X head ''name'' = [] then Some (Inl ''no label'', w)
               else Some (Inr [(''name'', BString (at_str X head ''name'')), (''findByName'', BBool True)], w));
            case contactQuery of
              Inl msg \<Rightarrow> failure sid requestId 0 msg w
            | Inr contactQuery \<Rightarrow> do {
                (contact, w) \<leftarrow> onDb (DB_getAccount X contactQuery
                   [(''id'', BNumberInt 1), (''name'', BNumberInt 1), (''phone'', BNumberInt 1)]) w;
                case contact of
                  None \<Rightarrow> failure sid requestId 0 ''invalid label 1'' w
                | Some contact \<Rightarrow> do {
                    let contactAccountId = doc_int X ''id'' contact;
                    if contactAccountId = accountId sid w then failure sid requestId 0 ''invalid label 2'' w
                    else do {
                      (pending, w) \<leftarrow> onDb (DB_requestPending X
                         [(''type'', BNumberInt (rt_code X AddContact)),
                          (''src'', BNumberInt (accountId sid w)), (''dst'', BNumberInt contactAccountId)]) w;
                      if pending then failure sid requestId 0 ''invalid data'' w
                      else case get_publicKey X head of
                        None \<Rightarrow> failure sid requestId 0 ''Invalid public key'' w
                      | Some publicKey \<Rightarrow>
                          add_contact_commit X sid requestId addCode account contact publicKey w } } } } })"

text \<open>\<open>boost::algorithm::hex\<close>: two upper case digits per byte.\<close>

definition hex_digit :: "nat \<Rightarrow> char" where
  "hex_digit n = (if n < 10 then char_of (48 + n) else char_of (55 + n))"

definition hex :: "bytes \<Rightarrow> string" where
  "hex bs = concat (map (\<lambda>b. [hex_digit (unat b div 16), hex_digit (unat b mod 16)]) bs)"

definition processCreateAddCode ::
  "('db, 'z) ext_scheme \<Rightarrow> nat \<Rightarrow> ubj \<Rightarrow> ('db, 'm) world \<Rightarrow> (bool \<times> ('db, 'm) world) option" where
  "processCreateAddCode X sid head w =
     (let requestId = at_int X head ''requestId'' in
      if status sid w < STATUS_LOGGEDIN then not_permitted sid requestId w
      else case get_publicKey X head of
        None \<Rightarrow> failure sid requestId 0 ''Invalid public key'' w
      | Some publicKey \<Rightarrow> do {
          (account, w) \<leftarrow> onDb (DB_getAccount X (own_account_query sid w) name_and_phone) w;
          case account of
            None \<Rightarrow> failure sid requestId 0 ''Internal server error'' w
          | Some account \<Rightarrow> do {
              let (addCode, w) = next_rand_bytes X 4 w;
              let addCodeHex = hex addCode;
              doc \<leftarrow> BSON X
                 [(''id'', BNumberInt requestId), (''type'', BNumberInt (rt_code X AddContact)),
                  (''time'', BNumberInt 0), (''ttl'', BNumberInt 0),
                  (''src'', BNumberInt (accountId sid w)),
                  (''name'', b_elem X account ''name''), (''phone'', b_elem X account ''phone''),
                  (''publicKey'', BObject publicKey), (''addCode'', BString addCodeHex)];
              (added, w) \<leftarrow> onDb (DB_addRequest X doc) w;
              if \<not> added then failure sid requestId 0 ''Internal server error'' w
              else Some (True, postRequestSuccess sid requestId (UBJ_OBJ X
                     [(''requestId'', UInt32 requestId), (''status'', UInt32 1),
                      (''addCode'', UStr addCodeHex)]) w) } })"

text \<open>\<open>processAcceptContact\<close>, from the point where all its inputs are there.\<close>

definition accept_commit ::
  "('db, 'z) ext_scheme \<Rightarrow> nat \<Rightarrow> uint32 \<Rightarrow> uint32 \<Rightarrow> bson_obj \<Rightarrow> bson_obj \<Rightarrow> ubj \<Rightarrow> bson_obj
     \<Rightarrow> ('db, 'm) world \<Rightarrow> (bool \<times> ('db, 'm) world) option" where
  "accept_commit X sid requestId contactRequestId request account contactPublicKey publicKey w = do {
     let requestSrc = doc_int X ''src'' request;
     doc \<leftarrow> BSON X
        [(''id'', BNumberInt requestId), (''contactRequestId'', BNumberInt contactRequestId),
         (''type'', BNumberInt (rt_code X AcceptContact)),
         (''src'', BNumberInt (accountId sid w)), (''dst'', BNumberInt requestSrc),
         (''name'', b_elem X account ''name''), (''phone'', b_elem X account ''phone''),
         (''publicKey'', BObject publicKey)];
     (added, w) \<leftarrow> onDb (DB_addRequest X doc) w;
     if \<not> added then failure sid requestId 0 ''Internal server error'' w
     else do {
       let w = postRequestSuccess sid requestId (UBJ_OBJ X
          [(''requestId'', UInt32 requestId), (''status'', UInt32 1),
           (''contactId'', UInt32 requestSrc),
           (''contactStatus'', UInt32 (getContactStatus X requestSrc w)),
           (''name'', UStr (b_str X (b_elem X request ''name''))),
           (''phone'', UStr (b_str X (b_elem X request ''phone''))),
           (''publicKey'', contactPublicKey)]) w;
       (_, w) \<leftarrow> onDb (DB_deleteRequest X [(''id'', BNumberInt contactRequestId)]) w;
       let w = upd_sess sid (\<lambda>s. s\<lparr>s_contacts := sm_put requestSrc
          (UBJ_OBJ X [(''contactId'', UInt32 requestSrc), (''notifyStatus'', UInt32 1)])
          (s_contacts s)\<rparr>) w;
       Some (True, post_task requestSrc w) } }"

text \<open>
  \<open>request["publicKey"].Obj()\<close> throws when the request found has no such object, outside
  of the handler's \<open>try\<close> block.
\<close>

definition processAcceptContact ::
  "('db, 'z) ext_scheme \<Rightarrow> nat \<Rightarrow> ubj \<Rightarrow> ('db, 'm) world \<Rightarrow> (bool \<times> ('db, 'm) world) option" where
  "processAcceptContact X sid head w =
     (let requestId = at_int X head ''requestId'' in
      if status sid w < STATUS_LOGGEDIN then not_permitted sid requestId w
      else do {
        let contactRequestId = at_int X head ''contactRequestId'';
        (request, w) \<leftarrow> onDb (DB_getRequest X (request_key contactRequestId (accountId sid w))) w;
        case request of
          None \<Rightarrow> failure sid requestId 1 ''Invalid request'' w
        | Some request \<Rightarrow> do {
            (account, w) \<leftarrow> onDb (DB_getAccount X (own_account_query sid w) name_and_phone) w;
            case account of
              None \<Rightarrow> failure sid requestId 0 ''Internal server error'' w
            | Some account \<Rightarrow> do {
                contactKey \<leftarrow> b_Obj X (b_elem X request ''publicKey'');
                let contactPublicKey = bsonObjToUbj X contactKey;
                case get_publicKey X head of
                  None \<Rightarrow> failure sid requestId 0 ''Invalid public key'' w
                | Some publicKey \<Rightarrow>
                    accept_commit X sid requestId contactRequestId request account contactPublicKey publicKey w } } })"

definition processRejectContact ::
  "('db, 'z) ext_scheme \<Rightarrow> nat \<Rightarrow> ubj \<Rightarrow> ('db, 'm) world \<Rightarrow> (bool \<times> ('db, 'm) world) option" where
  "processRejectContact X sid head w =
     (let requestId = at_int X head ''requestId'' in
      if status sid w < STATUS_LOGGEDIN then not_permitted sid requestId w
      else do {
        let contactRequestId = at_int X head ''contactRequestId'';
        (request, w) \<leftarrow> onDb (DB_getRequest X (request_key contactRequestId (accountId sid w))) w;
        case request of
          None \<Rightarrow> failure sid requestId 1 ''Invalid request'' w
        | Some request \<Rightarrow> do {
            let requestSrc = doc_int X ''src'' request;
            (added, w) \<leftarrow> onDb (DB_addRequest X
               [(''type'', BNumberInt (rt_code X RejectContact)), (''id'', BNumberInt requestId),
                (''contactRequestId'', BNumberInt contactRequestId),
                (''src'', BNumberInt (accountId sid w)), (''dst'', BNumberInt requestSrc)]) w;
            if \<not> added then failure sid requestId 0 ''Internal server error'' w
            else do {
              let w = postRequestSuccess sid requestId (UObject []) w;
              (_, w) \<leftarrow> onDb (DB_deleteRequest X [(''id'', BNumberInt contactRequestId)]) w;
              Some (True, post_task requestSrc w) } } })"

section \<open>Messages\<close>

text \<open>
  \<open>processPushRequest\<close> stores one copy of the message per recipient, with that
  recipient's key, and serves each recipient by a task. The object \<open>forward\<close> is built once
  and its field \<open>key\<close> overwritten in each round.
\<close>

definition push_forward :: "('db, 'z) ext_scheme \<Rightarrow> nat \<Rightarrow> ubj \<Rightarrow> ('db, 'm) world \<Rightarrow> (string \<times> ubj) list" where
  "push_forward X sid head w =
     fold (\<lambda>(k, v) fs. u_setField X fs k v)
       [(''requestId'', UInt32 (at_int X head ''requestId'')),
        (''requestType'', u_at X head ''requestType''), (''src'', UInt32 (accountId sid w)),
        (''resources'', u_at X head ''resources''), (''salt'', u_at X head ''salt''),
        (''meta'', u_at X head ''meta'')] []"

definition push_to ::
  "('db, 'z) ext_scheme \<Rightarrow> nat \<Rightarrow> uint32 \<Rightarrow> ubj \<Rightarrow> (string \<times> ubj) list \<times> ('db, 'm) world
     \<Rightarrow> ((string \<times> ubj) list \<times> ('db, 'm) world) option" where
  "push_to X sid requestId it = (\<lambda>(forward, w).
     let dst = at_int X it ''dst'' in
     if dst = accountId sid w then Some (forward, w)
     else do {
       let forward = u_setField X forward ''key'' (u_at X it ''key'');
       data \<leftarrow> (case ubjToBson X (UObject forward) of Inl _ \<Rightarrow> None | Inr data \<Rightarrow> Some data);
       (added, w) \<leftarrow> onDb (DB_addRequest X
          [(''id'', BNumberInt requestId), (''type'', BNumberInt (rt_code X Push)),
           (''time'', BNumberInt 0), (''ttl'', BNumberInt 0),
           (''src'', BNumberInt (accountId sid w)), (''dst'', BNumberInt dst),
           (''data'', BObject data)]) w;
       if \<not> added then Some (forward, postRequestFailure sid requestId 0 ''Internal server error'' w)
       else Some (forward, post_task dst w) })"

definition processPushRequest ::
  "('db, 'z) ext_scheme \<Rightarrow> nat \<Rightarrow> ubj \<Rightarrow> ('db, 'm) world \<Rightarrow> (bool \<times> ('db, 'm) world) option" where
  "processPushRequest X sid head w =
     (let requestId = at_int X head ''requestId'' in
      if status sid w < STATUS_LOGGEDIN then not_permitted sid requestId w
      else do {
        let resources = u_toArray X (u_at X head ''resources'');
        let resourceIds = UArray (map (\<lambda>it. UInt32 (at_int X it ''id'')) resources);
        let res = UBJ_OBJ X [(''resources'', resourceIds)];
        let forward = push_forward X sid head w;
        (_, w) \<leftarrow> for_each (u_toArray X (u_at X head ''keys'')) (push_to X sid requestId) (forward, w);
        Some (True, postRequestSuccess sid requestId res w) })"

section \<open>Dispatch\<close>

definition processIncomingRequest ::
  "('db, 'z) ext_scheme \<Rightarrow> nat \<Rightarrow> ubj \<Rightarrow> ('db, 'm) world \<Rightarrow> (bool \<times> ('db, 'm) world) option" where
  "processIncomingRequest X sid request w =
     (let t = at_int X request ''requestType'' in
      if t = rt_code X Dispatch then processDispatchRequest X sid request w
      else if t = rt_code X CreateAccount then processCreateAccount X sid request w
      else if t = rt_code X Login then processLogin X sid request w
      else if t = rt_code X Logout then processLogout X sid request w
      else if t = rt_code X Config then processConfigRequest X sid request w
      else if t = rt_code X AddContact then processAddContactRequest X sid request w
      else if t = rt_code X CreateAddCode then processCreateAddCode X sid request w
      else if t = rt_code X FindContact then processFindContactRequest X sid request w
      else if t = rt_code X AcceptContact then processAcceptContact X sid request w
      else if t = rt_code X RejectContact then processRejectContact X sid request w
      else if t = rt_code X ContactStatus then processContactStatusRequest X sid request w
      else if t = rt_code X Push then processPushRequest X sid request w
      else Some (False, w))"

section \<open>Uploaded resources\<close>

text \<open>
  The two cases of \<open>createStreamReceiver\<close>: a resource stream gets a buffer in the
  directory \<open>tmp\<close> and a receiver (\<open>receiver\<close> says whether \<open>Zway::BufferReceiver::create\<close>
  returned one), any other stream the receiver of the engine. The result is the address
  of the buffer behind a resource receiver. \<open>upload_complete\<close> is the callback the receiver
  runs when the stream is complete.
\<close>

datatype stream_receiver = Null_receiver | Resource_receiver nat | Engine_receiver

definition createStreamReceiver ::
  "('db, 'm, 'z) env_scheme \<Rightarrow> bool \<Rightarrow> packet_info \<Rightarrow> ('db, 'm) world \<Rightarrow> (stream_receiver \<times> ('db, 'm) world) option" where
  "createStreamReceiver X receiver pkt w =
     (if pk_streamType pkt = Resource then do {
        (buffer, fs) \<leftarrow> StreamBuffer_create (e_buf X) (tmp_file (pk_streamId pkt)) pkt (w_files w);
        let w = w\<lparr>w_files := fs\<rparr>;
        case buffer of
          None \<Rightarrow> Some (Null_receiver, w)
        | Some sb \<Rightarrow>
            (let (b, w) = alloc_sbuf sb w in
             if receiver then
               (let (added, w) = Server_addStreamBuffer b w in Some (Resource_receiver b, w))
             else Some (Null_receiver, w)) }
      else Some (Engine_receiver, w))"

definition upload_complete ::
  "('db, 'm, 'z) env_scheme \<Rightarrow> nat \<Rightarrow> uint32 \<Rightarrow> nat \<Rightarrow> ('db, 'm) world \<Rightarrow> ('db, 'm) world option" where
  "upload_complete X sid streamId b w = do {
     fs \<leftarrow> StreamBuffer_flush (w_sbufs w b) (w_files w);
     let w = w\<lparr>w_files := fs\<rparr>;
     (_, w) \<leftarrow> onDb (DB_addRequest X
        [(''id'', BNumberInt streamId), (''type'', BNumberInt (rt_code X Dispatch)),
         (''time'', BNumberInt 0), (''ttl'', BNumberInt 0), (''src'', BNumberInt 0),
         (''dst'', BNumberInt (accountId sid w)), (''dispatchType'', BNumberInt 6)]) w;
     (_, w) \<leftarrow> processRequests X sid w;
     Some w }"

end
