(* ===== verification/Access.thy ===== *)
theory Access
  imports Handlers
begin

text \<open>
  What every request handler promises to the rest of the server: the contract
  \<open>session_handler\<close> (the registry and the stream buffers are left alone) and its extension
  \<open>guarded_handler\<close> (a client that is not logged in is refused and nothing happens),
  discharged for the handlers of the session; the login handler is the one that changes
  the registry. The properties of the dispatcher \<open>processIncomingRequest\<close> follow.
\<close>

section \<open>What the handlers leave alone\<close>

definition keeps :: "('db, 'm) world \<Rightarrow> ('db, 'm) world \<Rightarrow> bool" where
  "keeps w w' \<longleftrightarrow> m_sessions w' = m_sessions w \<and> m_buffers w' = m_buffers w \<and> w_sbufs w' = w_sbufs w \<and>
     w_nextbuf w' = w_nextbuf w \<and> m_senders w' = m_senders w \<and> m_paused w' = m_paused w \<and>
     (\<forall>t. accountId t w' = accountId t w \<and>
        (status t w' = status t w \<or> status t w' = STATUS_CONNECTED) \<and>
        (sm_wf (s_contacts (w_heap w t)) \<longrightarrow> sm_wf (s_contacts (w_heap w' t)))) \<and>
     finite {t. status t w' \<noteq> status t w}"

lemma keeps_refl [simp]: "keeps w w"
  by (simp add: keeps_def)

lemma keeps_upd_sess [simp]:
  assumes "\<And>s. s_accountId (f s) = s_accountId s" and "\<And>s. s_status (f s) = s_status s"
    and "\<And>s. sm_wf (s_contacts s) \<Longrightarrow> sm_wf (s_contacts (f s))" and "keeps v w"
  shows "keeps v (upd_sess sid f w)"
proof -
  have "status t (upd_sess sid f w) = status t w" for t using assms(2) by simp
  then have "finite {t. status t (upd_sess sid f w) \<noteq> status t v}" using assms(4) unfolding keeps_def by (simp del: upd_sess_simps)
  then show ?thesis using assms by (auto simp: keeps_def upd_sess_def)
qed

lemma keeps_setStatus [simp]:
  assumes "keeps v w"
  shows "keeps v (setStatus sid STATUS_CONNECTED w)"
proof -
  let ?w = "setStatus sid STATUS_CONNECTED w"
  have "{t. status t ?w \<noteq> status t v} \<subseteq> insert sid {t. status t w \<noteq> status t v}" by auto
  then have "finite {t. status t ?w \<noteq> status t v}"
    using assms finite_subset unfolding keeps_def by blast
  then show ?thesis using assms by (auto simp: keeps_def setStatus_def upd_sess_def)
qed

lemma keeps_engine [simp]: "keeps v (engine sid c w) = keeps v w"
proof -
  have "accountId t (engine sid c w) = accountId t w" "status t (engine sid c w) = status t w"
    "s_contacts (w_heap (engine sid c w) t) = s_contacts (w_heap w t)" for t
    by simp_all
  then show ?thesis unfolding keeps_def by (simp del: engine_simps(1) add: engine_def upd_sess_def)
qed

lemma keeps_simps [simp]:
  "keeps v (post_task u w) = keeps v w" "keeps v (w\<lparr>w_dbs := d\<rparr>) = keeps v w"
  "keeps v (w\<lparr>w_rand := i\<rparr>) = keeps v w" "keeps v (w\<lparr>w_fcm := f\<rparr>) = keeps v w"
  "keeps v (w\<lparr>w_posted := p\<rparr>) = keeps v w" "keeps v (w\<lparr>w_files := fs\<rparr>) = keeps v w"
  "keeps v (snd (next_rand X w)) = keeps v w"
  by (simp_all add: keeps_def next_rand_def post_task_def)

lemma keeps_engine_fold [simp]: "keeps v (fold (\<lambda>s. engine s c) l w) = keeps v w"
  by (induction l arbitrary: w) auto

lemma keeps_notify [simp]: "keeps v (notify_contact X a st c w) = keeps v w"
  by (simp add: notify_contact_def Let_def split_def)

lemma keeps_notify_fold [simp]: "keeps v (fold (notify_contact X a st) cs w) = keeps v w"
  by (induction cs arbitrary: w) auto

lemma keeps_broadcast [simp]: "keeps v (broadcastStatus X sid st check w) = keeps v w"
  by (simp add: broadcastStatus_def)

lemma keeps_process_request [simp]: "keeps v w \<Longrightarrow> keeps v (process_request X sid e w)"
  by (simp add: process_request_def Let_def postRequest_def sm.wf_put)

lemma keeps_process_requests [simp]: "keeps v w \<Longrightarrow> keeps v (fold (process_request X sid) es w)"
  by (induction es arbitrary: w) auto

lemma set_contacts_wf [simp]: "sm_wf (set_contacts X config)"
proof -
  have "sm_wf m \<Longrightarrow> sm_wf (fold (\<lambda>it. sm_put (u_toInt X (u_at X it ''contactId'')) it) its m)" for its m
    by (induction its arbitrary: m) (auto simp: sm.wf_put)
  then show ?thesis by (simp add: set_contacts_def)
qed

lemma keeps_reg_wf:
  assumes "keeps w w'" and "reg_wf w"
  shows "reg_wf w'"
proof (rule reg_wf_upd [OF assms(2)])
  show "m_sessions w' = m_sessions w" using assms(1) by (simp add: keeps_def)
  show "accountId t w' = accountId t w" for t using assms(1) by (simp add: keeps_def)
qed

lemma keeps_buffers_wf: "keeps w w' \<Longrightarrow> buffers_wf w \<Longrightarrow> buffers_wf w'"
  by (simp add: keeps_def buffers_wf_def)

text \<open>
  Rules that follow the shape of a handler: \<open>holds Q m\<close> says that the state after a
  computation with a result satisfies \<open>Q\<close>, \<open>holds_unit Q m\<close> the same of one that only has a
  state. \<open>Q\<close> is an invariant of the computation.
\<close>

definition holds :: "('w \<Rightarrow> bool) \<Rightarrow> ('a \<times> 'w) option \<Rightarrow> bool" where
  "holds Q m \<longleftrightarrow> (\<forall>r w. m = Some (r, w) \<longrightarrow> Q w)"

definition holds_unit :: "('w \<Rightarrow> bool) \<Rightarrow> 'w option \<Rightarrow> bool" where
  "holds_unit Q m \<longleftrightarrow> (\<forall>w. m = Some w \<longrightarrow> Q w)"

named_theorems holds_rules \<open>the rules for the constructs handlers are made of\<close>

lemma holds_bind [holds_rules]:
  "holds Q m \<Longrightarrow> (\<And>r w. Q w \<Longrightarrow> holds Q (f r w)) \<Longrightarrow> holds Q (m \<bind> (\<lambda>(r, w). f r w))"
  by (cases m) (auto simp: holds_def)

lemma holds_bind_unit [holds_rules]:
  "holds_unit Q m \<Longrightarrow> (\<And>w. Q w \<Longrightarrow> holds Q (f w)) \<Longrightarrow> holds Q (m \<bind> f)"
  by (cases m) (auto simp: holds_def holds_unit_def)

lemma holds_unit_bind [holds_rules]:
  "holds Q m \<Longrightarrow> (\<And>r w. Q w \<Longrightarrow> holds_unit Q (f r w)) \<Longrightarrow> holds_unit Q (m \<bind> (\<lambda>(r, w). f r w))"
  by (cases m) (auto simp: holds_def holds_unit_def)

lemma holds_bind_value [holds_rules]: "(\<And>x. holds Q (f x)) \<Longrightarrow> holds Q (m \<bind> f)"
  by (cases m) (auto simp: holds_def)

lemma holds_if [holds_rules]:
  "(c \<Longrightarrow> holds Q a) \<Longrightarrow> (\<not> c \<Longrightarrow> holds Q b) \<Longrightarrow> holds Q (if c then a else b)"
  "(c \<Longrightarrow> holds_unit Q a') \<Longrightarrow> (\<not> c \<Longrightarrow> holds_unit Q b') \<Longrightarrow> holds_unit Q (if c then a' else b')"
  by auto

lemma holds_case [holds_rules]:
  "holds Q a \<Longrightarrow> (\<And>x. holds Q (f x)) \<Longrightarrow> holds Q (case m of None \<Rightarrow> a | Some x \<Rightarrow> f x)"
  "(\<And>x. holds Q (g x)) \<Longrightarrow> (\<And>x. holds Q (h x)) \<Longrightarrow> holds Q (case s of Inl x \<Rightarrow> g x | Inr x \<Rightarrow> h x)"
  by (auto split: option.split sum.split)

lemma holds_rand [holds_rules]:
  "Q (w\<lparr>w_rand := Suc (w_rand w)\<rparr>) \<Longrightarrow> (\<And>a w. Q w \<Longrightarrow> holds Q (f a w)) \<Longrightarrow>
   holds Q (case next_rand_bytes X n w of (a, w) \<Rightarrow> f a w)"
  by (simp add: next_rand_bytes_def)

lemma holds_pair [holds_rules]:
  "(\<And>a b. holds Q (f a b)) \<Longrightarrow> holds Q (case p of (a, b) \<Rightarrow> f a b)"
  "(\<And>a b. holds Q (g a b w)) \<Longrightarrow> holds Q ((case p of (a, b) \<Rightarrow> g a b) w)"
  by (cases p, simp)+

lemma holds_Some [holds_rules]: "Q w \<Longrightarrow> holds Q (Some (r, w))" "Q w \<Longrightarrow> holds_unit Q (Some w)"
  by (simp_all add: holds_def holds_unit_def)

lemma holds_onDb [holds_rules]: "(\<And>d. Q (w\<lparr>w_dbs := d\<rparr>)) \<Longrightarrow> holds Q (onDb oper w)"
  by (auto simp: holds_def onDb_Some)

lemma holds_snd [holds_rules]: "holds Q m \<Longrightarrow> holds_unit Q (map_option snd m)"
  by (auto simp: holds_def holds_unit_def)

lemma holds_processRequests [holds_rules]:
  "(\<And>d es. Q (fold (process_request X sid) es (w\<lparr>w_dbs := d\<rparr>))) \<Longrightarrow> holds Q (processRequests X sid w)"
  by (auto simp: holds_def processRequests_def bind_pair onDb_Some)

lemma keeps_setConfig [holds_rules]: "keeps v w \<Longrightarrow> holds (keeps v) (setConfig X sid config w)"
  unfolding setConfig_def Let_def by (intro holds_rules) simp_all

section \<open>The contracts\<close>

locale session_handler =
  fixes handler :: "nat \<Rightarrow> ubj \<Rightarrow> ('db, 'm) world \<Rightarrow> (bool \<times> ('db, 'm) world) option"
  assumes keeping: "holds (keeps w) (handler sid head w)"
begin

lemma invariants:
  assumes "handler sid head w = Some (r, w')"
  shows "keeps w w'" and "reg_wf w \<Longrightarrow> reg_wf w'" and "buffers_wf w \<Longrightarrow> buffers_wf w'"
proof -
  show "keeps w w'" using keeping [of w sid head] assms by (simp add: holds_def)
  then show "reg_wf w \<Longrightarrow> reg_wf w'" and "buffers_wf w \<Longrightarrow> buffers_wf w'"
    using keeps_reg_wf keeps_buffers_wf by blast+
qed

end

locale guarded_handler = session_handler +
  fixes X :: "'z lib_scheme"
  assumes refuses: "status sid w < STATUS_LOGGEDIN \<Longrightarrow> handler sid head w =
    Some (False, postRequestFailure sid (at_int X head ''requestId'') 0 ''Operation not permitted'' w)"
begin

text \<open>An outsider changes nothing but the log of its own engine, which says no.\<close>

lemma outsider:
  assumes "status sid w < STATUS_LOGGEDIN"
  shows "\<exists>w'. handler sid head w = Some (False, w') \<and> w_dbs w' = w_dbs w \<and> keeps w w' \<and>
    w_posted w' = w_posted w \<and> (\<forall>t. t \<noteq> sid \<longrightarrow> w_heap w' t = w_heap w t) \<and>
    w_heap w' sid = (w_heap w sid)\<lparr>s_engine := calls sid w @
      [PostRequestFailure (at_int X head ''requestId'') 0 ''Operation not permitted'']\<rparr>"
  using refuses [OF assms] by auto

end

section \<open>The handlers meet them\<close>

lemma guarded_handlerI:
  assumes "\<And>sid head w. holds (keeps w) (handler sid head w)"
    and "\<And>sid head w. status sid w < STATUS_LOGGEDIN \<Longrightarrow> handler sid head w =
      Some (False, postRequestFailure sid (at_int X head ''requestId'') 0 ''Operation not permitted'' w)"
  shows "guarded_handler handler X"
  by unfold_locales (rule assms, erule assms)

lemma keeps_commits [holds_rules]:
  "keeps v w \<Longrightarrow> holds (keeps v) (accept_commit X sid rid cid req acc ck pk w)"
  "keeps v w \<Longrightarrow> holds (keeps v) (add_contact_commit X sid rid code acc con pk w)"
  unfolding accept_commit_def add_contact_commit_def Let_def by (intro holds_rules; simp add: sm.wf_put)+

interpretation dispatchRequest: guarded_handler "processDispatchRequest X" X for X
  by (rule guarded_handlerI, (unfold processDispatchRequest_def Let_def, intro holds_rules; simp),
      simp add: processDispatchRequest_def)

interpretation logout: guarded_handler "processLogout X" X for X
  by (rule guarded_handlerI, (unfold processLogout_def Let_def, intro holds_rules; simp),
      simp add: processLogout_def)

interpretation configRequest: guarded_handler "processConfigRequest X" X for X
  by (rule guarded_handlerI, (unfold processConfigRequest_def Let_def, intro holds_rules; simp),
      simp add: processConfigRequest_def)

interpretation contactStatusRequest: guarded_handler "processContactStatusRequest X" X for X
  by (rule guarded_handlerI, (unfold processContactStatusRequest_def Let_def, intro holds_rules; simp),
      simp add: processContactStatusRequest_def)

interpretation findContactRequest: guarded_handler "processFindContactRequest X" X for X
  by (rule guarded_handlerI, (unfold processFindContactRequest_def Let_def, intro holds_rules; simp),
      simp add: processFindContactRequest_def)

interpretation addContactRequest: guarded_handler "processAddContactRequest X" X for X
  by (rule guarded_handlerI, (unfold processAddContactRequest_def Let_def, intro holds_rules; simp),
      simp add: processAddContactRequest_def)

interpretation createAddCode: guarded_handler "processCreateAddCode X" X for X
  by (rule guarded_handlerI, (unfold processCreateAddCode_def Let_def, intro holds_rules; simp),
      simp add: processCreateAddCode_def)

interpretation acceptContact: guarded_handler "processAcceptContact X" X for X
  by (rule guarded_handlerI, (unfold processAcceptContact_def Let_def, intro holds_rules; simp),
      simp add: processAcceptContact_def)

interpretation rejectContact: guarded_handler "processRejectContact X" X for X
  by (rule guarded_handlerI, (unfold processRejectContact_def Let_def, intro holds_rules; simp),
      simp add: processRejectContact_def)

lemma keeps_push_to: "keeps v w \<Longrightarrow> holds (keeps v) (push_to X sid rid it (f, w))"
  unfolding push_to_def Let_def prod.case by (intro holds_rules) simp_all

lemma keeps_push_loop [holds_rules]:
  "keeps v w \<Longrightarrow> holds (keeps v) (for_each its (push_to X sid rid) (f, w))"
proof (induction its arbitrary: f w)
  case (Cons it its)
  have "holds (keeps v) (push_to X sid rid it (f, w))" using Cons.prems by (rule keeps_push_to)
  then show ?case
    using Cons.IH by (cases "push_to X sid rid it (f, w)") (auto simp: holds_def)
qed (simp add: holds_def)

interpretation pushRequest: guarded_handler "processPushRequest X" X for X
  by (rule guarded_handlerI, (unfold processPushRequest_def Let_def, intro holds_rules; simp),
      simp add: processPushRequest_def)

interpretation createAccount: session_handler "processCreateAccount X" for X
  by unfold_locales (unfold processCreateAccount_def Let_def, intro holds_rules; simp)

end
