(* ===== verification/Accounts.thy ===== *)
theory Accounts
  imports Access
begin

text \<open>
  Who may do what, and as whom: the refusal of clients that are not logged in, the
  registration of a session under its account by the login handler, and the life of an
  account from its creation to a login with its password.
\<close>

section \<open>Clients that are not logged in\<close>


section \<open>Registration at login\<close>

lemma status_engine_fold [simp]: "status t (fold (\<lambda>s. engine s c) l w) = status t w"
  by (induction l arbitrary: w) auto

lemma status_notify [simp]: "status t (notify_contact X a st c w) = status t w"
  by (simp add: notify_contact_def Let_def split_def)

lemma status_notify_fold [simp]: "status t (fold (notify_contact X a st) cs w) = status t w"
  by (induction cs arbitrary: w) auto

lemma status_broadcast [simp]: "status t (broadcastStatus X sid st check w) = status t w"
  by (simp add: broadcastStatus_def)

lemma status_process_requests [simp]: "status t (fold (process_request X sid) es w) = status t w"
  by (rule same_but_delivery_frame(7) [OF process_requests_frame])

lemma status_setConfig [holds_rules]:
  "status t w = c \<Longrightarrow> holds (\<lambda>w. status t w = c) (setConfig X sid config w)"
  unfolding setConfig_def Let_def by (intro holds_rules) auto

text \<open>What login does once the password is verified.\<close>

definition login_register :: "nat \<Rightarrow> uint32 \<Rightarrow> ('db, 'm) world \<Rightarrow> ('db, 'm) world" where
  "login_register sid a w =
     Server_appendSession sid (upd_sess sid (\<lambda>s. s\<lparr>s_accountId := a\<rparr>)
       (Server_removeSession sid (setStatus sid STATUS_LOGGEDIN w)))"

lemma rename_wf:
  assumes "reg_wf u" and "\<forall>a. sid \<notin> set (Server_getSessions a u)"
  shows "reg_wf (upd_sess sid (\<lambda>s. s\<lparr>s_accountId := n\<rparr>) u)"
  by (rule reg_wf_upd [OF assms(1)]) (use assms(2) in \<open>auto simp: registered_def\<close>)

lemma login_register_effect:
  assumes "reg_wf w"
  shows "reg_wf (login_register sid n w)"
    and "sid \<in> set (Server_getSessions a (login_register sid n w)) \<longleftrightarrow> a = n"
    and "t \<noteq> sid \<Longrightarrow> t \<in> set (Server_getSessions a (login_register sid n w)) \<longleftrightarrow> t \<in> set (Server_getSessions a w)"
    and "status sid (login_register sid n w) = STATUS_LOGGEDIN"
    and "accountId sid (login_register sid n w) = n"
proof -
  let ?w = "setStatus sid STATUS_LOGGEDIN w"
  let ?r = "upd_sess sid (\<lambda>s. s\<lparr>s_accountId := n\<rparr>)"
  have wf: "reg_wf ?w" by (rule reg_wf_upd [OF assms]) auto
  have same: "Server_getSessions a (?r u) = Server_getSessions a u"
    "Server_getSessions a ?w = Server_getSessions a w" for a and u :: "('a, 'b) world"
    by (rule getSessions_cong, simp)+
  note re = dir.reregister [OF wf, of ?r sid n, folded login_register_def, OF same(1) _ rename_wf]
  show "reg_wf (login_register sid n w)" by (rule re(1)) auto
  show "sid \<in> set (Server_getSessions a (login_register sid n w)) \<longleftrightarrow> a = n" by (rule re(2)) auto
  show "t \<in> set (Server_getSessions a (login_register sid n w)) \<longleftrightarrow> t \<in> set (Server_getSessions a w)"
    if "t \<noteq> sid" using re(3) [OF _ _ _ that] by (simp add: same(2))
qed (simp_all add: login_register_def)

lemma login_accepted_keeps:
  "holds (keeps (login_register sid n w)) (login_accepted X sid head n w)"
  unfolding login_accepted_def Let_def by (intro holds_rules) (simp_all add: login_register_def)

lemma login_accepted_status:
  "holds (\<lambda>w. status sid w = STATUS_LOGGEDIN) (login_accepted X sid head n w)"
  unfolding login_accepted_def Let_def by (intro holds_rules) simp_all

lemma login_accepted_True: "login_accepted X sid head n w = Some (r, w') \<Longrightarrow> r"
  by (auto simp: login_accepted_def Let_def bind_pair Option.bind_eq_Some_conv)

text \<open>
  The login handler: refused with the registry untouched, or accepted on the verified
  account.
\<close>

lemma login_cases:
  assumes "processLogin X sid head w = Some (r, w')"
  obtains (refused) "\<not> r" "keeps w w'" "status sid w' = status sid w"
  | (accepted) d account where "r"
      "DB_getAccount X [(''id'', BNumberInt (at_int X head ''account''))]
         [(''pass'', BNumberInt 1), (''salt'', BNumberInt 1)] (w_dbs w) = Some (Some account, d)"
      "verifyPassword X account (u_buffer X (u_at X head ''password'')) = Some True"
      "status sid w < STATUS_LOGGEDIN"
      "login_accepted X sid head (at_int X head ''account'') (w\<lparr>w_dbs := d\<rparr>) = Some (r, w')"
  using assms
  by (auto simp: processLogin_def Let_def bind_pair onDb_Some Option.bind_eq_Some_conv not_le
      split: if_splits option.splits) (frule login_accepted_True, simp)

text \<open>
  C8. A successful login proves knowledge of the password (the digest of password and stored
  salt agrees with the stored one) and moves the session: afterwards it is logged in and
  registered exactly once, under the account it logged in to, the other sessions are
  where they were, and the registry is still well formed. A refused login leaves the
  registry and the status of the session as they were.
\<close>

theorem login_registers:
  assumes "processLogin X sid head w = Some (r, w')" and "reg_wf w"
  shows "reg_wf w' \<and>
    (if r then status sid w' = STATUS_LOGGEDIN \<and> accountId sid w' = at_int X head ''account'' \<and>
       (\<forall>a. sid \<in> set (Server_getSessions a w') \<longleftrightarrow> a = at_int X head ''account'') \<and>
       (\<forall>a t. t \<noteq> sid \<longrightarrow> t \<in> set (Server_getSessions a w') \<longleftrightarrow> t \<in> set (Server_getSessions a w)) \<and>
       (\<exists>account d. DB_getAccount X [(''id'', BNumberInt (at_int X head ''account''))]
          [(''pass'', BNumberInt 1), (''salt'', BNumberInt 1)] (w_dbs w) = Some (Some account, d) \<and>
          verifyPassword X account (u_buffer X (u_at X head ''password'')) = Some True)
     else keeps w w' \<and> status sid w' = status sid w)"
  using assms(1)
proof (cases rule: login_cases)
  case refused
  with assms(2) keeps_reg_wf show ?thesis by auto
next
  case (accepted d account)
  let ?a = "at_int X head ''account''" and ?w = "w\<lparr>w_dbs := d\<rparr>"
  have "keeps (login_register sid ?a ?w) w'"
    using login_accepted_keeps [where sid = sid and n = ?a and w = ?w and X = X and head = head] accepted(5) by (simp add: holds_def)
  note k = this keeps_reg_wf [OF this]
  have "reg_wf ?w" by (rule reg_wf_upd [OF assms(2)]) auto
  note reg = login_register_effect [OF this, where sid = sid and n = ?a]
  have same: "Server_getSessions a w' = Server_getSessions a (login_register sid ?a ?w)"
    "Server_getSessions a ?w = Server_getSessions a w" for a
    by (rule getSessions_cong, use k(1) in \<open>simp add: keeps_def\<close>)+
  have "status sid w' = STATUS_LOGGEDIN"
    using login_accepted_status [where sid = sid and n = ?a and w = ?w and X = X and head = head] accepted(5) by (simp add: holds_def)
  moreover have "accountId sid w' = ?a" using k(1) reg(5) by (simp add: keeps_def)
  ultimately show ?thesis
    using accepted(1,2,3) k(2) [OF reg(1)] reg(2,3) by (auto simp: same)
qed

section \<open>Totality\<close>

lemma onDb_total:
  assumes "pooled_operation X oper" and "db_ready w" and "cursor_law X"
  shows "\<exists>r d. onDb oper w = Some (r, w\<lparr>w_dbs := d\<rparr>) \<and> m_connections d \<noteq> []"
proof -
  obtain r d where step: "oper (w_dbs w) = Some (r, d)"
    using pooled_operation.progress [OF assms(1,2,3)] by blast
  obtain c cs where "m_connections (w_dbs w) = c # cs" using assms(2) by (meson list.exhaust)
  then have "m_connections d = cs @ [c]"
    using pooled_operation.rotates [OF assms(1) _ step] by blast
  with step show ?thesis by (auto simp: onDb_def)
qed

lemma broadcast_dbs [simp]: "w_dbs (broadcastStatus X sid st check w) = w_dbs w"
proof -
  have "w_dbs (fold (notify_contact X a st) cs w) = w_dbs w" for a cs
    by (induction cs arbitrary: w) auto
  then show ?thesis by (simp add: broadcastStatus_def)
qed

lemma setConfig_total:
  assumes "db_ready w" and "cursor_law X"
  shows "\<exists>w'. setConfig X sid config w = Some (True, w') \<and> db_ready w'"
proof (cases "u_hasField X config ''fcmToken''")
  case True
  let ?w = "if u_hasField X config ''contacts''
    then upd_sess sid (\<lambda>s. s\<lparr>s_contacts := set_contacts X config\<rparr>) w else w"
  have "db_ready ?w" using assms(1) by simp
  then obtain r d where "onDb (DB_setFcmToken X (accountId sid ?w) (u_toStr X (u_at X config ''fcmToken''))) ?w =
      Some (r, ?w\<lparr>w_dbs := d\<rparr>)" "m_connections d \<noteq> []"
    using onDb_total [OF setFcmToken.pooled_operation_axioms _ assms(2)] by blast
  with True show ?thesis by (simp add: setConfig_def Let_def)
qed (use assms in \<open>simp add: setConfig_def Let_def\<close>)

lemma processRequests_total:
  assumes "db_ready w" and "cursor_law X"
  shows "\<exists>w'. processRequests X sid w = Some (True, w') \<and> db_ready w'"
proof -
  obtain r d where "onDb (DB_getRequests X [(''dst'', BNumberInt (accountId sid w))]) w =
      Some (r, w\<lparr>w_dbs := d\<rparr>)" "m_connections d \<noteq> []"
    using onDb_total [OF getRequests.pooled_operation_axioms assms] by blast
  then show ?thesis
    using same_but_delivery_frame(1) [OF process_requests_frame [of sid X r "w\<lparr>w_dbs := d\<rparr>"]]
    by (simp add: processRequests_def)
qed

lemma login_accepted_total:
  assumes "db_ready w" and "cursor_law X"
  shows "\<exists>w'. login_accepted X sid head n w = Some (True, w') \<and> db_ready w'"
proof -
  let ?w = "login_register sid n w"
  have ready: "db_ready ?w" using assms(1) by (simp add: login_register_def)
  obtain w1 where w1: "(if u_hasField X head ''config''
      then map_option snd (setConfig X sid (u_at X head ''config'') ?w) else Some ?w) = Some w1" "db_ready w1"
    using setConfig_total [OF ready assms(2), of sid "u_at X head ''config''"] ready
    by (cases "u_hasField X head ''config''") auto
  obtain r d where "onDb (DB_getInbox X (UArray []) n) w1 = Some (r, w1\<lparr>w_dbs := d\<rparr>)" "m_connections d \<noteq> []"
    using onDb_total [OF getInbox.pooled_operation_axioms w1(2) assms(2)] by blast
  moreover from this obtain w2 where
    "processRequests X sid (postRequestSuccess sid (at_int X head ''requestId'')
        (UBJ_OBJ X [(''contactStatus'', contact_status_list X sid w1), (''inbox'', snd r)]) (w1\<lparr>w_dbs := d\<rparr>)) = Some (True, w2)"
    "db_ready w2"
    using processRequests_total [OF _ assms(2), where sid = sid and w = "postRequestSuccess sid (at_int X head ''requestId'')
        (UBJ_OBJ X [(''contactStatus'', contact_status_list X sid w1), (''inbox'', snd r)]) (w1\<lparr>w_dbs := d\<rparr>)"] by auto
  ultimately show ?thesis
    using w1(1) unfolding login_accepted_def Let_def login_register_def [symmetric]
    by (simp add: split_def split del: if_split)
qed


section \<open>An account from creation to login\<close>

definition account_doc :: "uint32 \<Rightarrow> string \<Rightarrow> string \<Rightarrow> bool \<Rightarrow> bool \<Rightarrow> bytes \<Rightarrow> bytes \<Rightarrow> bson_obj" where
  "account_doc a nm ph fn fp pw sl =
     [(''id'', BNumberInt a), (''name'', BString nm), (''phone'', BString ph), (''findByName'', BBool fn),
      (''findByPhone'', BBool fp), (''pass'', BBinData pw), (''salt'', BBinData sl)]"

lemma verifyPassword_stored:
  assumes "sha_laws X digest" and "bson_laws X" and "ubj_laws X"
  shows "verifyPassword X (project (Some [(''pass'', BNumberInt 1), (''salt'', BNumberInt 1)])
      (account_doc a nm ph fn fp (digest (pw @ salt)) salt)) (Some p) =
    Some (digest (p @ salt) = digest (pw @ salt))"
  using sha_lawsD(4) [OF assms(1), of "pw @ salt"] sha_lawsD(4) [OF assms(1), of "p @ salt"]
  by (simp add: verifyPassword_def account_doc_def project_def sha_lawsD [OF assms(1)]
      bson_lawsD [OF assms(2)] ubj_lawsD [OF assms(3)] Let_def)

text \<open>The request is one the handler accepts: a name, and a password of 32 bytes.\<close>

definition valid_account_request :: "('z) lib_scheme \<Rightarrow> ubj \<Rightarrow> bytes \<Rightarrow> bool" where
  "valid_account_request X head pw \<longleftrightarrow>
     u_hasField X head ''name'' \<and> at_str X head ''name'' \<noteq> [] \<and> u_hasField X head ''password'' \<and>
     u_at X head ''password'' = UBuffer pw \<and> length pw = 32"

abbreviation name_query :: "string \<Rightarrow> bson_obj" where
  "name_query nm \<equiv> [(''name'', BObject [(''$regex'', BString nm), (''$options'', BString ''i'')])]"

abbreviation accounts_numbered :: "bson_obj multiset \<Rightarrow> bool" where
  "accounts_numbered D \<equiv> \<forall>e \<in># D. \<exists>n. doc_id e = Some n \<and> sint n < 2147483647"

lemma createAccount_stores:
  assumes laws: "mongo_laws X docs sat" "sort_law X docs" "sha_laws X digest" "bson_laws X" "ubj_laws X"
    and "db_ready w" and "status sid w < STATUS_LOGGEDIN"
    and "valid_account_request X head pw"
    and D: "D = docs (mongo w) ''zway.accounts''" "accounts_numbered D"
    and "\<forall>e \<in># D. \<not> sat (name_query (at_str X head ''name'')) e"
  obtains n salt d i where "\<forall>e \<in># D. doc_id e \<noteq> Some n"
    and "processCreateAccount X sid head w = Some (True, postRequestSuccess sid (at_int X head ''requestId'')
      (UBJ_OBJ X [(''accountId'', UInt32 n)]) (w\<lparr>w_rand := i, w_dbs := d\<rparr>))"
    and "docs (db_mongo d) = (docs (mongo w))(''zway.accounts'' :=
      add_mset (account_doc n (at_str X head ''name'') (at_str X head ''phone'')
        (u_toBool X (u_at X head ''findByName'')) (u_toBool X (u_at X head ''findByPhone''))
        (digest (pw @ salt)) salt) D)"
    and "m_connections d \<noteq> []"
proof -
  let ?q = "name_query (at_str X head ''name'')"
  obtain r d1 where d1: "DB_getAccount X ?q [(''id'', BNumberInt 1)] (w_dbs w) = Some (r, d1)"
    "found sat ?q D (project (Some [(''id'', BNumberInt 1)])) r"
    "docs (db_mongo d1) = docs (mongo w)" "m_connections d1 \<noteq> []"
    using DB_getAccount_mongo [OF laws(1) assms(6)] D(1) by metis
  have "r = None" using d1(2) assms(11) by (auto simp: found_def split: option.splits)
  obtain n d2 where d2: "DB_newAccountId X d1 = Some (n, d2)" "\<forall>e \<in># D. doc_id e \<noteq> Some n"
    "docs (db_mongo d2) = docs (mongo w)" "m_connections d2 \<noteq> []"
    by (rule DB_newAccountId_mongo [OF laws(2,4) d1(4)]) (use D d1(3) in auto)
  define salt where "salt = rand_bytes X (w_rand w) 32"
  obtain d3 where d3: "DB_insertAccount X n (at_str X head ''name'') (at_str X head ''phone'')
        (u_toBool X (u_at X head ''findByName'')) (u_toBool X (u_at X head ''findByPhone''))
        (digest (pw @ salt)) salt d2 = Some (True, d3)"
    "docs (db_mongo d3) = (docs (mongo w))(''zway.accounts'' :=
      add_mset (account_doc n (at_str X head ''name'') (at_str X head ''phone'')
        (u_toBool X (u_at X head ''findByName'')) (u_toBool X (u_at X head ''findByPhone''))
        (digest (pw @ salt)) salt) D)" "m_connections d3 \<noteq> []"
    by (rule DB_insertAccount_mongo [OF laws(1) d2(4)]) (simp add: d2(3) account_doc_def D(1))
  have not_in: "\<not> STATUS_LOGGEDIN \<le> status sid w" using assms(7) by simp
  have "processCreateAccount X sid head w = Some (True, postRequestSuccess sid (at_int X head ''requestId'')
      (UBJ_OBJ X [(''accountId'', UInt32 n)]) (w\<lparr>w_rand := Suc (w_rand w), w_dbs := d3\<rparr>))"
    using not_in assms(8) d1(1) d2(1) d3(1) \<open>r = None\<close>
    by (simp add: processCreateAccount_def valid_account_request_def Let_def onDb_def next_rand_bytes_def
        sha_lawsD [OF laws(3)] ubj_lawsD [OF laws(5)] salt_def)
  with d2(2) d3(2,3) show thesis by (intro that)
qed


text \<open>A login to an account that is stored once, with a password in a buffer.\<close>

lemma login_stored:
  assumes laws: "mongo_laws X docs sat" "sat_laws sat" "sha_laws X digest" "bson_laws X" "ubj_laws X" "cursor_law X"
    and "db_ready w" and "status sid w < STATUS_LOGGEDIN"
    and "u_hasField X head ''account''" and "at_int X head ''account'' = n"
    and "u_hasField X head ''password''" and "u_at X head ''password'' = UBuffer p"
    and acc: "acc = account_doc n nm ph fn fp (digest (pw @ salt)) salt"
    and D: "docs (mongo w) ''zway.accounts'' = add_mset acc D" "\<forall>e \<in># D. \<exists>m. doc_id e = Some m \<and> m \<noteq> n"
  shows "\<exists>w'. processLogin X sid head w = Some (digest (p @ salt) = digest (pw @ salt), w')"
proof -
  let ?q = "[(''id'', BNumberInt n)]" and ?f = "[(''pass'', BNumberInt 1), (''salt'', BNumberInt 1)]"
  have not_in: "\<not> STATUS_LOGGEDIN \<le> status sid w" using assms(8) by simp
  obtain r d where d: "DB_getAccount X ?q ?f (w_dbs w) = Some (r, d)"
    "found sat ?q (add_mset acc D) (project (Some ?f)) r" "m_connections d \<noteq> []"
    using DB_getAccount_mongo [OF laws(1) assms(7)] D(1) by metis
  have int: "doc_id e = Some m \<Longrightarrow> sat ?q e \<longleftrightarrow> m = n" for e m
    by (auto simp: doc_id_def sat_lawsD(3) [OF laws(2)] split: option.splits bson.splits)
  have "doc_id acc = Some n" by (simp add: acc account_doc_def doc_id_def)
  then have "r = Some (project (Some ?f) acc)"
    using int D(2) by (intro found_unique [OF d(2)]) auto
  then have verify: "r = Some (project (Some ?f) acc)"
    "verifyPassword X (project (Some ?f) acc) (Some p) = Some (digest (p @ salt) = digest (pw @ salt))"
    using verifyPassword_stored [OF laws(3,4,5)] acc by simp_all
  obtain w' where "login_accepted X sid head n (w\<lparr>w_dbs := d\<rparr>) = Some (True, w')"
    using login_accepted_total [OF _ laws(6), of "w\<lparr>w_dbs := d\<rparr>" sid head n] d(3) by auto
  then show ?thesis
    using not_in assms(9,10,11,12) d(1) verify
    by (simp add: processLogin_def Let_def onDb_def ubj_lawsD [OF laws(5)])
qed

text \<open>
  C7. An account can be used as created: \<open>processCreateAccount\<close> with a free name and a
  32-byte password succeeds, answers a fresh account id, and from then on a login to that
  id (on any session not logged in) is decided by the password alone: it succeeds when the
  salted digest of the password given equals that of the password chosen, in particular for
  the right password, and is refused otherwise.
\<close>

theorem create_then_login:
  assumes laws: "mongo_laws X docs sat" "sort_law X docs" "sat_laws sat" "sha_laws X digest" "bson_laws X"
      "ubj_laws X" "cursor_law X"
    and "db_ready w" and "status sid w < STATUS_LOGGEDIN"
    and "valid_account_request X head pw"
    and D: "D = docs (mongo w) ''zway.accounts''" "accounts_numbered D"
    and "\<forall>e \<in># D. \<not> sat (name_query (at_str X head ''name'')) e"
  shows "\<exists>n salt w'. processCreateAccount X sid head w = Some (True, w') \<and>
    (\<forall>e \<in># D. doc_id e \<noteq> Some n) \<and>
    calls sid w' = calls sid w @
      [PostRequestSuccess (at_int X head ''requestId'') (UBJ_OBJ X [(''accountId'', UInt32 n)])] \<and>
    (\<forall>t login p. status t w' < STATUS_LOGGEDIN \<and>
       u_hasField X login ''account'' \<and> at_int X login ''account'' = n \<and>
       u_hasField X login ''password'' \<and> u_at X login ''password'' = UBuffer p \<longrightarrow>
       (\<exists>w''. processLogin X t login w' = Some (digest (p @ salt) = digest (pw @ salt), w'')))"
proof -
  obtain n salt d i where n: "\<forall>e \<in># D. doc_id e \<noteq> Some n"
    and created: "processCreateAccount X sid head w = Some (True, postRequestSuccess sid (at_int X head ''requestId'')
      (UBJ_OBJ X [(''accountId'', UInt32 n)]) (w\<lparr>w_rand := i, w_dbs := d\<rparr>))"
    and docs: "docs (db_mongo d) = (docs (mongo w))(''zway.accounts'' :=
      add_mset (account_doc n (at_str X head ''name'') (at_str X head ''phone'')
        (u_toBool X (u_at X head ''findByName'')) (u_toBool X (u_at X head ''findByPhone''))
        (digest (pw @ salt)) salt) D)"
    and ready: "m_connections d \<noteq> []"
    by (rule createAccount_stores [OF laws(1,2,4,5,6) assms(8,9,10) D assms(13)])
  define w' where "w' = postRequestSuccess sid (at_int X head ''requestId'')
      (UBJ_OBJ X [(''accountId'', UInt32 n)]) (w\<lparr>w_rand := i, w_dbs := d\<rparr>)"
  have others: "\<forall>e \<in># D. \<exists>m. doc_id e = Some m \<and> m \<noteq> n" using n D(2) by fastforce
  have "w_dbs w' = d" by (simp add: w'_def)
  then have "\<exists>w''. processLogin X t login w' = Some (digest (p @ salt) = digest (pw @ salt), w'')"
    if "status t w' < STATUS_LOGGEDIN" "u_hasField X login ''account''" "at_int X login ''account'' = n"
      "u_hasField X login ''password''" "u_at X login ''password'' = UBuffer p" for t login p
    using docs ready others by (intro login_stored [OF laws(1,3,4,5,6,7) _ that refl]) auto
  moreover have "calls sid w' = calls sid w @
      [PostRequestSuccess (at_int X head ''requestId'') (UBJ_OBJ X [(''accountId'', UInt32 n)])]"
    by (simp add: w'_def)
  ultimately show ?thesis using created [folded w'_def] n by blast
qed

end
