(* ===== verification/Contacts.thy ===== *)
theory Contacts
  imports Accounts
begin

text \<open>
  The contact handlers on a database that answers: what \<open>processAddContactRequest\<close>,
  \<open>processAcceptContact\<close> and \<open>processRejectContact\<close> store, delete and announce.
\<close>

section \<open>Reading and writing through a handler\<close>

text \<open>A step that only reads: the state differs in the connection queue at most.\<close>

definition reads :: "('db \<Rightarrow> string \<Rightarrow> bson_obj multiset) \<Rightarrow> ('db, 'm) world \<Rightarrow> ('db, 'm) world \<Rightarrow> bool" where
  "reads docs w w' \<longleftrightarrow> (\<exists>d. w' = w\<lparr>w_dbs := d\<rparr> \<and> docs (db_mongo d) = docs (mongo w) \<and> m_connections d \<noteq> [])"

lemma readsD:
  assumes "reads docs w w'"
  shows "docs (mongo w') = docs (mongo w)" "db_ready w'" "w_heap w' = w_heap w" "w_posted w' = w_posted w"
    "m_sessions w' = m_sessions w"
  using assms by (auto simp: reads_def)

lemma reads_trans: "reads docs w w' \<Longrightarrow> reads docs w' w'' \<Longrightarrow> reads docs w w''"
  by (auto simp: reads_def)

lemma onDb_getAccount:
  assumes "mongo_laws X docs sat" and "db_ready w" and "onDb (DB_getAccount X q f) w = Some (r, w')"
  shows "reads docs w w'" and "found sat q (docs (mongo w) ''zway.accounts'') (project (Some f)) r"
proof -
  obtain r1 d where "DB_getAccount X q f (w_dbs w) = Some (r1, d)"
    "found sat q (docs (mongo w) ''zway.accounts'') (project (Some f)) r1"
    "docs (db_mongo d) = docs (mongo w)" "m_connections d \<noteq> []"
    using DB_getAccount_mongo [OF assms(1,2), of q f] by metis
  with assms(3) show "reads docs w w'" and "found sat q (docs (mongo w) ''zway.accounts'') (project (Some f)) r"
    by (auto simp: onDb_Some reads_def)
qed

lemma onDb_getRequest:
  assumes "mongo_laws X docs sat" and "db_ready w" and "onDb (DB_getRequest X q) w = Some (r, w')"
  shows "reads docs w w'" and "found sat q (docs (mongo w) ''zway.requests'') id r"
proof -
  obtain r1 d where "DB_getRequest X q (w_dbs w) = Some (r1, d)"
    "found sat q (docs (mongo w) ''zway.requests'') id r1"
    "docs (db_mongo d) = docs (mongo w)" "m_connections d \<noteq> []"
    using DB_getRequest_mongo [OF assms(1,2), of q] by metis
  with assms(3) show "reads docs w w'" and "found sat q (docs (mongo w) ''zway.requests'') id r"
    by (auto simp: onDb_Some reads_def)
qed

lemma onDb_requestPending:
  assumes "mongo_laws X docs sat" and "db_ready w" and "onDb (DB_requestPending X q) w = Some (r, w')"
  shows "reads docs w w'"
    and "r \<longleftrightarrow> (of_nat (size (filter_mset (sat q) (docs (mongo w) ''zway.requests''))) :: uint64) = 1"
proof -
  obtain d where "DB_requestPending X q (w_dbs w) =
      Some ((of_nat (size (filter_mset (sat q) (docs (mongo w) ''zway.requests''))) :: uint64) = 1, d)"
    "docs (db_mongo d) = docs (mongo w)" "m_connections d \<noteq> []"
    using DB_requestPending_mongo [OF assms(1,2), of q] by metis
  with assms(3) show "reads docs w w'"
    and "r \<longleftrightarrow> (of_nat (size (filter_mset (sat q) (docs (mongo w) ''zway.requests''))) :: uint64) = 1"
    by (auto simp: onDb_Some reads_def)
qed

text \<open>A step that writes: the requests change from \<open>D\<close> to \<open>D'\<close>, the rest does not.\<close>

definition writes_requests ::
  "('db \<Rightarrow> string \<Rightarrow> bson_obj multiset) \<Rightarrow> bson_obj multiset \<Rightarrow> ('db, 'm) world \<Rightarrow> ('db, 'm) world \<Rightarrow> bool" where
  "writes_requests docs D' w w' \<longleftrightarrow>
     (\<exists>d. w' = w\<lparr>w_dbs := d\<rparr> \<and> docs (db_mongo d) = (docs (mongo w))(''zway.requests'' := D') \<and> m_connections d \<noteq> [])"

lemma writesD:
  assumes "writes_requests docs D' w w'"
  shows "docs (mongo w') = (docs (mongo w))(''zway.requests'' := D')" "db_ready w'" "w_heap w' = w_heap w"
    "w_posted w' = w_posted w" "m_sessions w' = m_sessions w"
  using assms by (auto simp: writes_requests_def)

lemma onDb_addRequest:
  assumes "mongo_laws X docs sat" and "db_ready w" and "onDb (DB_addRequest X e) w = Some (r, w')"
  shows "r" and "writes_requests docs (add_mset e (docs (mongo w) ''zway.requests'')) w w'"
proof -
  obtain d where "DB_addRequest X e (w_dbs w) = Some (True, d)"
    "docs (db_mongo d) = (docs (mongo w))(''zway.requests'' := add_mset e (docs (mongo w) ''zway.requests''))"
    "m_connections d \<noteq> []"
    using DB_addRequest_mongo [OF assms(1,2), of e] by metis
  with assms(3) show "r" and "writes_requests docs (add_mset e (docs (mongo w) ''zway.requests'')) w w'"
    by (auto simp: onDb_Some writes_requests_def)
qed

lemma onDb_deleteRequest_inv:
  assumes "mongo_laws X docs sat" and "db_ready w" and "onDb (DB_deleteRequest X q) w = Some (r, w')"
  obtains D' where "r" and "deleted sat q (docs (mongo w) ''zway.requests'') D'" and "writes_requests docs D' w w'"
proof -
  obtain d' D' where "onDb (DB_deleteRequest X q) w = Some (True, w\<lparr>w_dbs := d'\<rparr>)" "m_connections d' \<noteq> []"
    "deleted sat q (docs (mongo w) ''zway.requests'') D'"
    "docs (db_mongo d') = (docs (mongo w))(''zway.requests'' := D')"
    by (rule onDb_deleteRequest [OF assms(1,2)])
  with assms(3) show thesis by (intro that [of D']) (auto simp: writes_requests_def)
qed

section \<open>Rejecting a contact\<close>

text \<open>
  C15. Rejecting a contact request stored for the account: the client is told it succeeded,
  a rejection is stored for the sender of the request, one request with that id is
  deleted, and the sender is served by a task. When no request with that id is stored for
  the account, the request is refused and nothing changes.
\<close>

theorem reject_contact_effect:
  assumes "mongo_laws X docs sat" and "db_ready w" and "status sid w \<ge> STATUS_LOGGEDIN"
    and "D = docs (mongo w) ''zway.requests''" and "rid = at_int X head ''requestId''"
    and "cid = at_int X head ''contactRequestId''"
    and "processRejectContact X sid head w = Some (r, w')"
  shows "if r then \<exists>e D'. e \<in># D \<and> sat (request_key cid (accountId sid w)) e \<and>
      deleted sat [(''id'', BNumberInt cid)]
        (add_mset [(''type'', BNumberInt (rt_code X RejectContact)), (''id'', BNumberInt rid),
          (''contactRequestId'', BNumberInt cid), (''src'', BNumberInt (accountId sid w)),
          (''dst'', BNumberInt (doc_int X ''src'' e))] D) D' \<and>
      docs (mongo w') = (docs (mongo w))(''zway.requests'' := D') \<and>
      calls sid w' = calls sid w @ [PostRequestSuccess rid (UObject [])] \<and>
      w_posted w' = w_posted w @ [doc_int X ''src'' e]
    else (\<forall>e \<in># D. \<not> sat (request_key cid (accountId sid w)) e) \<and> docs (mongo w') = docs (mongo w) \<and>
      calls sid w' = calls sid w @ [PostRequestFailure rid 1 ''Invalid request''] \<and> w_posted w' = w_posted w"
proof -
  have not_lt: "\<not> status sid w < STATUS_LOGGEDIN" using assms(3) by simp
  obtain req w1 where w1: "onDb (DB_getRequest X (request_key cid (accountId sid w))) w = Some (req, w1)"
    using assms(7) not_lt assms(6) by (auto simp: processRejectContact_def Let_def bind_pair)
  note get = onDb_getRequest [OF assms(1,2) w1]
  note same = readsD [OF get(1)]
  show ?thesis
  proof (cases req)
    case None
    then have "\<not> r" "w' = postRequestFailure sid rid 1 ''Invalid request'' w1"
      using assms(5,6,7) not_lt w1 by (auto simp: processRejectContact_def Let_def)
    then show ?thesis using get(2) None same assms(4) by (auto simp: found_def)
  next
    case (Some e)
    let ?doc = "[(''type'', BNumberInt (rt_code X RejectContact)), (''id'', BNumberInt rid),
          (''contactRequestId'', BNumberInt cid), (''src'', BNumberInt (accountId sid w)),
          (''dst'', BNumberInt (doc_int X ''src'' e))]"
    obtain ok w2 where w2: "onDb (DB_addRequest X ?doc) w1 = Some (ok, w2)"
      using assms(5,6,7) not_lt w1 Some same(3) by (auto simp: processRejectContact_def Let_def bind_pair)
    note add = onDb_addRequest [OF assms(1) same(2) w2]
    note same2 = writesD [OF add(2)]
    let ?w3 = "postRequestSuccess sid rid (UObject []) w2"
    obtain ok' w4 where w4: "onDb (DB_deleteRequest X [(''id'', BNumberInt cid)]) ?w3 = Some (ok', w4)"
      and r: "r" "w' = post_task (doc_int X ''src'' e) w4"
      using assms(5,6,7) not_lt w1 Some same(3) w2 add(1)
      by (auto simp: processRejectContact_def Let_def bind_pair)
    have "db_ready ?w3" using same2(2) by simp
    then obtain D' where D': "deleted sat [(''id'', BNumberInt cid)] (docs (mongo ?w3) ''zway.requests'') D'"
      "writes_requests docs D' ?w3 w4"
      using onDb_deleteRequest_inv [OF assms(1) _ w4] by metis
    have "docs (mongo ?w3) ''zway.requests'' = add_mset ?doc D"
      using same2(1) same(1) assms(4) by simp
    moreover have "docs (mongo w4) = (docs (mongo w))(''zway.requests'' := D')"
      using writesD(1) [OF D'(2)] same2(1) same(1) by simp
    moreover have "e \<in># D \<and> sat (request_key cid (accountId sid w)) e"
      using get(2) Some assms(4) by (simp add: found_def)
    ultimately show ?thesis
      using r D'(1) writesD(3,4) [OF D'(2)] same2(3,4) same(3,4) by (auto simp: r)
  qed
qed

section \<open>Accepting a contact\<close>

definition accept_fields :: "('db, 'z) ext_scheme \<Rightarrow> uint32 \<Rightarrow> uint32 \<Rightarrow> uint32 \<Rightarrow> uint32 \<Rightarrow> bson_obj \<Rightarrow> bson_obj \<Rightarrow> bson_obj" where
  "accept_fields X rid cid src dst account publicKey =
     [(''id'', BNumberInt rid), (''contactRequestId'', BNumberInt cid),
      (''type'', BNumberInt (rt_code X AcceptContact)), (''src'', BNumberInt src), (''dst'', BNumberInt dst),
      (''name'', b_elem X account ''name''), (''phone'', b_elem X account ''phone''),
      (''publicKey'', BObject publicKey)]"

lemma accept_reaches:
  assumes "mongo_laws X docs sat" and "db_ready w"
    and "rid = at_int X head ''requestId''" and "cid = at_int X head ''contactRequestId''"
    and "processAcceptContact X sid head w = Some (True, w')"
  obtains e account key publicKey v where "reads docs w v"
    and "e \<in># docs (mongo w) ''zway.requests''" and "sat (request_key cid (accountId sid w)) e"
    and "b_Obj X (b_elem X e ''publicKey'') = Some key" and "get_publicKey X head = Some publicKey"
    and "accept_commit X sid rid cid e account (bsonObjToUbj X key) publicKey v = Some (True, w')"
proof -
  have not_lt: "\<not> status sid w < STATUS_LOGGEDIN"
    using assms(5) by (auto simp: processAcceptContact_def Let_def)
  obtain req w1 where w1: "onDb (DB_getRequest X (request_key cid (accountId sid w))) w = Some (req, w1)"
    using assms(4,5) not_lt by (auto simp: processAcceptContact_def Let_def bind_pair)
  note get = onDb_getRequest [OF assms(1,2) w1]
  note same = readsD [OF get(1)]
  obtain e where e: "req = Some e"
    using assms(4,5) not_lt w1 by (cases req) (auto simp: processAcceptContact_def Let_def)
  obtain acc w2 where w2: "onDb (DB_getAccount X (own_account_query sid w) name_and_phone) w1 = Some (acc, w2)"
    using assms(4,5) not_lt w1 e same(3) by (auto simp: processAcceptContact_def Let_def bind_pair)
  obtain account where acc: "acc = Some account"
    using assms(4,5) not_lt w1 e same(3) w2 by (cases acc) (auto simp: processAcceptContact_def Let_def)
  obtain key where key: "b_Obj X (b_elem X e ''publicKey'') = Some key"
    using assms(4,5) not_lt w1 e same(3) w2 acc
    by (auto simp: processAcceptContact_def Let_def Option.bind_eq_Some_conv)
  obtain publicKey where pk: "get_publicKey X head = Some publicKey"
    using assms(4,5) not_lt w1 e same(3) w2 acc key
    by (cases "get_publicKey X head") (auto simp: processAcceptContact_def Let_def)
  have "accept_commit X sid rid cid e account (bsonObjToUbj X key) publicKey w2 = Some (True, w')"
    using assms(3,4,5) not_lt w1 e same(3) w2 acc key pk by (simp add: processAcceptContact_def Let_def)
  moreover have "reads docs w w2" by (rule reads_trans [OF get(1) onDb_getAccount(1) [OF assms(1) same(2) w2]])
  moreover have "e \<in># docs (mongo w) ''zway.requests'' \<and> sat (request_key cid (accountId sid w)) e"
    using get(2) e by (simp add: found_def)
  ultimately show thesis using key pk by (intro that) auto
qed

text \<open>
  C14. Accepting a contact request stored for the account: the acceptance, with the name, the
  phone number and the public key of the accepting account, is stored for the sender of
  the request, one request with the accepted id is deleted, the sender is entered as a
  contact that gets status messages, and is served by a task; the answer to the client
  carries the public key the sender put into its request.
\<close>

theorem accept_contact_effect:
  assumes "mongo_laws X docs sat" and "db_ready w"
    and "D = docs (mongo w) ''zway.requests''" and "rid = at_int X head ''requestId''"
    and "cid = at_int X head ''contactRequestId''"
    and "processAcceptContact X sid head w = Some (True, w')"
  shows "\<exists>e account key publicKey doc D' obj.
    e \<in># D \<and> sat (request_key cid (accountId sid w)) e \<and>
    b_Obj X (b_elem X e ''publicKey'') = Some key \<and> get_publicKey X head = Some publicKey \<and>
    BSON X (accept_fields X rid cid (accountId sid w) (doc_int X ''src'' e) account publicKey) = Some doc \<and>
    deleted sat [(''id'', BNumberInt cid)] (add_mset doc D) D' \<and>
    docs (mongo w') = (docs (mongo w))(''zway.requests'' := D') \<and>
    calls sid w' = calls sid w @ [PostRequestSuccess rid obj] \<and>
    (ubj_laws X \<longrightarrow> u_at X obj ''publicKey'' = bsonObjToUbj X key \<and> u_at X obj ''contactId'' = UInt32 (doc_int X ''src'' e)) \<and>
    sm_find (s_contacts (w_heap w' sid)) (doc_int X ''src'' e) =
      Some (UBJ_OBJ X [(''contactId'', UInt32 (doc_int X ''src'' e)), (''notifyStatus'', UInt32 1)]) \<and>
    w_posted w' = w_posted w @ [doc_int X ''src'' e]"
proof -
  obtain e account key publicKey v where v: "reads docs w v" "e \<in># D"
    "sat (request_key cid (accountId sid w)) e" "b_Obj X (b_elem X e ''publicKey'') = Some key"
    "get_publicKey X head = Some publicKey"
    and commit: "accept_commit X sid rid cid e account (bsonObjToUbj X key) publicKey v = Some (True, w')"
    using accept_reaches [OF assms(1,2,4,5,6)] assms(3) by metis
  note same = readsD [OF v(1)]
  let ?src = "doc_int X ''src'' e"
  obtain doc ok w1 where doc: "BSON X (accept_fields X rid cid (accountId sid w) ?src account publicKey) = Some doc"
    and w1: "onDb (DB_addRequest X doc) v = Some (ok, w1)"
    using commit same(3) unfolding accept_commit_def Let_def accept_fields_def
    by (auto simp: bind_pair Option.bind_eq_Some_conv)
  note add = onDb_addRequest [OF assms(1) same(2) w1]
  note same1 = writesD [OF add(2)]
  define obj where "obj = UBJ_OBJ X
         [(''requestId'', UInt32 rid), (''status'', UInt32 1), (''contactId'', UInt32 ?src),
          (''contactStatus'', UInt32 (getContactStatus X ?src w1)),
          (''name'', UStr (b_str X (b_elem X e ''name''))), (''phone'', UStr (b_str X (b_elem X e ''phone''))),
          (''publicKey'', bsonObjToUbj X key)]"
  let ?w2 = "postRequestSuccess sid rid obj w1"
  obtain ok' w3 where w3: "onDb (DB_deleteRequest X [(''id'', BNumberInt cid)]) ?w2 = Some (ok', w3)"
    and w': "w' = post_task ?src (upd_sess sid (\<lambda>s. s\<lparr>s_contacts := sm_put ?src
             (UBJ_OBJ X [(''contactId'', UInt32 ?src), (''notifyStatus'', UInt32 1)]) (s_contacts s)\<rparr>) w3)"
    using commit same(3) doc w1 add(1) unfolding accept_commit_def Let_def accept_fields_def
    by (auto simp: bind_pair obj_def)
  have "db_ready ?w2" using same1(2) by simp
  then obtain D' where D': "deleted sat [(''id'', BNumberInt cid)] (docs (mongo ?w2) ''zway.requests'') D'"
      "writes_requests docs D' ?w2 w3"
    using onDb_deleteRequest_inv [OF assms(1) _ w3] by metis
  have "docs (mongo w1) ''zway.requests'' = add_mset doc D"
    "docs (mongo w3) = (docs (mongo w))(''zway.requests'' := D')"
    using writesD(1) [OF D'(2)] same1(1) same(1) assms(3) by simp_all
  moreover have "ubj_laws X \<longrightarrow> u_at X obj ''publicKey'' = bsonObjToUbj X key \<and> u_at X obj ''contactId'' = UInt32 ?src"
    by (simp add: obj_def u_at_UBJ_OBJ)
  ultimately show ?thesis
    using doc v D'(1) writesD(3,4) [OF D'(2)] same1(3,4) same(3,4)
    by (intro exI [of _ e] exI [of _ account] exI [of _ key] exI [of _ publicKey] exI [of _ doc]
        exI [of _ D'] exI [of _ obj]) (simp add: w' sm.find_put)
qed

text \<open>
  C38. The request to accept is looked up by its id and recipient only, not by its type: a
  client that accepts the id of a stored request without a public key (a message, say)
  makes the handler throw an exception that nothing catches.
\<close>

theorem accept_without_key_throws:
  assumes "mongo_laws X docs sat" and "bson_laws X" and "db_ready w" and "status sid w \<ge> STATUS_LOGGEDIN"
    and "D = docs (mongo w) ''zway.requests''"
    and "q = request_key (at_int X head ''contactRequestId'') (accountId sid w)"
    and "\<exists>e \<in># D. sat q e" and "\<forall>e \<in># D. sat q e \<longrightarrow> map_of e ''publicKey'' = None"
    and "\<exists>a \<in># docs (mongo w) ''zway.accounts''. sat (own_account_query sid w) a"
  shows "processAcceptContact X sid head w = None"
proof -
  have not_lt: "\<not> status sid w < STATUS_LOGGEDIN" using assms(4) by simp
  obtain r d where d: "DB_getRequest X q (w_dbs w) = Some (r, d)" "found sat q D id r"
    "docs (db_mongo d) = docs (mongo w)" "m_connections d \<noteq> []"
    using DB_getRequest_mongo [OF assms(1,3)] assms(5) by metis
  obtain e where e: "r = Some e" "map_of e ''publicKey'' = None"
    using d(2) assms(7,8) by (cases r) (auto simp: found_def)
  obtain r2 d2 where d2: "DB_getAccount X (own_account_query sid w) name_and_phone d = Some (r2, d2)"
    "found sat (own_account_query sid w) (docs (db_mongo d) ''zway.accounts'') (project (Some name_and_phone)) r2"
    using DB_getAccount_mongo [OF assms(1) d(4)] by metis
  obtain account where "r2 = Some account"
    using d2(2) d(3) assms(9) by (cases r2) (auto simp: found_def)
  then show ?thesis
    using not_lt d(1) e d2(1) bson_lawsD(14) [OF assms(2)]
    by (simp add: processAcceptContact_def Let_def onDb_def assms(6) bson_lawsD(3) [OF assms(2)])
qed

end
