(* ===== verification/Control.thy ===== *)
theory Control
  imports Fcm Contacts
begin

text \<open>
  The life of the server as a whole: src/src/server.cpp (\<open>start\<close>, \<open>close\<close>, \<open>pause\<close>,
  \<open>resume\<close>, \<open>accept\<close>, \<open>handleSession\<close>, \<open>info\<close>, \<open>uptimeStr\<close>) and the worker threads, the
  console and the order of start and shutdown in src/src/main.cpp.

  The acceptor socket appears as the list of calls made on it; whether a call throws is
  the parameter \<open>throws\<close>, a function of the calls before it. \<open>v_outstanding\<close> are the sessions
  whose \<open>async_accept\<close> has not called its handler yet.
\<close>

section \<open>The acceptor\<close>

datatype acceptor_call = AccOpen | AccSetOption | AccBind | AccListen | AccClose | AsyncAccept nat

record ('db, 'm) server =
  v_world :: "('db, 'm) world"
  v_acceptor :: "acceptor_call list"
  v_outstanding :: "nat list"
  v_nextSession :: nat
  v_timer :: bool
  v_startTime :: int

text \<open>A sequence of calls inside a \<open>try\<close> block: it ends at the first call that throws.\<close>

fun acc_calls ::
  "(acceptor_call list \<Rightarrow> acceptor_call \<Rightarrow> bool) \<Rightarrow> acceptor_call list \<Rightarrow> acceptor_call list \<Rightarrow> bool \<times> acceptor_call list"
where
  "acc_calls throws [] tr = (True, tr)"
| "acc_calls throws (c # cs) tr = (if throws tr c then (False, tr) else acc_calls throws cs (tr @ [c]))"

definition Server_accept :: "('db, 'm) server \<Rightarrow> ('db, 'm) server" where
  "Server_accept v =
     (let s = v_nextSession v;
          w = (v_world v)\<lparr>w_heap := (w_heap (v_world v))(s := new_session)\<rparr>
      in v\<lparr>v_world := w, v_nextSession := Suc s, v_acceptor := v_acceptor v @ [AsyncAccept s],
           v_outstanding := v_outstanding v @ [s]\<rparr>)"

definition handleSession ::
  "('db, 'z) ext_scheme \<Rightarrow> io_error \<Rightarrow> nat \<Rightarrow> ('db, 'm) server \<Rightarrow> ('db, 'm) server" where
  "handleSession X error session v =
     (if error = No_error then
        (let w = start X session (v_world v);
             w = w\<lparr>m_numSessions := m_numSessions w + 1\<rparr>
         in Server_accept (v\<lparr>v_world := w\<rparr>))
      else if error = Operation_aborted then v
      else v)"

definition Server_pause ::
  "(acceptor_call list \<Rightarrow> acceptor_call \<Rightarrow> bool) \<Rightarrow> ('db, 'm) server \<Rightarrow> bool \<times> ('db, 'm) server" where
  "Server_pause throws v =
     (if m_paused (v_world v) then (False, v)
      else (let (ok, tr) = acc_calls throws [AccClose] (v_acceptor v);
                v = v\<lparr>v_acceptor := tr\<rparr>
            in if ok then (True, v\<lparr>v_world := (v_world v)\<lparr>m_paused := True\<rparr>\<rparr>) else (False, v)))"

definition Server_resume ::
  "(acceptor_call list \<Rightarrow> acceptor_call \<Rightarrow> bool) \<Rightarrow> ('db, 'm) server \<Rightarrow> bool \<times> ('db, 'm) server" where
  "Server_resume throws v =
     (if \<not> m_paused (v_world v) then (False, v)
      else (let (ok, tr) = acc_calls throws [AccOpen, AccBind, AccListen] (v_acceptor v);
                v = v\<lparr>v_acceptor := tr\<rparr>
            in if ok then
                 (let v = Server_accept v in (True, v\<lparr>v_world := (v_world v)\<lparr>m_paused := False\<rparr>\<rparr>))
               else (False, v)))"

text \<open>
  \<open>start\<close>. The certificate files and the resolver come before the first call on the
  acceptor: \<open>prepared\<close> says whether they succeeded.
\<close>

definition Server_start ::
  "bool \<Rightarrow> (nat \<Rightarrow> bool) \<Rightarrow> (nat \<Rightarrow> bool) \<Rightarrow> bool \<Rightarrow> (acceptor_call list \<Rightarrow> acceptor_call \<Rightarrow> bool) \<Rightarrow> int
     \<Rightarrow> ('db, 'm) server \<Rightarrow> bool \<times> ('db, 'm) server" where
  "Server_start initialized connect_throws auth prepared throws now v =
     (let (ok, d) = DB_startup initialized connect_throws auth 25 (w_dbs (v_world v));
          v = v\<lparr>v_world := (v_world v)\<lparr>w_dbs := d\<rparr>\<rparr>
      in if \<not> ok then (False, v)
         else if \<not> prepared then (False, v)
         else
           (let (ok, tr) = acc_calls throws [AccOpen, AccSetOption, AccBind, AccListen] (v_acceptor v);
                v = v\<lparr>v_acceptor := tr\<rparr>
            in if \<not> ok then (False, v)
               else (True, Server_accept (v\<lparr>v_timer := True, v_startTime := now\<rparr>))))"

text \<open>\<open>close\<close> uses the variants of the calls that report errors in a code it ignores.\<close>

definition Server_close :: "('db, 'm) server \<Rightarrow> ('db, 'm) server" where
  "Server_close v =
     (let v = v\<lparr>v_timer := False\<rparr>;
          v = v\<lparr>v_acceptor := v_acceptor v @ [AccClose]\<rparr>;
          w = Server_removeSessions (v_world v);
          w = w\<lparr>w_dbs := DB_cleanup (w_dbs w)\<rparr>
      in v\<lparr>v_world := w\<rparr>)"

section \<open>Status information\<close>

text \<open>
  The running time in seconds; when the local clock was set back it is negative, and none
  of the parts is printed.
\<close>

definition uptimeStr :: "int \<Rightarrow> string" where
  "uptimeStr up =
     (let hours = nat up div 3600; minutes = nat up div 60 mod 60; seconds = nat up mod 60 in
      (if hours div 24 > 0 then dec (hours div 24) @ '' day(s) '' else []) @
      (if hours mod 24 > 0 then dec (hours mod 24) @ '' hour(s) '' else []) @
      (if minutes > 0 then dec minutes @ '' minute(s) '' else []) @
      (if seconds > 0 then dec seconds @ '' second(s) '' else []))"

definition info_line ::
  "('db, 'z) ext_scheme \<Rightarrow> nat \<Rightarrow> string \<times> ('db, 'm) world \<Rightarrow> (string \<times> ('db, 'm) world) option" where
  "info_line X s = (\<lambda>(sessionList, w). do {
     (account, w) \<leftarrow> onDb (DB_getAccount X [(''id'', BNumberInt (accountId s w))] [(''name'', BNumberInt 1)]) w;
     let name = (case account of Some account \<Rightarrow> b_str X (b_elem X account ''name'') | None \<Rightarrow> ''?'');
     Some (sessionList @ s_remoteHost (w_heap w s) @ [CHR 0x09] @ name @ [CHR 0x0A], w) })"

definition Server_info ::
  "('db, 'z) ext_scheme \<Rightarrow> int \<Rightarrow> ('db, 'm) world \<Rightarrow> (string \<times> ('db, 'm) world) option" where
  "Server_info X up w = do {
     (sessionList, w) \<leftarrow> for_each (concat (map snd (m_sessions w))) (info_line X) ([], w);
     Some (''Status info:'' @ [CHR 0x0A] @ ''Duration: '' @ uptimeStr up @ [CHR 0x0A] @
        ''Stream buffers: '' @ dec (Server_numStreamBuffers w) @ [CHR 0x0A] @
        ''Sessions: '' @ dec (length (m_sessions w)) @ [CHR 0x0A] @ sessionList, w) }"

section \<open>Threads and console\<close>

text \<open>
  The loop that creates the worker threads: the comparison \<open>i<numWorkers\<close> of a
  \<open>uint32_t\<close> with an \<open>int32_t\<close> is made unsigned, so both are 32-bit words here.
\<close>

function create_workers :: "uint32 \<Rightarrow> uint32 \<Rightarrow> nat \<Rightarrow> nat" where
  "create_workers numWorkers i created =
     (if i < numWorkers \<and> i < 50 then create_workers numWorkers (i + 1) (Suc created) else created)"
  by auto
termination
  by (relation "measure (\<lambda>(n, i, c). 50 - unat i)")
    (auto simp: word_less_nat_alt unat_word_ariths)

declare create_workers.simps [simp del]

text \<open>
  The console: \<open>getchar()\<close> at the end of the input returns \<open>EOF\<close>, which the conversion to
  \<open>char\<close> makes 255, once and again. \<open>input k\<close> is what the \<open>k\<close>-th call delivers, and
  \<open>meanwhile k\<close> what the workers did to the state while it waited; a run that never ends
  has the value \<^const>\<open>None\<close>, as has one that ends in a crash.
\<close>

definition console_command ::
  "('db, 'z) ext_scheme \<Rightarrow> (acceptor_call list \<Rightarrow> acceptor_call \<Rightarrow> bool) \<Rightarrow> int \<Rightarrow> char \<Rightarrow> ('db, 'm) server
     \<Rightarrow> ('db, 'm) server option" where
  "console_command X throws up c v =
     (if c = CHR ''i'' then do {
        (txt, w) \<leftarrow> Server_info X up (v_world v);
        Some (v\<lparr>v_world := w\<rparr>) }
      else if c = CHR ''r'' then Some (v\<lparr>v_world := Server_removeSessions (v_world v)\<rparr>)
      else if c = CHR ''p'' then
        Some (if m_paused (v_world v) then snd (Server_resume throws v) else snd (Server_pause throws v))
      else Some v)"

partial_function (option) console ::
  "('db, 'z) ext_scheme \<Rightarrow> (acceptor_call list \<Rightarrow> acceptor_call \<Rightarrow> bool) \<Rightarrow> (nat \<Rightarrow> int) \<Rightarrow> (nat \<Rightarrow> char)
     \<Rightarrow> (nat \<Rightarrow> ('db, 'm) server \<Rightarrow> ('db, 'm) server) \<Rightarrow> nat \<Rightarrow> ('db, 'm) server \<Rightarrow> ('db, 'm) server option" where
  "console X throws up input meanwhile k v =
     (if input k = CHR ''e'' then Some (meanwhile k v)
      else do {
        v \<leftarrow> console_command X throws (up k) (input k) (meanwhile k v);
        console X throws up input meanwhile (Suc k) v })"

text \<open>
  \<open>main\<close>: the command line, the daemon (whose parent process and whose failed set-up leave
  through \<open>exit\<close>), the threads, the server, the console or the event loop (\<open>run\<close> is what
  happens to the server until it is stopped), and the shutdown. \<open>join_all\<close> waits for the
  workers: the event loop of the daemon was stopped, the other one runs the tasks that are
  still queued. Setting up the log is left out. The result is how the process ends, the
  number of worker threads, and the server.
\<close>

record options =
  o_parsed :: bool
  o_help :: bool
  o_address :: "string option"
  o_numWorkers :: uint32
  o_daemon :: bool

datatype process_end = Exited int | Returned int

definition daemonize :: "int \<Rightarrow> int \<Rightarrow> int \<Rightarrow> int option" where
  "daemonize pid sid dir =
     (if pid < 0 then Some 1 else if pid > 0 then Some 0
      else if sid < 0 then Some 1 else if dir < 0 then Some 1 else None)"

definition main_shutdown :: "('db, 'z) ext_scheme \<Rightarrow> bool \<Rightarrow> ('db, 'm) server \<Rightarrow> ('db, 'm) server option" where
  "main_shutdown X daemon v =
     (let v = Server_close v in
      if daemon then Some v
      else do {
        w \<leftarrow> for_each (w_posted (v_world v)) (\<lambda>_. run_task X) (v_world v);
        Some (v\<lparr>v_world := w\<rparr>) })"

definition main ::
  "('db, 'z) ext_scheme \<Rightarrow> options \<Rightarrow> int \<times> int \<times> int \<Rightarrow> (('db, 'm) server \<Rightarrow> bool \<times> ('db, 'm) server)
     \<Rightarrow> (('db, 'm) server \<Rightarrow> ('db, 'm) server option) \<Rightarrow> (('db, 'm) server \<Rightarrow> ('db, 'm) server option) \<Rightarrow> ('db, 'm) server
     \<Rightarrow> (process_end \<times> nat \<times> ('db, 'm) server) option" where
  "main X opts = (\<lambda>(pid, sid, dir) start run_console run v.
     if \<not> o_parsed opts then Some (Returned (- 1), 0, v)
     else if o_help opts \<or> o_address opts = None then Some (Returned (- 1), 0, v)
     else
       (case (if o_daemon opts then daemonize pid sid dir else None) of
          Some code \<Rightarrow> Some (Exited code, 0, v)
        | None \<Rightarrow>
            (let workers = create_workers (o_numWorkers opts) 0 0;
                 (ok, v) = start v
             in if \<not> ok then Some (Returned (- 1), workers, v)
                else do {
                  v \<leftarrow> (if o_daemon opts then run v else run_console v);
                  v \<leftarrow> main_shutdown X (o_daemon opts) v;
                  Some (Returned 0, workers, v) })))"

section \<open>Number of threads\<close>

lemma create_workers_from:
  "i \<le> 50 \<Longrightarrow> create_workers n i c = c + (min (unat n) 50 - unat i)"
proof (induction n i c rule: create_workers.induct)
  case (1 n i c)
  show ?case
  proof (cases "i < n \<and> i < 50")
    case True
    then have i: "unat i < unat n" "unat i < 50" by (simp_all add: word_less_nat_alt)
    have "unat (i + 1) = unat i + 1" using i by (simp add: unat_word_ariths)
    moreover from this have "i + 1 \<le> 50" using i by (simp add: word_le_nat_alt)
    ultimately show ?thesis using 1 True i by (simp add: create_workers.simps [of n i c])
  next
    case False
    then show ?thesis
      using 1(2) by (subst create_workers.simps) (auto simp: word_less_nat_alt word_le_nat_alt not_less)
  qed
qed

lemma create_workers_count: "create_workers n 0 0 = min (unat n) 50"
  by (simp add: create_workers_from)

lemma unat_of_sint:
  fixes n :: uint32
  shows "unat n = nat (if sint n < 0 then sint n + 4294967296 else sint n)"
proof -
  have range: "- 2147483648 \<le> sint n" "sint n < 2147483648"
    using sint_greater_eq [of n] sint_less [of n] by simp_all
  have "uint n = sint n mod 4294967296" by (simp add: uint_sint take_bit_eq_mod)
  moreover have "sint n mod 4294967296 = (if sint n < 0 then sint n + 4294967296 else sint n)"
  proof (cases "sint n < 0")
    case True
    have "sint n mod 4294967296 = (sint n + 4294967296) mod 4294967296" by simp
    also have "\<dots> = sint n + 4294967296" using True range by (intro mod_pos_pos_trivial) simp_all
    finally show ?thesis using True by simp
  qed (use range in \<open>simp add: mod_pos_pos_trivial\<close>)
  ultimately show ?thesis by (simp add: unat_eq_nat_uint)
qed

text \<open>
  The number of worker threads: as many as asked for, at most 50, and 50 when a
  negative number was given (the comparison with the counter is unsigned). Together with
  the main thread, up to 24 workers never run out of the 25 database connections that
  \<open>start\<close> opens.
\<close>

theorem worker_threads:
  "create_workers n 0 0 = (if sint n < 0 then 50 else min (nat (sint n)) 50) \<and>
   (0 \<le> sint n \<and> sint n \<le> 24 \<longrightarrow>
     (\<forall>s t. pool_reachable {0..create_workers n 0 0} (pool_init db 25) s \<longrightarrow> p_threads s t \<noteq> NoConnection))"
proof
  show count: "create_workers n 0 0 = (if sint n < 0 then 50 else min (nat (sint n)) 50)"
    using sint_greater_eq [of n] by (auto simp: create_workers_count unat_of_sint)
  show "0 \<le> sint n \<and> sint n \<le> 24 \<longrightarrow>
     (\<forall>s t. pool_reachable {0..create_workers n 0 0} (pool_init db 25) s \<longrightarrow> p_threads s t \<noteq> NoConnection)"
  proof (intro impI allI)
    fix s t
    assume "0 \<le> sint n \<and> sint n \<le> 24" and s: "pool_reachable {0..create_workers n 0 0} (pool_init db 25) s"
    then have "card {0..create_workers n 0 0} \<le> 25" by (simp add: count min_def nat_le_iff)
    from pool_no_starvation [OF s _ this] show "p_threads s t \<noteq> NoConnection" by simp
  qed
qed

theorem worker_threads_witness:
  "create_workers (- 1) 0 0 = 50 \<and> create_workers 20 0 0 = 20 \<and>
   p_threads (pool_init () 25) 3 \<noteq> NoConnection"
  using worker_threads [of "- 1" "()"] worker_threads [of 20 "()"]
    pool_reachable.start [of "{0..create_workers 20 0 0}" "pool_init () 25"] by auto

section \<open>The console\<close>

lemma console_until:
  "\<forall>j. k \<le> j \<and> j < n \<longrightarrow> input j \<noteq> CHR ''e'' \<Longrightarrow> k \<le> n \<Longrightarrow> input n = CHR ''e'' \<Longrightarrow>
   console X throws up input meanwhile k v =
     map_option (meanwhile n) (for_each [k..<n] (\<lambda>j v. console_command X throws (up j) (input j) (meanwhile j v)) v)"
proof (induction "n - k" arbitrary: k v)
  case 0
  then show ?case by (simp add: console.simps)
next
  case (Suc m)
  then have "k < n" by simp
  then have upt: "[k..<n] = k # [Suc k..<n]" by (rule upt_conv_Cons)
  have "input k \<noteq> CHR ''e''" using Suc.prems(1) \<open>k < n\<close> by blast
  moreover have "console X throws up input meanwhile (Suc k) v = map_option (meanwhile n)
      (for_each [Suc k..<n] (\<lambda>j v. console_command X throws (up j) (input j) (meanwhile j v)) v)" for v
    using Suc.prems \<open>k < n\<close> by (intro Suc.hyps(1)) (use Suc.hyps(2) in auto)
  ultimately show ?case
    by (subst console.simps) (simp add: upt, cases "console_command X throws (up k) (input k) (meanwhile k v)"; simp)
qed

lemma console_returns:
  assumes "console X throws up input meanwhile k v = Some v'"
  shows "\<exists>j. input j = CHR ''e''"
  by (rule console.raw_induct [where P = "\<lambda>X throws up input meanwhile k v v'. \<exists>j. input j = CHR ''e''", OF _ assms])
    (auto simp: bind_eq_Some_conv split: if_splits)

text \<open>
  C32. The console ends exactly when an \<open>e\<close> is entered: it has then run the commands entered
  before it, in order, on the state as the workers left it. Without an \<open>e\<close> (at the end of
  the input, for instance, where \<open>getchar\<close> keeps answering \<open>EOF\<close>) it runs forever.
\<close>

theorem console_ends_on_e:
  "((\<forall>j < n. input j \<noteq> CHR ''e'') \<and> input n = CHR ''e'' \<longrightarrow>
     console X throws up input meanwhile 0 v =
       map_option (meanwhile n) (for_each [0..<n] (\<lambda>j v. console_command X throws (up j) (input j) (meanwhile j v)) v)) \<and>
   ((\<forall>j. input j \<noteq> CHR ''e'') \<longrightarrow> console X throws up input meanwhile 0 v = None)"
proof
  show "(\<forall>j < n. input j \<noteq> CHR ''e'') \<and> input n = CHR ''e'' \<longrightarrow>
     console X throws up input meanwhile 0 v =
       map_option (meanwhile n) (for_each [0..<n] (\<lambda>j v. console_command X throws (up j) (input j) (meanwhile j v)) v)"
    using console_until [of 0 n input X throws up meanwhile v] by blast
  show "(\<forall>j. input j \<noteq> CHR ''e'') \<longrightarrow> console X throws up input meanwhile 0 v = None"
    using console_returns [of X throws up input meanwhile 0 v]
    by (cases "console X throws up input meanwhile 0 v") auto
qed

section \<open>The accept loop\<close>

text \<open>
  The events around the acceptor. A started \<open>async_accept\<close> ends with a new connection, or
  with \<open>operation_aborted\<close> after the acceptor was closed; the console pauses and resumes;
  whatever else the server does leaves the flag \<open>m_paused\<close> and the acceptor alone. (The
  failure of an accept with another error is left out here and treated below.)
\<close>

definition since_close :: "acceptor_call list \<Rightarrow> acceptor_call set" where
  "since_close tr = set (takeWhile (\<lambda>c. c \<noteq> AccClose) (rev tr))"

definition since_open :: "acceptor_call list \<Rightarrow> acceptor_call set" where
  "since_open tr = set (takeWhile (\<lambda>c. c \<noteq> AccClose \<and> c \<noteq> AccOpen) (rev tr))"

abbreviation finished :: "nat \<Rightarrow> ('db, 'm) server \<Rightarrow> ('db, 'm) server" where
  "finished s v \<equiv> v\<lparr>v_outstanding := list_remove s (v_outstanding v)\<rparr>"

inductive accept_event ::
  "('db, 'z) ext_scheme \<Rightarrow> (acceptor_call list \<Rightarrow> acceptor_call \<Rightarrow> bool) \<Rightarrow> ('db, 'm) server \<Rightarrow> ('db, 'm) server \<Rightarrow> bool"
  for X throws where
  connected: "s \<in> set (v_outstanding v) \<Longrightarrow> accept_event X throws v (handleSession X No_error s (finished s v))"
| aborted: "s \<in> set (v_outstanding v) \<Longrightarrow> AsyncAccept s \<notin> since_close (v_acceptor v) \<Longrightarrow>
    accept_event X throws v (handleSession X Operation_aborted s (finished s v))"
| paused: "accept_event X throws v (snd (Server_pause throws v))"
| resumed: "accept_event X throws v (snd (Server_resume throws v))"
| working: "m_paused w = m_paused (v_world v) \<Longrightarrow> accept_event X throws v (v\<lparr>v_world := w\<rparr>)"

text \<open>The server accepts: an \<open>async_accept\<close> on the acceptor as last opened is outstanding.\<close>

definition accepting :: "('db, 'm) server \<Rightarrow> bool" where
  "accepting v \<longleftrightarrow> (\<exists>s \<in> set (v_outstanding v). AsyncAccept s \<in> since_open (v_acceptor v))"

lemma since_snoc [simp]:
  "since_close (tr @ [c]) = (if c = AccClose then {} else insert c (since_close tr))"
  "since_open (tr @ [c]) = (if c = AccClose \<or> c = AccOpen then {} else insert c (since_open tr))"
  by (auto simp: since_close_def since_open_def)

lemma since_open_close: "since_open tr \<subseteq> since_close tr"
proof -
  have "set (takeWhile (\<lambda>c. P c \<and> Q c) xs) \<subseteq> set (takeWhile P xs)" for P Q :: "acceptor_call \<Rightarrow> bool" and xs
    by (induction xs) auto
  then show ?thesis unfolding since_open_def since_close_def .
qed

lemma accepting_accept [simp]: "accepting (Server_accept v)"
  by (simp add: accepting_def Server_accept_def Let_def)

lemma accepting_world [simp]: "accepting (v\<lparr>v_world := w\<rparr>) = accepting v"
  by (simp add: accepting_def)

lemma accept_event_accepting:
  assumes "accept_event X throws v v'" and "\<not> m_paused (v_world v) \<Longrightarrow> accepting v"
  shows "\<not> m_paused (v_world v') \<Longrightarrow> accepting v'"
  using assms
proof (induction rule: accept_event.induct)
  case (connected s v)
  show ?case by (simp add: handleSession_def Let_def)
next
  case (aborted s v)
  then have "accepting v" by (simp add: handleSession_def)
  then obtain t where "t \<in> set (v_outstanding v)" "AsyncAccept t \<in> since_open (v_acceptor v)"
    unfolding accepting_def by blast
  moreover from this have "t \<noteq> s" using aborted(2) since_open_close by blast
  ultimately show ?case by (auto simp: accepting_def handleSession_def)
next
  case (paused v)
  then show ?case by (auto simp: Server_pause_def accepting_def split: if_splits)
next
  case (resumed v)
  then show ?case by (auto simp: Server_resume_def Let_def split: if_splits prod.splits)
next
  case (working w v)
  then show ?case by (simp add: accepting_def)
qed


definition opens :: "('db, 'm) server \<Rightarrow> nat" where
  "opens v = count_list (v_acceptor v) AccOpen"

lemma accept_event_opens:
  assumes "accept_event X throws v v'"
  shows "opens v \<le> opens v'" and "v_outstanding v = [] \<Longrightarrow> v_outstanding v' = [] \<or> opens v < opens v'"
  using assms
  by (cases rule: accept_event.cases;
      auto simp: opens_def handleSession_def Server_accept_def Server_pause_def Server_resume_def Let_def)+

text \<open>
  One failed accept ends it: when the accept in flight fails with any error (too many
  open files, say), \<open>handleSession\<close> logs the error and does not accept again. The server is
  not paused and accepts nobody until its acceptor is closed and opened anew.
\<close>

theorem accept_failure_stops:
  assumes "v_outstanding v = [s]" and "v' = handleSession X (Other_error n) s (finished s v)"
    and "(accept_event X throws)\<^sup>*\<^sup>* v' v''" and "opens v'' = opens v"
  shows "v_outstanding v'' = []"
proof -
  have v': "v_outstanding v' = []" "opens v' = opens v"
    using assms(1,2) by (simp_all add: handleSession_def opens_def)
  have "opens v' \<le> opens v'' \<and> (v_outstanding v'' = [] \<or> opens v' < opens v'')"
    using assms(3)
  proof (induction rule: rtranclp_induct)
    case (step y z)
    then show ?case using accept_event_opens [OF step(2)] by auto
  qed (simp add: v')
  then show ?thesis using v'(2) assms(4) by simp
qed

lemma accept_event_stuck:
  assumes "accept_event X throws v v'" and "m_paused (v_world v)" and "AccOpen \<in> since_close (v_acceptor v)"
    and "\<And>tr. AccOpen \<in> since_close tr \<Longrightarrow> throws tr AccOpen"
  shows "m_paused (v_world v') \<and> AccOpen \<in> since_close (v_acceptor v')"
  using assms
  by (cases rule: accept_event.cases)
    (auto simp: handleSession_def Server_accept_def Server_pause_def Server_resume_def start_def
      Server_appendSession_def next_rand_def async_def upd_sess_def Let_def)

text \<open>
  A resume that fails halfway cannot be repeated: when the acceptor was opened and
  binding it failed (the address is still in use, say), the acceptor stays open, opening
  it again throws, and \<open>pause\<close> refuses because the server is paused: it stays paused for good.
\<close>

theorem failed_resume_is_final:
  assumes "\<And>tr. AccOpen \<in> since_close tr \<Longrightarrow> throws tr AccOpen"
    and "m_paused (v_world v)" and "\<not> throws (v_acceptor v) AccOpen"
    and "throws (v_acceptor v @ [AccOpen]) AccBind"
    and "(accept_event X throws)\<^sup>*\<^sup>* (snd (Server_resume throws v)) v'"
  shows "m_paused (v_world v')"
proof -
  have "m_paused (v_world v') \<and> AccOpen \<in> since_close (v_acceptor v')"
    using assms(5)
  proof (induction rule: rtranclp_induct)
    case base
    then show ?case using assms(2-4) by (simp add: Server_resume_def)
  next
    case (step y z)
    then show ?case using accept_event_stuck [OF step(2) _ _ assms(1)] by blast
  qed
  then show ?thesis ..
qed

lemma close_frame [simp]:
  "w_posted (close sid sh False w) = w_posted w" "m_buffers (close sid sh False w) = m_buffers w"
  "w_sbufs (close sid sh False w) = w_sbufs w" "w_nextbuf (close sid sh False w) = w_nextbuf w"
  "m_paused (close sid sh False w) = m_paused w"
  by (simp_all add: close_def setStatus_def upd_sess_def)

lemma close_fold_frame [simp]:
  "w_posted (fold (\<lambda>s w. close s False False w) l w) = w_posted w"
  "m_buffers (fold (\<lambda>s w. close s False False w) l w) = m_buffers w"
  "w_sbufs (fold (\<lambda>s w. close s False False w) l w) = w_sbufs w"
  "w_nextbuf (fold (\<lambda>s w. close s False False w) l w) = w_nextbuf w"
  "m_paused (fold (\<lambda>s w. close s False False w) l w) = m_paused w"
  by (induction l arbitrary: w) simp_all

lemma close_fold_all_frame:
  defines "closed \<equiv> fold (\<lambda>(a, l) w. fold (\<lambda>s w. close s False False w) l w)"
  shows "w_posted (closed m w) = w_posted w" "m_buffers (closed m w) = m_buffers w"
    "w_sbufs (closed m w) = w_sbufs w" "w_nextbuf (closed m w) = w_nextbuf w" "m_paused (closed m w) = m_paused w"
  unfolding closed_def by (induction m arbitrary: w) auto

lemma removeSessions_simps [simp]:
  "m_sessions (Server_removeSessions w) = []" "w_posted (Server_removeSessions w) = w_posted w"
  "m_buffers (Server_removeSessions w) = m_buffers w" "w_sbufs (Server_removeSessions w) = w_sbufs w"
  "w_nextbuf (Server_removeSessions w) = w_nextbuf w" "m_paused (Server_removeSessions w) = m_paused w"
  by (simp_all add: Server_removeSessions_def close_fold_all_frame)

text \<open>
  Closing the server strands the tasks that are still queued: \<open>close\<close> drops the
  database connections, so a task posted before it finds no session, asks the database for
  the user's token and gets no connection. (\<open>join_all\<close> waits for the workers that run them.)
\<close>

lemma stranded_task:
  assumes "w_posted (v_world v) \<noteq> []" and "m_waited X [] = []"
  shows "run_task X (v_world (Server_close v)) = None"
proof -
  obtain u rest where "w_posted (v_world v) = u # rest" using assms(1) by (cases "w_posted (v_world v)") auto
  then show ?thesis
    using assms(2)
    by (simp add: run_task_def Server_close_def Server_processUserRequests_def Server_getSessions_def
        DB_getFcmToken_def onDb_def with_lock_def DB_acquire_def DB_getConnection_def DB_cleanup_def Let_def)
qed

lemma main_shutdown_idle:
  assumes "m_waited X [] = []" and "main_shutdown X daemon u = Some v"
  shows "v = Server_close u" and "\<not> daemon \<Longrightarrow> w_posted (v_world u) = []"
proof -
  have queue: "w_posted (v_world (Server_close u)) = w_posted (v_world u)"
    by (simp add: Server_close_def Let_def)
  show idle: "w_posted (v_world u) = []" if "\<not> daemon"
  proof (rule ccontr)
    assume "w_posted (v_world u) \<noteq> []"
    with stranded_task [OF this assms(1)] that assms(2) queue show False
      by (cases "w_posted (v_world u)") (auto simp: main_shutdown_def)
  qed
  show "v = Server_close u" using assms(2) idle queue by (cases daemon) (auto simp: main_shutdown_def Let_def)
qed

text \<open>
  C31. When \<open>main\<close> returns 0 the server was started and has been shut down: no session is
  registered, the timer is off, the last call on the acceptor closed it, and no database
  connection is left; the sessions that were registered when it was closed are
  disconnected. It had at most 50 workers. Unless it runs as a daemon, \<open>main\<close> returns only
  if no task was queued when the server was closed: a task finds no database connection.
\<close>

theorem main_shuts_down:
  assumes "m_waited X [] = []"
    and "main X opts ids (Server_start initialized connect_throws auth prepared throws now)
      (console X throws up input meanwhile 0) run v = Some (Returned 0, n, v')"
  shows "n \<le> 50 \<and> m_sessions (v_world v') = [] \<and> \<not> v_timer v' \<and> last (v_acceptor v') = AccClose \<and>
    m_connections (w_dbs (v_world v')) = [] \<and>
    (\<exists>v\<^sub>1 u. Server_start initialized connect_throws auth prepared throws now v = (True, v\<^sub>1) \<and>
       (if o_daemon opts then run v\<^sub>1 else console X throws up input meanwhile 0 v\<^sub>1) = Some u \<and>
       (o_daemon opts \<or> w_posted (v_world u) = []) \<and>
       (\<forall>a l s. (a, l) \<in> set (m_sessions (v_world u)) \<and> s \<in> set l \<longrightarrow>
         \<not> s_open (w_heap (v_world v') s) \<and> status s (v_world v') = STATUS_DISCONNECTED))"
proof -
  obtain v\<^sub>1 u where run: "Server_start initialized connect_throws auth prepared throws now v = (True, v\<^sub>1)"
      "(if o_daemon opts then run v\<^sub>1 else console X throws up input meanwhile 0 v\<^sub>1) = Some u"
    and close: "main_shutdown X (o_daemon opts) u = Some v'" and n: "n = create_workers (o_numWorkers opts) 0 0"
    using assms(2)
    by (cases ids) (auto simp: main_def bind_eq_Some_conv Let_def split: if_splits option.splits prod.splits)
  note v' = main_shutdown_idle [OF assms(1) close]
  have "\<not> s_open (w_heap (v_world v') s) \<and> status s (v_world v') = STATUS_DISCONNECTED"
    if "(a, l) \<in> set (m_sessions (v_world u)) \<and> s \<in> set l" for a l s
    using that close_fold_all [of "m_sessions (v_world u)" "v_world u" s]
    by (auto simp: v'(1) Server_close_def Server_removeSessions_def Let_def)
  moreover have "o_daemon opts \<or> w_posted (v_world u) = []" using v'(2) by blast
  ultimately show ?thesis
    using run by (auto simp: n create_workers_count v'(1) Server_close_def DB_cleanup_def Let_def)
qed

end
