(* ===== verification/Server_Run.thy ===== *)
theory Server_Run
  imports Control
begin

text \<open>
  The server as a whole: the invariant of its state (the registry, the stream buffers, the
  contacts and the status of the sessions) and the step relation that interleaves
  everything that happens in it: connections, packets, requests and responses of clients,
  posted tasks, the timer, the console. Each handler is one step.
\<close>

section \<open>The invariant\<close>

definition world_inv :: "('db, 'm) world \<Rightarrow> bool" where
  "world_inv w \<longleftrightarrow> reg_wf w \<and> buffers_wf w \<and> (\<forall>t. sm_wf (s_contacts (w_heap w t))) \<and>
     (\<forall>t. status t w \<ge> STATUS_LOGGEDIN \<longrightarrow> registered t w)"

text \<open>
  The abstract service the registry implements: who is present, as which account, and
  whether logged in. A session connects under a temporary account, logs in, logs out and
  leaves; the administrator can remove everybody.
\<close>

type_synonym presence = "nat \<rightharpoonup> uint32 \<times> bool"

inductive presence_step :: "presence \<Rightarrow> presence \<Rightarrow> bool" where
  connect: "P s = None \<Longrightarrow> presence_step P (P(s \<mapsto> (a, False)))"
| login: "presence_step P (P(s \<mapsto> (a, True)))"
| logout: "P s = Some (a, b) \<Longrightarrow> presence_step P (P(s \<mapsto> (a, False)))"
| leave: "presence_step P (P(s := None))"
| clear: "presence_step P Map.empty"

definition present :: "('db, 'm) world \<Rightarrow> presence" where
  "present w s = (if registered s w then Some (accountId s w, status s w \<ge> STATUS_LOGGEDIN) else None)"

text \<open>
  What a step of the session \<open>sid\<close> may do: it keeps the invariant, enters no session
  but \<open>sid\<close> into the registry, and changes the presence by steps of the abstract service.
\<close>

definition evolves :: "nat \<Rightarrow> ('db, 'm) world \<Rightarrow> ('db, 'm) world \<Rightarrow> bool" where
  "evolves sid w w' \<longleftrightarrow> m_paused w' = m_paused w \<and>
     (world_inv w \<longrightarrow> world_inv w' \<and> (\<forall>t. registered t w' \<longrightarrow> registered t w \<or> t = sid) \<and>
        presence_step\<^sup>*\<^sup>* (present w) (present w'))"

lemma present_cong:
  "m_sessions w' = m_sessions w \<Longrightarrow> w_heap w' = w_heap w \<Longrightarrow> present w' = present w"
  by (simp add: present_def fun_eq_iff registered_cong [of w' w])

text \<open>Finitely many sessions log out.\<close>

lemma logouts:
  assumes "finite S" and "\<And>t. t \<notin> S \<Longrightarrow> P' t = P t"
    and "\<And>t. t \<in> S \<Longrightarrow> P' t = P t \<or> (\<exists>a b. P t = Some (a, b) \<and> P' t = Some (a, False))"
  shows "presence_step\<^sup>*\<^sup>* P P'"
  using assms
proof (induction S arbitrary: P' rule: finite_induct)
  case empty
  then have "P' = P" by (simp add: fun_eq_iff)
  then show ?case by simp
next
  case (insert s S)
  let ?Q = "P'(s := P s)"
  have "presence_step\<^sup>*\<^sup>* P ?Q" using insert by (intro insert.IH) auto
  moreover have "presence_step\<^sup>*\<^sup>* ?Q P'"
  proof (cases "P' s = P s")
    case True
    then have "?Q = P'" by auto
    then show ?thesis by simp
  next
    case False
    then obtain a b where "P s = Some (a, b)" "P' s = Some (a, False)" using insert.prems(2) by blast
    then have "P' = ?Q(s \<mapsto> (a, False))" "?Q s = Some (a, b)" by auto
    then show ?thesis using presence_step.logout by (metis r_into_rtranclp)
  qed
  ultimately show ?case by (rule rtranclp_trans)
qed

lemma evolves_refl [simp]: "evolves sid w w"
  by (simp add: evolves_def)

lemma evolves_trans [trans]: "evolves sid w1 w2 \<Longrightarrow> evolves sid w2 w3 \<Longrightarrow> evolves sid w1 w3"
  unfolding evolves_def by (metis rtranclp_trans)

lemma keeps_evolves:
  assumes "keeps w w'"
  shows "evolves sid w w'"
proof -
  have reg: "registered t w' = registered t w" for t
    using assms by (intro registered_cong) (simp add: keeps_def)
  have st: "status t w' = status t w \<or> status t w' = STATUS_CONNECTED" for t
    using assms by (simp add: keeps_def)
  have "status t w \<ge> STATUS_LOGGEDIN" if "status t w' \<ge> STATUS_LOGGEDIN" for t
    using st [of t] that by (auto simp: word_le_nat_alt)
  moreover have "presence_step\<^sup>*\<^sup>* (present w) (present w')"
  proof (rule logouts [where S = "{t. status t w' \<noteq> status t w}"])
    show "finite {t. status t w' \<noteq> status t w}" using assms by (simp add: keeps_def)
    have acct: "accountId t w' = accountId t w" for t using assms by (simp add: keeps_def)
    show "present w' t = present w t" if "t \<notin> {t. status t w' \<noteq> status t w}" for t
      using that by (simp add: present_def reg acct)
    show "present w' t = present w t \<or> (\<exists>a b. present w t = Some (a, b) \<and> present w' t = Some (a, False))"
      if "t \<in> {t. status t w' \<noteq> status t w}" for t
      using that st [of t] by (auto simp: present_def reg acct word_le_nat_alt)
  qed
  ultimately show ?thesis
    using assms keeps_reg_wf [OF assms] keeps_buffers_wf [OF assms]
    by (simp add: evolves_def world_inv_def reg) (simp add: keeps_def)
qed

text \<open>Changes of the buffers that leave the rest alone.\<close>

lemma buffers_evolves:
  assumes "buffers_wf w \<Longrightarrow> buffers_wf w'" and "w_heap w' = w_heap w" and "m_sessions w' = m_sessions w"
    and "m_paused w' = m_paused w"
  shows "evolves sid w w'"
proof -
  have "registered t w' = registered t w" for t by (rule registered_cong [OF assms(3)])
  moreover have "reg_wf w \<Longrightarrow> reg_wf w'" by (erule reg_wf_upd) (simp_all add: assms)
  moreover have "present w' = present w" by (rule present_cong [OF assms(3,2)])
  ultimately show ?thesis using assms by (simp add: evolves_def world_inv_def)
qed

lemma registered_remove:
  assumes "reg_wf w"
  shows "registered t (Server_removeSession sid w) \<longleftrightarrow> registered t w \<and> t \<noteq> sid"
  by (auto simp: registered_def getSessions_remove [OF assms])

lemma removeSession_frame [simp]:
  "m_buffers (Server_removeSession sid w) = m_buffers w" "w_sbufs (Server_removeSession sid w) = w_sbufs w"
  "w_nextbuf (Server_removeSession sid w) = w_nextbuf w" "m_paused (Server_removeSession sid w) = m_paused w"
  by (auto simp: Server_removeSession_def Let_def split: option.split)

lemma close_evolves: "evolves sid w (close sid sh True w)"
proof -
  define w1 where "w1 = setStatus sid STATUS_DISCONNECTED (upd_sess sid (\<lambda>s. s\<lparr>s_open := False\<rparr>)
     (upd_sess sid (\<lambda>s. s\<lparr>s_timer := False\<rparr>) w))"
  have close: "close sid sh True w = Server_removeSession sid w1" by (simp add: close_def w1_def)
  have wf: "reg_wf w \<Longrightarrow> reg_wf w1" by (erule reg_wf_upd) (auto simp: w1_def)
  have reg: "registered t w1 = registered t w" for t by (rule registered_cong) (simp add: w1_def)
  have heap: "sm_wf (s_contacts (w_heap w1 t)) = sm_wf (s_contacts (w_heap w t))"
    "status t w1 = (if t = sid then 0 else status t w)" for t by (auto simp: w1_def)
  have acct: "accountId t w1 = accountId t w" for t by (simp add: w1_def)
  have buf: "buffers_wf w \<Longrightarrow> buffers_wf w1" "m_paused w1 = m_paused w"
    by (simp_all add: w1_def buffers_wf_def setStatus_def upd_sess_def)
  have "buffers_wf (Server_removeSession sid w1) = buffers_wf w1" by (simp add: buffers_wf_def)
  moreover have "present (Server_removeSession sid w1) = (present w)(sid := None)" if "reg_wf w"
    using registered_remove [OF wf [OF that], of _ sid] by (auto simp: present_def fun_eq_iff reg heap acct)
  ultimately show ?thesis
    unfolding close evolves_def world_inv_def
    using buf presence_step.leave by (auto simp: wf reg_wf_remove registered_remove reg heap)
qed

section \<open>Login\<close>

lemma login_register_frame [simp]:
  "m_buffers (login_register sid n w) = m_buffers w" "w_sbufs (login_register sid n w) = w_sbufs w"
  "w_nextbuf (login_register sid n w) = w_nextbuf w" "m_paused (login_register sid n w) = m_paused w"
  "s_contacts (w_heap (login_register sid n w) t) = s_contacts (w_heap w t)"
  "t \<noteq> sid \<Longrightarrow> status t (login_register sid n w) = status t w"
  "t \<noteq> sid \<Longrightarrow> accountId t (login_register sid n w) = accountId t w"
  by (simp_all add: login_register_def Server_appendSession_def Let_def setStatus_def upd_sess_def)

lemma login_register_evolves: "evolves sid w (login_register sid n w)"
proof -
  have "world_inv (login_register sid n w) \<and> (\<forall>t. registered t (login_register sid n w) \<longrightarrow> registered t w \<or> t = sid) \<and>
      presence_step\<^sup>*\<^sup>* (present w) (present (login_register sid n w))"
    if inv: "world_inv w"
  proof -
    have wf: "reg_wf w" using inv by (simp add: world_inv_def)
    have sid: "registered sid (login_register sid n w)"
      using login_register_effect(2) [OF wf] by (auto simp: registered_def)
    have other: "registered t (login_register sid n w) = registered t w" if "t \<noteq> sid" for t
      using login_register_effect(3) [OF wf that] by (simp add: registered_def)
    have "status t (login_register sid n w) \<ge> STATUS_LOGGEDIN \<longrightarrow> registered t (login_register sid n w)" for t
      using inv by (cases "t = sid") (auto simp: sid other world_inv_def)
    moreover have "buffers_wf (login_register sid n w)" using inv by (simp add: world_inv_def buffers_wf_def)
    moreover have "present (login_register sid n w) = (present w)(sid \<mapsto> (n, True))"
      using login_register_effect(4,5) [OF wf] by (auto simp: present_def fun_eq_iff sid other)
    ultimately show ?thesis
      using inv login_register_effect(1) [OF wf] other presence_step.login by (auto simp: world_inv_def)
  qed
  then show ?thesis by (simp add: evolves_def)
qed

lemma login_evolves:
  assumes "processLogin X sid head w = Some (r, w')"
  shows "evolves sid w w'"
  using assms
proof (cases rule: login_cases)
  case refused
  then show ?thesis by (intro keeps_evolves)
next
  case (accepted d account)
  let ?w = "w\<lparr>w_dbs := d\<rparr>" and ?n = "at_int X head ''account''"
  have "evolves sid w ?w" by (rule keeps_evolves) simp
  also have "evolves sid ?w (login_register sid ?n ?w)" by (rule login_register_evolves)
  also have "evolves sid (login_register sid ?n ?w) w'"
    using login_accepted_keeps [where sid = sid and n = ?n and w = ?w and X = X and head = head] accepted(5)
    by (intro keeps_evolves) (simp add: holds_def)
  finally show ?thesis .
qed

text \<open>Whatever the request, the dispatcher stays within these bounds.\<close>

lemma request_evolves:
  assumes "processIncomingRequest X sid head w = Some (r, w')"
  shows "evolves sid w w'"
proof -
  note kept = dispatchRequest.invariants(1) logout.invariants(1) configRequest.invariants(1)
    addContactRequest.invariants(1) createAddCode.invariants(1) findContactRequest.invariants(1)
    acceptContact.invariants(1) rejectContact.invariants(1) contactStatusRequest.invariants(1)
    pushRequest.invariants(1) createAccount.invariants(1)
  have "keeps w w' \<or> processLogin X sid head w = Some (r, w')"
    using assms unfolding processIncomingRequest_def Let_def
    by (auto split: if_split_asm intro: kept)
  then show ?thesis using keeps_evolves login_evolves by blast
qed

section \<open>Stream buffers\<close>

text \<open>A buffer that is read or written keeps its stream id.\<close>

lemma buffer_update_evolves:
  "sb_streamId sb = sb_streamId (w_sbufs w b) \<Longrightarrow>
   evolves sid w (w\<lparr>w_sbufs := (w_sbufs w)(b := sb), w_files := fs\<rparr>)"
  by (rule buffers_evolves) (auto simp: buffers_wf_def)

lemma read_streamId:
  "StreamBuffer_read B now sb sz off fs = Some (r, sb') \<Longrightarrow> sb_streamId sb' = sb_streamId sb"
  by (auto simp: StreamBuffer_read_def Let_def bind_eq_Some_conv split: option.splits if_splits)

lemma write_streamId:
  "StreamBuffer_write B now sb data off fs = Some ((r, sb'), fs') \<Longrightarrow> sb_streamId sb' = sb_streamId sb"
  by (auto simp: StreamBuffer_write_def Let_def bind_pair split: option.splits)

lemma getStreamBuffer_frame:
  assumes "Server_getStreamBuffer X i w = Some (r, w')"
  shows "w_heap w' = w_heap w" "m_sessions w' = m_sessions w" "m_paused w' = m_paused w"
  using assms by (auto simp: Server_getStreamBuffer_def alloc_sbuf_def bind_pair Let_def split: option.splits)

lemma getStreamBuffer_evolves:
  assumes "Server_getStreamBuffer X i w = Some (r, w')"
  shows "evolves sid w w'"
  by (rule buffers_evolves) (use buffers_wf_get(1) [OF _ assms] getStreamBuffer_frame [OF assms] in auto)

lemma getBuffer_evolves:
  assumes "BSender_getBuffer X s w = Some w'"
  shows "evolves sid w w'"
proof (cases "bs_buffer (w_bsenders w s) = None")
  case True
  then obtain r w1 where w1: "Server_getStreamBuffer X (bs_id (w_bsenders w s)) w = Some (r, w1)"
    and w': "w' = w1 \<or> (\<exists>f. w' = w1\<lparr>w_bsenders := f\<rparr>)"
    using assms by (auto simp: BSender_getBuffer_def bind_pair Let_def split: option.splits)
  have "evolves sid w1 (w1\<lparr>w_bsenders := f\<rparr>)" for f by (rule buffers_evolves) (simp_all add: buffers_wf_def)
  then show ?thesis using getStreamBuffer_evolves [OF w1, of sid] w' evolves_trans by blast
qed (use assms in \<open>simp add: BSender_getBuffer_def\<close>)

text \<open>
  What the engine may do to the server while it prepares packets for a session: it calls
  \<open>StreamBufferSender::preparePacket\<close>, which looks the buffer up, and reads from buffers.
\<close>

inductive prepare_step :: "('db, 'm, 'z) env_scheme \<Rightarrow> ('db, 'm) world \<Rightarrow> ('db, 'm) world \<Rightarrow> bool"
  for X where
  lookup: "BSender_getBuffer X s w = Some w' \<Longrightarrow> prepare_step X w w'"
| read: "StreamBuffer_read (e_buf X) now (w_sbufs w b) sz off (w_files w) = Some (r, sb) \<Longrightarrow>
    prepare_step X w (w\<lparr>w_sbufs := (w_sbufs w)(b := sb)\<rparr>)"

definition senders_law :: "('db, 'm, 'z) env_scheme \<Rightarrow> bool" where
  "senders_law X \<longleftrightarrow> (\<forall>sid w pkts w'. z_processStreamSenders X sid w = Some (pkts, w') \<longrightarrow>
     (prepare_step X)\<^sup>*\<^sup>* w w')"

lemma prepare_evolves: "prepare_step X w w' \<Longrightarrow> evolves sid w w'"
proof (induction rule: prepare_step.induct)
  case (lookup s w w')
  then show ?case by (rule getBuffer_evolves)
next
  case (read now w b sz off r sb)
  show ?case
    using buffer_update_evolves [OF read_streamId [OF read], of sid "w_files w"] by simp
qed

lemma prepares_evolves: "(prepare_step X)\<^sup>*\<^sup>* w w' \<Longrightarrow> evolves sid w w'"
  by (induction rule: rtranclp_induct) (auto intro: evolves_trans prepare_evolves)

section \<open>Transport\<close>

abbreviation steady :: "(session \<Rightarrow> session) \<Rightarrow> bool" where
  "steady f \<equiv> (\<forall>s. s_accountId (f s) = s_accountId s \<and> s_status (f s) = s_status s \<and> s_contacts (f s) = s_contacts s)"

lemma upd_evolves: "steady f \<Longrightarrow> evolves sid w (upd_sess t f w)"
  by (rule keeps_evolves) simp

lemma async_evolves: "evolves sid w (async t oper w)"
  unfolding async_def by (rule upd_evolves) simp

lemma evolves_upd [holds_rules]: "steady f \<Longrightarrow> evolves sid v w \<Longrightarrow> evolves sid v (upd_sess t f w)"
  by (erule evolves_trans) (rule upd_evolves)

lemma evolves_async [holds_rules]: "evolves sid v w \<Longrightarrow> evolves sid v (async t oper w)"
  by (erule evolves_trans) (rule async_evolves)

lemma evolves_close [holds_rules]: "evolves sid v w \<Longrightarrow> evolves sid v (close sid sh True w)"
  by (erule evolves_trans) (rule close_evolves)

lemma next_packet_evolves:
  assumes "senders_law X" and "next_packet X t w = Some (p, w')"
  shows "evolves sid w w'"
proof -
  obtain w1 where w1: "evolves sid w w1"
    and w': "w' = w1 \<or> (\<exists>rest. w' = upd_sess t (\<lambda>s. s\<lparr>s_packetQueue := rest\<rparr>) w1)"
  proof (cases "s_packetQueue (w_heap w t) = []")
    case True
    then obtain pkts w0 where w0: "z_processStreamSenders X t w = Some (pkts, w0)"
      and rest: "(let w1 = upd_sess t (\<lambda>s. s\<lparr>s_packetQueue := s_packetQueue s @ pkts\<rparr>) w0 in
        (case s_packetQueue (w_heap w1 t) of
        [] \<Rightarrow> Some (None, w1)
      | pkt # rest \<Rightarrow> Some (Some pkt, upd_sess t (\<lambda>s. s\<lparr>s_packetQueue := rest\<rparr>) w1))) = Some (p, w')"
      using assms(2) by (auto simp: next_packet_def bind_pair bind_eq_Some_conv)
    have "evolves sid w w0" using assms(1) w0 prepares_evolves unfolding senders_law_def by blast
    then have "evolves sid w (upd_sess t (\<lambda>s. s\<lparr>s_packetQueue := s_packetQueue s @ pkts\<rparr>) w0)"
      by (rule evolves_upd [rotated]) simp
    then show thesis by (rule that) (use rest in \<open>auto simp: Let_def split: list.splits\<close>)
  next
    case False
    then show thesis
      using assms(2) by (intro that [of w]) (auto simp: next_packet_def split: list.splits)
  qed
  then show ?thesis using evolves_upd [OF _ w1, of _ t] by auto
qed

lemma sendPacket_evolves:
  assumes "senders_law X" and "sendPacket X t w = Some (r, w')"
  shows "evolves sid w w'"
proof (cases "s_sending (w_heap w t)")
  case False
  then obtain p w1 where w1: "next_packet X t w = Some (p, w1)"
    and w': "w' = w1 \<or> (\<exists>pkt. w' = async t (AsyncWrite pkt) (upd_sess t (\<lambda>s. s\<lparr>s_sending := True\<rparr>) w1))"
    using assms(2) by (auto simp: sendPacket_def bind_pair Let_def split: option.splits)
  have "evolves sid w w1" by (rule next_packet_evolves [OF assms(1) w1])
  then show ?thesis using w' by (auto intro!: evolves_async evolves_upd)
qed (use assms(2) in \<open>simp add: sendPacket_def\<close>)

lemma holds_evolves_sendPacket [holds_rules]:
  "senders_law X \<Longrightarrow> evolves sid v w \<Longrightarrow> holds (evolves sid v) (sendPacket X t w)"
  using sendPacket_evolves [of X t w _ _ sid] evolves_trans unfolding holds_def by blast

lemma evolves_simps [simp]:
  "evolves sid v w \<Longrightarrow> evolves sid v (engine t c w)" "evolves sid v w \<Longrightarrow> evolves sid v (w\<lparr>w_dbs := d\<rparr>)"
  "evolves sid v w \<Longrightarrow> evolves sid v (w\<lparr>w_files := fs\<rparr>)"
  "evolves sid v w \<Longrightarrow> evolves sid v (fold (process_request X t) es w)"
  "evolves sid v w \<Longrightarrow> evolves sid v (resetTimer t w)"
  "evolves sid v w \<Longrightarrow> evolves sid v (setStatus t STATUS_CONNECTED w)"
  "evolves sid v w \<Longrightarrow> evolves sid v (snd (recvPacket X t w))"
  "evolves sid v w \<Longrightarrow> evolves sid v (recvPacketBody X t pkt w)"
  by (erule evolves_trans, rule keeps_evolves, simp add: resetTimer_def recvPacket_def recvPacketBody_def async_def
      split: option.split)+

lemma addSender_evolves: "evolves sid v w \<Longrightarrow> evolves sid v (Server_addStreamBufferSender s w)"
  by (erule evolves_trans) (rule buffers_evolves, simp_all add: Server_addStreamBufferSender_def buffers_wf_def)

lemma newSender_evolves:
  "evolves sid v w \<Longrightarrow> evolves sid v (w\<lparr>w_bsenders := f, w_nextsender := n\<rparr>)"
  by (erule evolves_trans) (rule buffers_evolves, simp_all add: buffers_wf_def)

lemma holds_evolves_getBuffer: "evolves sid v w \<Longrightarrow> holds_unit (evolves sid v) (BSender_getBuffer X s w)"
  using getBuffer_evolves evolves_trans unfolding holds_unit_def by blast

lemma holds_evolves_BSender_create: "evolves sid v w \<Longrightarrow> holds (evolves sid v) (BSender_create X t i w)"
  unfolding BSender_create_def BSender_init_def Let_def
  by (intro holds_rules holds_evolves_getBuffer newSender_evolves)

lemma holds_evolves_addStreamSender:
  "senders_law X \<Longrightarrow> evolves sid v w \<Longrightarrow> holds (evolves sid v) (addStreamSender X t s w)"
  unfolding addStreamSender_def Let_def by (intro holds_rules) simp_all

lemma holds_unit_bind_unit:
  "holds_unit Q m \<Longrightarrow> (\<And>w. Q w \<Longrightarrow> holds_unit Q (f w)) \<Longrightarrow> holds_unit Q (m \<bind> f)"
  by (cases m) (simp_all add: holds_unit_def)

lemma holds_unit_case: "(m = None \<Longrightarrow> holds_unit Q a) \<Longrightarrow> (\<And>x. holds_unit Q (f x)) \<Longrightarrow>
    holds_unit Q (case m of None \<Rightarrow> a | Some x \<Rightarrow> f x)"
  by (cases m) simp_all

lemma send_resource_evolves:
  "senders_law X \<Longrightarrow> evolves sid v w \<Longrightarrow> holds_unit (evolves sid v) (send_resource X t i w)"
  unfolding send_resource_def
  by (intro holds_rules holds_evolves_BSender_create holds_unit_case holds_evolves_addStreamSender)
    (auto intro: addSender_evolves)

lemma holds_for_each:
  assumes "\<And>x w. x \<in> set xs \<Longrightarrow> Q w \<Longrightarrow> holds_unit Q (body x w)" and "Q w"
  shows "holds_unit Q (for_each xs body w)"
  using for_each_invariant [of xs body w _ Q] assms unfolding holds_unit_def by blast

section \<open>What clients cause\<close>

text \<open>
  The calls the engine makes on the session while it processes a packet: an incoming
  request, the response to a posted request, a new stream, data and the end of a stream.
\<close>

inductive callback ::
  "('db, 'm, 'z) env_scheme \<Rightarrow> nat \<Rightarrow> ('db, 'm) world \<Rightarrow> ('db, 'm) world \<Rightarrow> bool"
  for X sid where
  request: "processIncomingRequest X sid head w = Some (r, w') \<Longrightarrow> callback X sid w w'"
| response: "response X sid t rid head w = Some w' \<Longrightarrow> callback X sid w w'"
| stream: "createStreamReceiver X receiver pkt w = Some (r, w') \<Longrightarrow> callback X sid w w'"
| part: "StreamBuffer_write (e_buf X) now (w_sbufs w b) data off (w_files w) = Some ((r, sb), fs) \<Longrightarrow>
    callback X sid w (w\<lparr>w_sbufs := (w_sbufs w)(b := sb), w_files := fs\<rparr>)"
| complete: "upload_complete X sid i b w = Some w' \<Longrightarrow> callback X sid w w'"

lemma response_evolves:
  assumes "senders_law X" and "response X sid t rid head w = Some w'"
  shows "evolves sid w w'"
proof -
  have del: "holds_unit (evolves sid w) (delete_on_success X sid rid head w)"
    unfolding delete_on_success_def Let_def by (intro holds_rules) simp_all
  have push: "holds_unit (evolves sid w) (push_callback X sid rid head w)"
    unfolding push_callback_def Let_def
    by (intro holds_rules holds_for_each send_resource_evolves assms(1)) simp_all
  show ?thesis
    using assms(2) del push
    by (cases t) (auto simp: response_def DispatchRequest_processResponse_def AddContactRequest_processResponse_def
      AcceptContactRequest_processResponse_def RejectContactRequest_processResponse_def
      PushRequest_processResponse_def run_callback_def Let_def bind_eq_Some_conv holds_unit_def split: if_splits)
qed

lemma buffers_wf_alloc:
  "buffers_wf w \<Longrightarrow> alloc_sbuf sb w = (b, w1) \<Longrightarrow> buffers_wf w1 \<and> b < w_nextbuf w1"
  unfolding alloc_sbuf_def buffers_wf_def by (auto simp: less_Suc_eq) blast

lemma alloc_frame:
  "alloc_sbuf sb w = (b, w1) \<Longrightarrow> w_heap w1 = w_heap w \<and> m_sessions w1 = m_sessions w \<and> m_paused w1 = m_paused w"
  by (auto simp: alloc_sbuf_def)

lemma addStreamBuffer_frame:
  "Server_addStreamBuffer b w = (r, w1) \<Longrightarrow>
   w_heap w1 = w_heap w \<and> m_sessions w1 = m_sessions w \<and> m_paused w1 = m_paused w"
  by (auto simp: Server_addStreamBuffer_def Let_def split: if_splits)

lemma createStreamReceiver_evolves:
  assumes "createStreamReceiver X receiver pkt w = Some (r, w')"
  shows "evolves sid w w'"
proof -
  consider (same) "w' = w" | (nofile) fs where "w' = w\<lparr>w_files := fs\<rparr>"
    | (lost) fs sb where "w' = snd (alloc_sbuf sb (w\<lparr>w_files := fs\<rparr>))"
    | (added) fs sb where "w' = snd (case alloc_sbuf sb (w\<lparr>w_files := fs\<rparr>) of (b, w1) \<Rightarrow> Server_addStreamBuffer b w1)"
    using assms by (auto simp: createStreamReceiver_def bind_eq_Some_conv Let_def split_def split: if_splits option.splits)
  then show ?thesis
  proof cases
    case (lost fs sb)
    obtain b w1 where w1: "alloc_sbuf sb (w\<lparr>w_files := fs\<rparr>) = (b, w1)" by fastforce
    show ?thesis
      by (rule buffers_evolves) (use buffers_wf_alloc [OF _ w1] alloc_frame [OF w1] in \<open>auto simp: lost w1 buffers_wf_def\<close>)
  next
    case (added fs sb)
    obtain b w1 where w1: "alloc_sbuf sb (w\<lparr>w_files := fs\<rparr>) = (b, w1)" by fastforce
    obtain ok where w': "Server_addStreamBuffer b w1 = (ok, w')" using added by (auto simp: w1 prod_eq_iff)
    have "buffers_wf w'" if "buffers_wf w"
      using buffers_wf_alloc [OF _ w1] buffers_wf_add [OF _ _ w'] that by (simp add: buffers_wf_def)
    then show ?thesis
      by (rule buffers_evolves) (use alloc_frame [OF w1] addStreamBuffer_frame [OF w'] in auto)
  qed simp_all
qed

lemma upload_complete_evolves:
  assumes "upload_complete X sid i b w = Some w'"
  shows "evolves sid w w'"
  using assms
  by (auto simp: upload_complete_def processRequests_def bind_pair bind_eq_Some_conv onDb_Some Let_def)

lemma callback_evolves: "senders_law X \<Longrightarrow> callback X sid w w' \<Longrightarrow> evolves sid w w'"
  by (erule callback.cases)
    (auto intro: request_evolves response_evolves createStreamReceiver_evolves upload_complete_evolves
      buffer_update_evolves dest: write_streamId)


text \<open>
  \<open>Zway::Engine::processIncomingPacket\<close>, as far as the server is concerned: a sequence of
  such calls.
\<close>

definition engine_process ::
  "('db, 'm, 'z) env_scheme \<Rightarrow> nat \<Rightarrow> (packet \<Rightarrow> ('db, 'm) world \<Rightarrow> (bool \<times> ('db, 'm) world) option) \<Rightarrow> bool" where
  "engine_process X sid process \<longleftrightarrow>
     (\<forall>pkt w r w'. process pkt w = Some (r, w') \<longrightarrow> (callback X sid)\<^sup>*\<^sup>* w w')"

lemma callbacks_evolve:
  assumes "senders_law X"
  shows "(callback X sid)\<^sup>*\<^sup>* w w' \<Longrightarrow> evolves sid w w'"
  by (induction rule: rtranclp_induct) (auto intro: evolves_trans callback_evolves [OF assms])

lemma onPacketRecv_evolves:
  assumes "senders_law X" and "engine_process X sid process" and "evolves sid v w"
  shows "holds_unit (evolves sid v) (onPacketRecv X process sid pkt w)"
proof -
  have proc: "holds (evolves sid v) (process pkt w)" if "evolves sid v w" for w
    using assms(2) callbacks_evolve [OF assms(1)] evolves_trans [OF that]
    unfolding engine_process_def holds_def by blast
  show ?thesis
    unfolding onPacketRecv_def Let_def
    by (intro holds_unit_bind_unit holds_rules evolves_simps(7)) (auto intro!: proc evolves_upd assms(3))
qed

section \<open>The steps of the server\<close>

text \<open>
  Everything that happens, one handler at a time. A session takes part once its accept has
  completed: it is then no longer outstanding.
\<close>

definition started :: "('db, 'm) server \<Rightarrow> nat \<Rightarrow> bool" where
  "started v sid \<longleftrightarrow> sid < v_nextSession v \<and> sid \<notin> set (v_outstanding v)"

inductive server_step ::
  "('db, 'm, 'z) env_scheme \<Rightarrow> (acceptor_call list \<Rightarrow> acceptor_call \<Rightarrow> bool) \<Rightarrow> ('db, 'm) server \<Rightarrow> ('db, 'm) server \<Rightarrow> bool"
  for X throws where
  accept: "s \<in> set (v_outstanding v) \<Longrightarrow> server_step X throws v (handleSession X error s (finished s v))"
| handshake: "started v sid \<Longrightarrow> handleHandshake X error endpoint sid (v_world v) = Some w \<Longrightarrow>
    server_step X throws v (v\<lparr>v_world := w\<rparr>)"
| head: "started v sid \<Longrightarrow> engine_process X sid process \<Longrightarrow>
    onPacketHeadRecv X process error n sid pkt (v_world v) = Some w \<Longrightarrow>
    server_step X throws v (v\<lparr>v_world := w\<rparr>)"
| body: "started v sid \<Longrightarrow> engine_process X sid process \<Longrightarrow>
    onPacketBodyRecv X process error data offset sid pkt (v_world v) = Some w \<Longrightarrow>
    server_step X throws v (v\<lparr>v_world := w\<rparr>)"
| sent: "started v sid \<Longrightarrow> onPacketSent X error sid (v_world v) = Some w \<Longrightarrow>
    server_step X throws v (v\<lparr>v_world := w\<rparr>)"
| post: "started v sid \<Longrightarrow> postPacket X sid pkt (v_world v) = Some (r, w) \<Longrightarrow>
    server_step X throws v (v\<lparr>v_world := w\<rparr>)"
| task: "run_task X (v_world v) = Some w \<Longrightarrow> server_step X throws v (v\<lparr>v_world := w\<rparr>)"
| tick: "Server_onTimer X error now (v_world v) = Some (r, w) \<Longrightarrow> server_step X throws v (v\<lparr>v_world := w\<rparr>)"
| command: "console_command X throws up c v = Some v' \<Longrightarrow> server_step X throws v v'"

definition server_inv :: "('db, 'm) server \<Rightarrow> bool" where
  "server_inv v \<longleftrightarrow> world_inv (v_world v) \<and> distinct (v_outstanding v) \<and>
     (\<forall>s. s \<in> set (v_outstanding v) \<longrightarrow> s < v_nextSession v \<and> \<not> registered s (v_world v)) \<and>
     (\<forall>s. registered s (v_world v) \<longrightarrow> s < v_nextSession v)"


lemma server_inv_evolves:
  assumes "server_inv v" and "evolves sid (v_world v) w" and "started v sid"
  shows "server_inv (v\<lparr>v_world := w\<rparr>)"
  using assms by (auto simp: server_inv_def evolves_def started_def)

text \<open>Steps that belong to no session register nobody.\<close>

lemma server_inv_internal:
  assumes "server_inv v" and "\<And>sid. evolves sid (v_world v) w"
  shows "server_inv (v\<lparr>v_world := w\<rparr>)"
proof -
  have "registered t w \<longrightarrow> registered t (v_world v)" for t
    using assms(2) [of "Suc t"] assms(1) by (auto simp: evolves_def server_inv_def)
  then show ?thesis using assms(1) assms(2) [of 0] by (auto simp: server_inv_def evolves_def)
qed

lemma run_task_evolves:
  assumes "run_task X w = Some w'"
  shows "evolves sid w w'"
proof -
  have serve: "holds_unit (keeps w) (Server_processUserRequests X u w1)" if "keeps w w1" for u w1
    unfolding Server_processUserRequests_def Let_def
    by (intro holds_rules holds_unit_bind_unit holds_for_each) (use that in simp_all)
  have "keeps w w'"
  proof (cases "w_posted w")
    case (Cons u rest)
    then show ?thesis
      using assms serve [of "w\<lparr>w_posted := rest\<rparr>" u] by (simp add: run_task_def holds_unit_def)
  qed (use assms in \<open>simp add: run_task_def\<close>)
  then show ?thesis by (rule keeps_evolves)
qed

lemma buffers_wf_evict: "buffers_wf w \<Longrightarrow> buffers_wf (evict_idle now w)"
  unfolding buffers_wf_def [of "evict_idle now w"]
  by (auto simp: evict_find) (auto simp: buffers_wf_def evict_idle_def Let_def fold_erase_wf)

lemma onTimer_evolves:
  assumes "senders_law X" and "Server_onTimer X error now w = Some (r, w')"
  shows "evolves sid w w'"
proof (cases "error = No_error")
  case True
  then obtain v where v: "serve_senders X w = Some v"
    and w': "\<exists>l. w' = evict_idle now (v\<lparr>m_senders := l\<rparr>)"
    using assms(2) by (auto simp: Server_onTimer_def bind_eq_Some_conv Let_def)
  have "holds_unit (evolves sid w) (serve_senders X w)"
    unfolding serve_senders_def by (intro holds_for_each holds_rules assms(1)) simp_all
  then have "evolves sid w v" using v by (simp add: holds_unit_def)
  moreover have "evolves sid v (evict_idle now (v\<lparr>m_senders := l\<rparr>))" for l
  proof (rule buffers_evolves)
    show "buffers_wf (evict_idle now (v\<lparr>m_senders := l\<rparr>))" if "buffers_wf v"
      by (rule buffers_wf_evict) (use that in \<open>simp add: buffers_wf_def\<close>)
  qed (simp_all add: evict_idle_def Let_def)
  ultimately show ?thesis using w' evolves_trans by blast
qed (use assms(2) in \<open>simp add: Server_onTimer_def\<close>)


section \<open>The invariant holds in every state\<close>

lemma sessions_evolve:
  assumes "senders_law X"
  shows "handleHandshake X error endpoint sid w = Some w' \<Longrightarrow> evolves sid w w'"
    and "engine_process X sid process \<Longrightarrow> onPacketHeadRecv X process error n sid pkt w = Some w' \<Longrightarrow> evolves sid w w'"
    and "engine_process X sid process \<Longrightarrow> onPacketBodyRecv X process error data offset sid pkt w = Some w' \<Longrightarrow>
      evolves sid w w'"
    and "onPacketSent X error sid w = Some w' \<Longrightarrow> evolves sid w w'"
    and "postPacket X sid p w = Some (r, w') \<Longrightarrow> evolves sid w w'"
proof -
  have recv: "holds_unit (evolves sid w) (onPacketRecv X process sid pkt w1)"
    if "engine_process X sid process" "evolves sid w w1" for process pkt w1
    by (rule onPacketRecv_evolves [OF assms that])
  show "handleHandshake X error endpoint sid w = Some w' \<Longrightarrow> evolves sid w w'"
    by (auto simp: handleHandshake_def Let_def bind_pair bind_eq_Some_conv split: if_splits
        intro!: evolves_simps evolves_upd evolves_close)
  show "onPacketHeadRecv X process error n sid pkt w = Some w' \<Longrightarrow> evolves sid w w'"
    if "engine_process X sid process"
    using recv [OF that, of "resetTimer sid w" pkt]
    by (auto simp: onPacketHeadRecv_def Let_def holds_unit_def split: if_splits intro!: evolves_close)
  show "onPacketBodyRecv X process error data offset sid pkt w = Some w' \<Longrightarrow> evolves sid w w'"
    if "engine_process X sid process"
    using recv [OF that, of "resetTimer sid w" "write_body offset data pkt"]
    by (auto simp: onPacketBodyRecv_def Let_def holds_unit_def split: if_splits intro!: evolves_close evolves_async)
  have "holds_unit (evolves sid w) (onPacketSent X error sid w)"
    unfolding onPacketSent_def Let_def
    by (intro holds_rules assms) (auto intro!: evolves_upd evolves_simps)
  then show "onPacketSent X error sid w = Some w' \<Longrightarrow> evolves sid w w'" by (simp add: holds_unit_def)
  have "holds (evolves sid w) (postPacket X sid p w)"
    unfolding postPacket_def Let_def by (intro holds_rules assms) (auto intro!: evolves_upd)
  then show "postPacket X sid p w = Some (r, w') \<Longrightarrow> evolves sid w w'" by (simp add: holds_def)
qed


lemma start_inv:
  assumes "world_inv w" and "\<not> registered s w"
  shows "world_inv (start X s w)" and "registered t (start X s w) \<longleftrightarrow> registered t w \<or> t = s"
    and "m_paused (start X s w) = m_paused w"
proof -
  define w1 where "w1 = upd_sess s (\<lambda>x. x\<lparr>s_accountId := fst (next_rand X w)\<rparr>) (snd (next_rand X w))"
  have start: "start X s w = async s AsyncHandshake (Server_appendSession s w1)"
    by (simp add: start_def w1_def next_rand_def Let_def)
  have w1: "m_sessions w1 = m_sessions w" "m_buffers w1 = m_buffers w" "w_sbufs w1 = w_sbufs w"
    "w_nextbuf w1 = w_nextbuf w" "m_paused w1 = m_paused w"
    "status t w1 = status t w" "s_contacts (w_heap w1 t) = s_contacts (w_heap w t)"
    "t \<noteq> s \<Longrightarrow> accountId t w1 = accountId t w" for t
    by (simp_all add: w1_def next_rand_def upd_sess_def)
  have reg1: "registered t w1 = registered t w" for t by (rule registered_cong [OF w1(1)])
  have wf1: "reg_wf w1"
  proof (rule reg_wf_upd [OF _ w1(1)])
    show "reg_wf w" using assms(1) by (simp add: world_inv_def)
    show "accountId t w1 = accountId t w" if "registered t w" for t
      using that assms(2) by (cases "t = s") (simp_all add: w1(8))
  qed
  have reg: "registered t (start X s w) \<longleftrightarrow> registered t w \<or> t = s" for t
    unfolding start registered_cong [OF async_simps(3)]
    by (auto simp: registered_def getSessions_append getSessions_cong [OF w1(1)])
  then show "registered t (start X s w) \<longleftrightarrow> registered t w \<or> t = s" .
  have "reg_wf (Server_appendSession s w1)" using reg_wf_append [OF wf1] assms(2) reg1 by simp
  then have "reg_wf (start X s w)" unfolding start by (rule reg_wf_upd) auto
  moreover have "buffers_wf (start X s w)"
    using assms(1) by (simp add: start world_inv_def buffers_wf_def w1 async_def upd_sess_def Server_appendSession_def Let_def)
  moreover have "status t (start X s w) = status t w" "s_contacts (w_heap (start X s w) t) = s_contacts (w_heap w t)" for t
    by (simp_all add: start w1)
  ultimately show "world_inv (start X s w)" using assms(1) by (simp add: world_inv_def reg)
  show "m_paused (start X s w) = m_paused w"
    by (simp add: start w1 async_def upd_sess_def Server_appendSession_def Let_def)
qed

lemma accept_inv:
  assumes "server_inv v"
  shows "server_inv (Server_accept v)"
proof -
  let ?s = "v_nextSession v"
  define w where "w = (v_world v)\<lparr>w_heap := (w_heap (v_world v))(?s := new_session)\<rparr>"
  have accept: "v_world (Server_accept v) = w" "v_nextSession (Server_accept v) = Suc ?s"
    "v_outstanding (Server_accept v) = v_outstanding v @ [?s]"
    by (simp_all add: Server_accept_def w_def Let_def)
  have reg: "registered t w = registered t (v_world v)" for t by (rule registered_cong) (simp add: w_def)
  have fresh: "\<not> registered ?s (v_world v)" using assms by (auto simp: server_inv_def)
  have "reg_wf w"
    by (rule reg_wf_upd [of "v_world v"]) (use assms fresh in \<open>auto simp: server_inv_def world_inv_def w_def\<close>)
  then have "world_inv w"
    using assms reg fresh by (auto simp: server_inv_def world_inv_def w_def buffers_wf_def new_session_def word_le_nat_alt)
  then show ?thesis
    using assms fresh by (auto simp: server_inv_def accept reg less_Suc_eq)
qed

lemma removeSessions_inv:
  assumes "world_inv w"
  shows "world_inv (Server_removeSessions w)" and "\<not> registered t (Server_removeSessions w)"
proof -
  let ?w = "Server_removeSessions w"
  have none: "\<not> registered t ?w" for t by (simp add: registered_def Server_getSessions_def)
  then show "\<not> registered t ?w" .
  have "sm_wf (m_sessions w)" using assms by (simp add: world_inv_def reg_wf_def)
  note entry = sm.entry_iff [OF this]
  have "(\<exists>(a, l) \<in> set (m_sessions w). t \<in> set l) \<longleftrightarrow> registered t w" for t
    by (auto simp: entry registered_def Server_getSessions_def split: option.splits) (metis option.inject)
  then have heap: "w_heap ?w t = (if registered t w
      then (w_heap w t)\<lparr>s_timer := False, s_open := False, s_status := STATUS_DISCONNECTED\<rparr> else w_heap w t)" for t
    using close_fold_all [of "m_sessions w" w t]
    by (auto simp: Server_removeSessions_def registered_def Server_getSessions_def)
  have "reg_wf ?w" by (simp add: reg_wf_def)
  moreover have "buffers_wf ?w" using assms by (simp add: world_inv_def buffers_wf_def)
  moreover have "\<not> status t ?w \<ge> STATUS_LOGGEDIN" for t
    using assms by (auto simp: heap world_inv_def word_le_nat_alt)
  ultimately show "world_inv ?w" using assms by (auto simp: world_inv_def heap)
qed

lemma info_evolves:
  assumes "Server_info X up w = Some (txt, w')"
  shows "evolves sid w w'"
proof -
  have "holds_unit (\<lambda>(l, w'). keeps w w') (info_line X s p)" if "(\<lambda>(l, w'). keeps w w') p" for s p
    using that by (cases p) (auto simp: info_line_def holds_unit_def bind_pair onDb_Some Let_def)
  then have "holds_unit (\<lambda>(l, w'). keeps w w') (for_each sids (info_line X) ([], w))" for sids
    by (intro holds_for_each) simp_all
  then have "keeps w w'"
    using assms by (fastforce simp: Server_info_def bind_pair holds_unit_def)
  then show ?thesis by (rule keeps_evolves)
qed

lemma console_inv:
  assumes "server_inv v" and "console_command X throws up c v = Some v'"
  shows "server_inv v'"
proof -
  have paused: "server_inv (u\<lparr>v_world := (v_world u)\<lparr>m_paused := p\<rparr>\<rparr>) = server_inv u"
    and acceptor: "server_inv (u\<lparr>v_acceptor := tr\<rparr>) = server_inv u"
      "server_inv (u\<lparr>v_acceptor := tr, v_world := (v_world u)\<lparr>m_paused := p\<rparr>\<rparr>) = server_inv u"
    for p tr and u :: "('a, 'b) server"
    by (simp_all add: server_inv_def world_inv_def reg_wf_def buffers_wf_def registered_def Server_getSessions_def)
  have pause: "server_inv (snd (Server_pause throws v))"
    using assms(1) by (auto simp: Server_pause_def paused acceptor Let_def)
  have resume: "server_inv (snd (Server_resume throws v))"
    using assms(1) by (auto simp: Server_resume_def paused acceptor accept_inv Let_def)
  have remove: "server_inv (v\<lparr>v_world := Server_removeSessions (v_world v)\<rparr>)"
    using assms(1) removeSessions_inv [of "v_world v"] by (auto simp: server_inv_def)
  have info: "server_inv (v\<lparr>v_world := w\<rparr>)" if "Server_info X up (v_world v) = Some (msg, w)" for msg w
    using server_inv_internal [OF assms(1)] info_evolves [OF that] by blast
  show ?thesis
  proof (cases "c = CHR ''i''")
    case True
    then show ?thesis using assms(2) info by (auto simp: console_command_def bind_pair)
  next
    case False
    then show ?thesis
      using assms(1,2) pause resume remove unfolding console_command_def by (auto split: if_split_asm)
  qed
qed

lemma connected_inv:
  assumes "server_inv v" and "s \<in> set (v_outstanding v)"
  shows "server_inv (finished s v\<lparr>v_world := (start X s (v_world v))\<lparr>m_numSessions := n\<rparr>\<rparr>)"
proof -
  have out: "\<not> registered s (v_world v)" "s < v_nextSession v" and inv: "world_inv (v_world v)"
    using assms by (auto simp: server_inv_def)
  let ?w = "start X s (v_world v)"
  note st = start_inv [OF inv out(1), where X = X]
  have "server_inv (finished s v\<lparr>v_world := ?w\<rparr>)"
    using assms st(1) out by (auto simp: server_inv_def st(2))
  then show ?thesis
    by (simp add: server_inv_def world_inv_def reg_wf_def buffers_wf_def registered_def Server_getSessions_def)
qed

lemma handleSession_inv:
  assumes "server_inv v" and "s \<in> set (v_outstanding v)"
  shows "server_inv (handleSession X error s (finished s v))"
proof (cases "error = No_error")
  case True
  then have "handleSession X error s (finished s v) = Server_accept (finished s v\<lparr>v_world :=
      (start X s (v_world v))\<lparr>m_numSessions := m_numSessions (start X s (v_world v)) + 1\<rparr>\<rparr>)"
    by (simp add: handleSession_def Let_def)
  then show ?thesis using accept_inv [OF connected_inv [OF assms]] by simp
next
  case False
  then show ?thesis using assms by (auto simp: handleSession_def server_inv_def)
qed

text \<open>
  The three shapes of a step: one of a session, one of the server itself, or one around
  the acceptor and the console.
\<close>

lemma server_step_shape:
  assumes "senders_law X" and "server_step X throws v v'"
  obtains (session) sid w where "started v sid" "evolves sid (v_world v) w" "v' = v\<lparr>v_world := w\<rparr>"
  | (internal) w where "\<And>sid. evolves sid (v_world v) w" "v' = v\<lparr>v_world := w\<rparr>"
  | (accept) s error where "s \<in> set (v_outstanding v)" "v' = handleSession X error s (finished s v)"
  | (command) up c where "console_command X throws up c v = Some v'"
  using assms(2)
proof (cases rule: server_step.cases)
  case (accept s error)
  then show thesis using that(3) by blast
next
  case (handshake sid error endpoint w)
  then show thesis using session sessions_evolve(1) [OF assms(1)] by blast
next
  case (head sid process error n pkt w)
  then show thesis using session sessions_evolve(2) [OF assms(1)] by blast
next
  case (body sid process error data offset pkt w)
  then show thesis using session sessions_evolve(3) [OF assms(1)] by blast
next
  case (sent sid error w)
  then show thesis using session sessions_evolve(4) [OF assms(1)] by blast
next
  case (post sid pkt r w)
  then show thesis using session sessions_evolve(5) [OF assms(1)] by blast
next
  case (task w)
  then show thesis using internal run_task_evolves by blast
next
  case (tick error now r w)
  then show thesis using internal onTimer_evolves [OF assms(1)] by blast
next
  case (command up c)
  then show thesis using that(4) by blast
qed

lemma server_step_inv:
  assumes "senders_law X" and "server_step X throws v v'" and "server_inv v"
  shows "server_inv v'"
  using assms(1,2)
proof (cases rule: server_step_shape)
  case (session sid w)
  then show ?thesis using server_inv_evolves [OF assms(3)] by blast
next
  case (internal w)
  then show ?thesis using server_inv_internal [OF assms(3)] by blast
next
  case (accept s error)
  then show ?thesis using handleSession_inv [OF assms(3)] by blast
next
  case (command up c)
  then show ?thesis by (rule console_inv [OF assms(3)])
qed

lemma server_steps_inv:
  assumes "senders_law X" and "(server_step X throws)\<^sup>*\<^sup>* v v'" and "server_inv v"
  shows "server_inv v'"
  using assms(2,3) by (induction rule: rtranclp_induct) (auto intro: server_step_inv [OF assms(1)])

text \<open>A server object before \<open>start\<close>.\<close>

definition fresh_server :: "('db, 'm) server \<Rightarrow> bool" where
  "fresh_server v \<longleftrightarrow> w_heap (v_world v) = (\<lambda>_. new_session) \<and> m_sessions (v_world v) = [] \<and>
     m_buffers (v_world v) = [] \<and> v_outstanding v = []"

lemma fresh_inv: "fresh_server v \<Longrightarrow> server_inv v"
  by (auto simp: fresh_server_def server_inv_def world_inv_def reg_wf_def buffers_wf_def registered_def
      Server_getSessions_def new_session_def word_le_nat_alt)

lemma Server_start_inv:
  assumes "server_inv v" and "Server_start initialized connect_throws auth prepared throws now v = (ok, v')"
  shows "server_inv v'"
proof -
  have other: "server_inv (u\<lparr>v_timer := b, v_startTime := n\<rparr>) = server_inv u"
    "server_inv (u\<lparr>v_world := (v_world u)\<lparr>w_dbs := d\<rparr>\<rparr>) = server_inv u"
    "server_inv (u\<lparr>v_acceptor := tr\<rparr>) = server_inv u" for b n d tr and u :: "('a, 'b) server"
    by (simp_all add: server_inv_def world_inv_def reg_wf_def buffers_wf_def registered_def Server_getSessions_def)
  show ?thesis
    using assms by (auto simp: Server_start_def Let_def split_def other intro!: accept_inv split: if_splits)
qed

text \<open>
  C1. The invariant of the running server. However the connections, packets, requests,
  responses, tasks, timer ticks and console commands interleave after the start: a session
  is listed at most once, under its own account id and under no other; a session that is
  logged in is listed, so that the requests for its account reach it; the contacts of
  every session form a map; and a stream id leads to the buffer of that stream.
\<close>

theorem server_invariant:
  assumes "senders_law X" and "fresh_server v\<^sub>0"
    and "Server_start initialized connect_throws auth prepared throws now v\<^sub>0 = (ok, v\<^sub>1)"
    and "(server_step X throws)\<^sup>*\<^sup>* v\<^sub>1 v" and "w = v_world v"
  shows "distinct (Server_getSessions a w) \<and>
    (sid \<in> set (Server_getSessions a w) \<longrightarrow> accountId sid w = a) \<and>
    (status sid w \<ge> STATUS_LOGGEDIN \<longrightarrow> sid \<in> set (Server_getSessions (accountId sid w) w)) \<and>
    sm_wf (s_contacts (w_heap w sid)) \<and>
    (sm_find (m_buffers w) i = Some b \<longrightarrow> sb_streamId (w_sbufs w b) = i)"
proof -
  have "server_inv v"
    by (rule server_steps_inv [OF assms(1,4) Server_start_inv [OF fresh_inv [OF assms(2)] assms(3)]])
  then have inv: "world_inv w" by (simp add: server_inv_def assms(5))
  then have reg: "reg_wf w" by (simp add: world_inv_def)
  show ?thesis
    using inv reg_wf_getSessions [OF reg] registered_iff [OF reg]
    by (auto simp: world_inv_def buffers_wf_def)
qed

end
