(* ===== verification/Presence.thy ===== *)
theory Presence
  imports Server_Run
begin

text \<open>
  The server refines the presence service: the abstraction function \<^const>\<open>present\<close> maps
  every run of the server to a run of \<^const>\<open>presence_step\<close>, and looking up the sessions
  of an account in the registry is looking them up in the abstract state.
\<close>

lemma present_accept:
  assumes "server_inv v"
  shows "present (v_world (Server_accept v)) = present (v_world v)"
proof -
  let ?s = "v_nextSession v" and ?w = "v_world (Server_accept v)"
  have reg: "registered t ?w = registered t (v_world v)" for t
    by (rule registered_cong) (simp add: Server_accept_def Let_def)
  have "\<not> registered ?s (v_world v)" using assms by (auto simp: server_inv_def)
  moreover have "w_heap ?w t = (if t = ?s then new_session else w_heap (v_world v) t)" for t
    by (simp add: Server_accept_def Let_def)
  ultimately show ?thesis by (auto simp: present_def fun_eq_iff reg)
qed

lemma present_start:
  assumes "world_inv w" and "\<not> registered s w"
  shows "\<exists>a. present (start X s w) = (present w)(s \<mapsto> (a, False))"
proof -
  let ?w = "start X s w"
  have reg: "registered t ?w \<longleftrightarrow> registered t w \<or> t = s" for t by (rule start_inv(2) [OF assms])
  have st: "status t ?w = status t w" "t \<noteq> s \<Longrightarrow> accountId t ?w = accountId t w" for t
    by (simp_all add: start_def next_rand_def Let_def)
  have "\<not> status s w \<ge> STATUS_LOGGEDIN" using assms by (auto simp: world_inv_def)
  then have "present ?w = (present w)(s \<mapsto> (accountId s ?w, False))"
    by (auto simp: present_def fun_eq_iff reg st)
  then show ?thesis by blast
qed

lemma present_removeSessions: "world_inv w \<Longrightarrow> present (Server_removeSessions w) = Map.empty"
  using removeSessions_inv(2) by (auto simp: present_def fun_eq_iff)

lemma present_paused [simp]: "present (w\<lparr>m_paused := p\<rparr>) = present w"
  and present_numSessions [simp]: "present (w\<lparr>m_numSessions := n\<rparr>) = present w"
  by (rule present_cong; simp)+

lemma console_simulates:
  assumes "server_inv v" and "console_command X throws up c v = Some v'"
  shows "presence_step\<^sup>*\<^sup>* (present (v_world v)) (present (v_world v'))"
proof -
  have inv: "world_inv (v_world v)" using assms(1) by (simp add: server_inv_def)
  have acc: "server_inv (v\<lparr>v_acceptor := tr\<rparr>)" for tr
    using assms(1) by (simp add: server_inv_def)
  have pause: "present (v_world (snd (Server_pause throws v))) = present (v_world v)"
    by (simp add: Server_pause_def Let_def)
  have resume: "present (v_world (snd (Server_resume throws v))) = present (v_world v)"
    using present_accept [OF acc] by (auto simp: Server_resume_def Let_def)
  have remove: "presence_step\<^sup>*\<^sup>* (present (v_world v)) (present (Server_removeSessions (v_world v)))"
    unfolding present_removeSessions [OF inv] by (rule r_into_rtranclp, rule clear)
  show ?thesis
  proof (cases "c = CHR ''i''")
    case True
    then obtain msg w where "Server_info X up (v_world v) = Some (msg, w)" "v' = v\<lparr>v_world := w\<rparr>"
      using assms(2) by (auto simp: console_command_def bind_pair)
    then show ?thesis using info_evolves [of X up "v_world v" msg w 0] inv by (simp add: evolves_def)
  next
    case False
    then show ?thesis
      using assms(2) pause resume remove unfolding console_command_def by (auto split: if_split_asm)
  qed
qed

lemma accept_simulates:
  assumes "server_inv v" and "s \<in> set (v_outstanding v)"
  shows "presence_step\<^sup>*\<^sup>* (present (v_world v)) (present (v_world (handleSession X error s (finished s v))))"
proof (cases "error = No_error")
  case True
  have out: "world_inv (v_world v)" "\<not> registered s (v_world v)" using assms by (auto simp: server_inv_def)
  obtain a where a: "present (start X s (v_world v)) = (present (v_world v))(s \<mapsto> (a, False))"
    using present_start [OF out] by blast
  let ?u = "finished s v\<lparr>v_world := (start X s (v_world v))\<lparr>m_numSessions := m_numSessions (start X s (v_world v)) + 1\<rparr>\<rparr>"
  have "server_inv ?u" by (rule connected_inv [OF assms])
  then have "present (v_world (handleSession X error s (finished s v))) = (present (v_world v))(s \<mapsto> (a, False))"
    using present_accept [of ?u] a True by (simp add: handleSession_def Let_def)
  moreover have "present (v_world v) s = None" using out(2) by (simp add: present_def)
  ultimately show ?thesis using presence_step.connect by (metis r_into_rtranclp)
next
  case False
  then show ?thesis by (simp add: handleSession_def)
qed

lemma server_step_simulates:
  assumes "senders_law X" and "server_step X throws v v'" and "server_inv v"
  shows "presence_step\<^sup>*\<^sup>* (present (v_world v)) (present (v_world v'))"
  using assms(1,2)
proof (cases rule: server_step_shape)
  case (session sid w)
  then show ?thesis using assms(3) by (simp add: evolves_def server_inv_def)
next
  case (internal w)
  then show ?thesis using assms(3) internal(1) [of 0] by (simp add: evolves_def server_inv_def)
next
  case (accept s error)
  then show ?thesis using accept_simulates [OF assms(3)] by blast
next
  case (command up c)
  then show ?thesis by (rule console_simulates [OF assms(3)])
qed


end
