(* ===== verification/Messages.thy ===== *)
theory Messages
  imports Contacts
begin

text \<open>
  Messages: what \<open>processPushRequest\<close> stores for each recipient, and what a recipient's
  client gets from it. A message is stored as a BSON document and read back; a field comes
  back as \<^const>\<open>prune\<close> of the field sent, the normal form of the round trip.
\<close>

section \<open>Fields of a stored object\<close>

lemma bsonObjLoop_lookup:
  assumes "ubj_laws X"
  shows "\<exists>r. bsonObjLoop X d res = UObject r \<and>
    map_of r = map_of res ++ map_of (rev (map (\<lambda>(k, b). (k, bsonToUbj X b)) d))"
proof (induction d arbitrary: res)
  case (Cons e d)
  obtain k b where e: "e = (k, b)" by fastforce
  obtain r where "bsonObjLoop X d (u_setField X res k (bsonToUbj X b)) = UObject r"
    "map_of r = (map_of res)(k \<mapsto> bsonToUbj X b) ++ map_of (rev (map (\<lambda>(k, b). (k, bsonToUbj X b)) d))"
    using Cons.IH [of "u_setField X res k (bsonToUbj X b)", unfolded ubj_lawsD(14) [OF assms]] by blast
  then show ?case by (intro exI [of _ r]) (simp add: e)
qed simp

text \<open>An object goes through the database: each of its fields comes back in normal form.\<close>

lemma stored_field:
  assumes "ubj_laws X" and "bson_laws X" and "distinct (map fst fs)"
    and "ubjToBson X (UObject fs) = Inr d" and "map_of fs k = Some v" and "storable v" and "fields_sorted v"
  shows "u_at X (bsonToUbj X (BObject d)) k = prune v"
proof -
  let ?fs = "filter (\<lambda>(k, v). storable v) fs"
  have d: "d = map (\<lambda>(k, v). (k, stored v)) ?fs"
    using assms(4) ubjValToBson_stored(1) [OF assms(1,2), of "UObject fs"] by simp
  have "distinct (map fst ?fs)" using assms(3) by (simp add: distinct_map_filter)
  moreover have "(k, v) \<in> set ?fs" using assms(5,6) by (auto dest: map_of_SomeD)
  moreover have "map (\<lambda>(k, b). (k, bsonToUbj X b)) d = map (\<lambda>(k, v). (k, bsonToUbj X (stored v))) ?fs"
    by (simp add: d split_def)
  ultimately have "map_of (rev (map (\<lambda>(k, b). (k, bsonToUbj X b)) d)) k = Some (bsonToUbj X (stored v))"
    by (intro map_of_is_SomeI) (simp_all add: rev_map [symmetric] o_def split_def, force)
  with bsonObjLoop_lookup [OF assms(1), of d "[]"] show ?thesis
    using bsonToUbj_stored [OF assms(1,2,7,6)] by (auto simp: ubj_lawsD(11) [OF assms(1)])
qed

section \<open>One recipient\<close>

abbreviation push_doc :: "('db, 'z) ext_scheme \<Rightarrow> uint32 \<Rightarrow> uint32 \<Rightarrow> uint32 \<Rightarrow> bson_obj \<Rightarrow> bson_obj" where
  "push_doc X rid src dst data \<equiv>
     [(''id'', BNumberInt rid), (''type'', BNumberInt (rt_code X Push)), (''time'', BNumberInt 0),
      (''ttl'', BNumberInt 0), (''src'', BNumberInt src), (''dst'', BNumberInt dst), (''data'', BObject data)]"

text \<open>The fields of the message forwarded to a recipient.\<close>

definition message_field :: "('db, 'z) ext_scheme \<Rightarrow> uint32 \<Rightarrow> ubj \<Rightarrow> ubj \<Rightarrow> string \<rightharpoonup> ubj" where
  "message_field X src head it =
     [''requestId'' \<mapsto> UInt32 (at_int X head ''requestId''), ''requestType'' \<mapsto> u_at X head ''requestType'',
      ''src'' \<mapsto> UInt32 src, ''resources'' \<mapsto> u_at X head ''resources'', ''salt'' \<mapsto> u_at X head ''salt'',
      ''meta'' \<mapsto> u_at X head ''meta'', ''key'' \<mapsto> u_at X it ''key'']"

definition carries :: "('db, 'z) ext_scheme \<Rightarrow> (string \<rightharpoonup> ubj) \<Rightarrow> ubj \<Rightarrow> bool" where
  "carries X flds msg \<longleftrightarrow>
     (\<forall>k v. flds k = Some v \<longrightarrow> storable v \<longrightarrow> fields_sorted v \<longrightarrow> u_at X msg k = prune v)"

definition recipients :: "('db, 'z) ext_scheme \<Rightarrow> uint32 \<Rightarrow> ubj list \<Rightarrow> ubj list" where
  "recipients X src its = filter (\<lambda>it. at_int X it ''dst'' \<noteq> src) its"

definition forward_ok :: "('db, 'z) ext_scheme \<Rightarrow> uint32 \<Rightarrow> ubj \<Rightarrow> (string \<times> ubj) list \<Rightarrow> bool" where
  "forward_ok X src head fw \<longleftrightarrow> distinct (map fst fw) \<and>
     (\<forall>it. (map_of fw)(''key'' \<mapsto> u_at X it ''key'') = message_field X src head it)"

lemma forward_ok_push:
  assumes "ubj_laws X"
  shows "forward_ok X (accountId sid w) head (push_forward X sid head w)"
proof -
  have "distinct (map fst (push_forward X sid head w))"
    by (simp add: push_forward_def ubj_lawsD(15) [OF assms])
  then show ?thesis
    by (simp add: forward_ok_def push_forward_def message_field_def ubj_lawsD(14) [OF assms])
qed

lemma forward_ok_key:
  "ubj_laws X \<Longrightarrow> forward_ok X src head fw \<Longrightarrow> forward_ok X src head (u_setField X fw ''key'' v)"
  by (simp add: forward_ok_def ubj_lawsD)

lemma push_to_effect:
  assumes laws: "ubj_laws X" "bson_laws X" "mongo_laws X docs sat" and "db_ready w"
    and fw: "forward_ok X (accountId sid w) head fw" and other: "at_int X it ''dst'' \<noteq> accountId sid w"
  obtains fw' d data where "push_to X sid rid it (fw, w) = Some (fw', post_task (at_int X it ''dst'') (w\<lparr>w_dbs := d\<rparr>))"
    and "forward_ok X (accountId sid w) head fw'" and "m_connections d \<noteq> []"
    and "docs (db_mongo d) = (docs (mongo w))(''zway.requests'' :=
      add_mset (push_doc X rid (accountId sid w) (at_int X it ''dst'') data) (docs (mongo w) ''zway.requests''))"
    and "carries X (message_field X (accountId sid w) head it) (bsonToUbj X (BObject data))"
proof -
  let ?fw = "u_setField X fw ''key'' (u_at X it ''key'')"
  have ok: "forward_ok X (accountId sid w) head ?fw" by (rule forward_ok_key [OF laws(1) fw])
  have look: "map_of ?fw = message_field X (accountId sid w) head it"
    using fw by (simp add: forward_ok_def ubj_lawsD(14) [OF laws(1)])
  obtain data where data: "ubjToBson X (UObject ?fw) = Inr data"
    using ubjValToBson_stored(1) [OF laws(1,2), of "UObject ?fw"] by blast
  have "carries X (message_field X (accountId sid w) head it) (bsonToUbj X (BObject data))"
    unfolding carries_def look [symmetric]
    using stored_field [OF laws(1,2) _ data] ok by (simp add: forward_ok_def)
  moreover obtain d where "DB_addRequest X (push_doc X rid (accountId sid w) (at_int X it ''dst'') data) (w_dbs w) = Some (True, d)"
    "docs (db_mongo d) = (docs (mongo w))(''zway.requests'' :=
      add_mset (push_doc X rid (accountId sid w) (at_int X it ''dst'') data) (docs (mongo w) ''zway.requests''))"
    "m_connections d \<noteq> []"
    by (rule DB_addRequest_mongo [OF laws(3) assms(4)])
  moreover from this(1) have "push_to X sid rid it (fw, w) = Some (?fw, post_task (at_int X it ''dst'') (w\<lparr>w_dbs := d\<rparr>))"
    using other data by (simp add: push_to_def Let_def onDb_def)
  ultimately show thesis using ok that by blast
qed

lemma push_loop_effect:
  assumes laws: "ubj_laws X" "bson_laws X" "mongo_laws X docs sat" and "db_ready w"
    and "forward_ok X src head fw" and "src = accountId sid w"
  shows "\<exists>fw' w' datas. for_each its (push_to X sid rid) (fw, w) = Some (fw', w') \<and>
    list_all2 (\<lambda>it data. carries X (message_field X src head it) (bsonToUbj X (BObject data))) (recipients X src its) datas \<and>
    docs (mongo w') = (docs (mongo w))(''zway.requests'' := docs (mongo w) ''zway.requests'' +
      mset (map2 (\<lambda>it. push_doc X rid src (at_int X it ''dst'')) (recipients X src its) datas)) \<and>
    w_posted w' = w_posted w @ map (\<lambda>it. at_int X it ''dst'') (recipients X src its) \<and>
    w_heap w' = w_heap w \<and> m_sessions w' = m_sessions w \<and> db_ready w'"
  using assms(4-6)
proof (induction its arbitrary: fw w)
  case Nil
  then show ?case by (simp add: recipients_def)
next
  case (Cons it its)
  show ?case
  proof (cases "at_int X it ''dst'' = accountId sid w")
    case True
    then have "push_to X sid rid it (fw, w) = Some (fw, w)" by (simp add: push_to_def)
    then show ?thesis using Cons True by (simp add: recipients_def)
  next
    case False
    note prems = Cons.prems(1) Cons.prems(2) [unfolded Cons.prems(3)] False
    obtain fw1 d data where step: "push_to X sid rid it (fw, w) = Some (fw1, post_task (at_int X it ''dst'') (w\<lparr>w_dbs := d\<rparr>))"
      "forward_ok X (accountId sid w) head fw1" "m_connections d \<noteq> []"
      "docs (db_mongo d) = (docs (mongo w))(''zway.requests'' :=
        add_mset (push_doc X rid (accountId sid w) (at_int X it ''dst'') data) (docs (mongo w) ''zway.requests''))"
      "carries X (message_field X (accountId sid w) head it) (bsonToUbj X (BObject data))"
      by (rule push_to_effect [OF laws prems])
    let ?w = "post_task (at_int X it ''dst'') (w\<lparr>w_dbs := d\<rparr>)"
    have ready: "db_ready ?w" and ok: "forward_ok X src head fw1" and same: "src = accountId sid ?w"
      using step(2,3) Cons.prems(3) by simp_all
    obtain fw' w' datas where rest: "for_each its (push_to X sid rid) (fw1, ?w) = Some (fw', w')"
      "list_all2 (\<lambda>it data. carries X (message_field X src head it) (bsonToUbj X (BObject data))) (recipients X src its) datas"
      "docs (mongo w') = (docs (mongo ?w))(''zway.requests'' := docs (mongo ?w) ''zway.requests'' +
        mset (map2 (\<lambda>it. push_doc X rid src (at_int X it ''dst'')) (recipients X src its) datas))"
      "w_posted w' = w_posted ?w @ map (\<lambda>it. at_int X it ''dst'') (recipients X src its)"
      "w_heap w' = w_heap ?w" "m_sessions w' = m_sessions ?w" "db_ready w'"
      using Cons.IH [OF ready ok same] by blast
    have r: "recipients X src (it # its) = it # recipients X src its"
      using False Cons.prems(3) by (simp add: recipients_def)
    show ?thesis
      unfolding r using step rest Cons.prems(3)
      by (intro exI [of _ fw'] exI [of _ w'] exI [of _ "data # datas"]) simp
  qed
qed

section \<open>Storing a message\<close>

lemma push_effect:
  assumes "ubj_laws X" and "bson_laws X" and "mongo_laws X docs sat" and "db_ready w"
    and "status sid w \<ge> STATUS_LOGGEDIN"
    and "src = accountId sid w" and "rid = at_int X head ''requestId''"
    and "rcpts = recipients X src (u_toArray X (u_at X head ''keys''))"
  shows "\<exists>w' datas res. processPushRequest X sid head w = Some (True, w') \<and>
    list_all2 (\<lambda>it data. carries X (message_field X src head it) (bsonToUbj X (BObject data))) rcpts datas \<and>
    docs (mongo w') = (docs (mongo w))(''zway.requests'' := docs (mongo w) ''zway.requests'' +
      mset (map2 (\<lambda>it. push_doc X rid src (at_int X it ''dst'')) rcpts datas)) \<and>
    w_posted w' = w_posted w @ map (\<lambda>it. at_int X it ''dst'') rcpts \<and>
    calls sid w' = calls sid w @ [PostRequestSuccess rid res] \<and> (\<forall>t. t \<noteq> sid \<longrightarrow> w_heap w' t = w_heap w t) \<and>
    (\<forall>t. accountId t w' = accountId t w) \<and> m_sessions w' = m_sessions w \<and> db_ready w'"
proof -
  have fw: "forward_ok X src head (push_forward X sid head w)"
    unfolding assms(6) by (rule forward_ok_push [OF assms(1)])
  obtain fw' w' datas where loop: "for_each (u_toArray X (u_at X head ''keys'')) (push_to X sid rid) (push_forward X sid head w, w) = Some (fw', w')"
    "list_all2 (\<lambda>it data. carries X (message_field X src head it) (bsonToUbj X (BObject data))) rcpts datas"
    "docs (mongo w') = (docs (mongo w))(''zway.requests'' := docs (mongo w) ''zway.requests'' +
      mset (map2 (\<lambda>it. push_doc X rid src (at_int X it ''dst'')) rcpts datas))"
    "w_posted w' = w_posted w @ map (\<lambda>it. at_int X it ''dst'') rcpts" "w_heap w' = w_heap w"
    "m_sessions w' = m_sessions w" "db_ready w'"
    unfolding assms(8) using push_loop_effect [OF assms(1-4) fw assms(6)] by blast
  define res where "res = UBJ_OBJ X [(''resources'', UArray (map (\<lambda>it. UInt32 (at_int X it ''id''))
      (u_toArray X (u_at X head ''resources''))))]"
  have "processPushRequest X sid head w = Some (True, postRequestSuccess sid rid res w')"
    using loop(1) assms(5,7) by (simp add: processPushRequest_def Let_def res_def)
  then show ?thesis
    using loop(2-7) by (intro exI [of _ "postRequestSuccess sid rid res w'"] exI [of _ datas] exI [of _ res]) simp
qed

text \<open>
  C6. A message of a logged-in client is stored once for each recipient other than the
  sender, under the sender's account, carrying the fields of the message and the key meant
  for that recipient; each recipient is served by a task, in order; the client is told of
  the success. Nothing else is stored and no other session is touched.
\<close>

theorem push_stores:
  assumes "ubj_laws X" and "bson_laws X" and "mongo_laws X docs sat" and "db_ready w"
    and "status sid w \<ge> STATUS_LOGGEDIN"
    and "src = accountId sid w" and "rid = at_int X head ''requestId''"
    and "rcpts = recipients X src (u_toArray X (u_at X head ''keys''))"
  shows "\<exists>w' datas res. processPushRequest X sid head w = Some (True, w') \<and>
    list_all2 (\<lambda>it data. carries X (message_field X src head it) (bsonToUbj X (BObject data))) rcpts datas \<and>
    docs (mongo w') = (docs (mongo w))(''zway.requests'' := docs (mongo w) ''zway.requests'' +
      mset (map2 (\<lambda>it. push_doc X rid src (at_int X it ''dst'')) rcpts datas)) \<and>
    w_posted w' = w_posted w @ map (\<lambda>it. at_int X it ''dst'') rcpts \<and>
    calls sid w' = calls sid w @ [PostRequestSuccess rid res] \<and> (\<forall>t. t \<noteq> sid \<longrightarrow> w_heap w' t = w_heap w t)"
  using push_effect [OF assms] by blast

section \<open>Delivering a message\<close>

text \<open>
  The posting loop posts a stored request that is not pending, provided no other request
  in the list has its type and id.
\<close>

lemma process_request_keeps_calls:
  "set (calls sid w) \<subseteq> set (calls sid (process_request X sid e w))"
  by (auto simp: process_request_def postRequest_def Let_def)

lemma process_requests_keep_calls:
  "set (calls sid w) \<subseteq> set (calls sid (fold (process_request X sid) es w))"
  by (induction es arbitrary: w) (use process_request_keeps_calls in fastforce)+

lemma process_request_posts_push:
  assumes "rt_laws X" and "doc_int X ''type'' e = rt_code X Push" and "\<not> request_pending X sid w e"
  shows "PostRequest Push (doc_int X ''id'' e) (bsonToUbj X (b_elem X e ''data'')) \<in> set (calls sid (process_request X sid e w))"
  using assms by (simp add: process_request_def postRequest_def PushRequest_create_def rt_codeD [OF assms(1)] Let_def)

lemma process_requests_post_push:
  assumes "rt_laws X" and "pending_laws X" and "e \<in> set es" and "doc_int X ''type'' e = rt_code X Push"
    and "\<not> request_pending X sid w e"
    and "\<forall>e' \<in> set es. doc_int X ''type'' e' = rt_code X Push \<longrightarrow> doc_int X ''id'' e' = doc_int X ''id'' e \<longrightarrow> e' = e"
  shows "PostRequest Push (doc_int X ''id'' e) (bsonToUbj X (b_elem X e ''data''))
    \<in> set (calls sid (fold (process_request X sid) es w))"
  using assms(3,5,6)
proof (induction es arbitrary: w)
  case (Cons e' es)
  show ?case
  proof (cases "e' = e")
    case True
    then show ?thesis
      using subsetD [OF process_requests_keep_calls process_request_posts_push [OF assms(1,4) Cons.prems(2)]] by simp
  next
    case False
    then have "\<not> request_pending X sid (process_request X sid e' w) e"
      using Cons.prems(2,3) assms(4) by (auto simp: process_request_pending [OF assms(2)])
    then show ?thesis using Cons.IH Cons.prems(1,3) False by simp
  qed
qed simp

text \<open>The sessions of the recipient are served one after another; each gets the message.\<close>

lemma serve_posts_push:
  assumes "rt_laws X" and "pending_laws X" and "mongo_laws X docs sat" and "db_ready w"
    and "\<forall>s \<in> set l. accountId s w = u" and "distinct l" and "t \<in> set l"
    and "D = filter_mset (sat [(''dst'', BNumberInt u)]) (docs (mongo w) ''zway.requests'')"
    and "e \<in># D" and "doc_int X ''type'' e = rt_code X Push" and "\<not> request_pending X t w e"
    and "\<forall>e' \<in># D. doc_int X ''type'' e' = rt_code X Push \<longrightarrow> doc_int X ''id'' e' = doc_int X ''id'' e \<longrightarrow> e' = e"
    and "for_each l (\<lambda>s w. map_option snd (processRequests X s w)) w = Some w'"
  shows "PostRequest Push (doc_int X ''id'' e) (bsonToUbj X (b_elem X e ''data'')) \<in> set (calls t w')"
  using assms(4-8,11,13)
proof (induction l arbitrary: w)
  case (Cons s l)
  obtain es w1 where es: "processRequests X s w = Some (True, fold (process_request X s) es w1)"
    "mset es = filter_mset (sat [(''dst'', BNumberInt (accountId s w))]) (docs (mongo w) ''zway.requests'')"
    "w1 = w\<lparr>w_dbs := w_dbs w1\<rparr>" "docs (mongo w1) = docs (mongo w)" "db_ready w1"
    using processRequests_mongo [OF assms(3) Cons.prems(1), of s] by metis
  define w2 where "w2 = fold (process_request X s) es w1"
  note frame = same_but_delivery_frame [OF process_requests_frame [of s X es w1], folded w2_def]
  have heap1: "w_heap w1 = w_heap w" by (subst es(3), simp)
  have D: "mset es = D" using es(2) Cons.prems(2,5) by simp
  have in_es: "x \<in> set es \<longleftrightarrow> x \<in># D" for x by (simp flip: D)
  have rest: "for_each l (\<lambda>s w. map_option snd (processRequests X s w)) w2 = Some w'"
    using Cons.prems(7) es(1) by (simp add: w2_def)
  have acc: "\<forall>s \<in> set l. accountId s w2 = u" using Cons.prems(2) by (simp add: frame(6) heap1)
  have ready: "db_ready w2" using es(5) by (simp add: frame(1))
  show ?case
  proof (cases "t = s")
    case True
    have "PostRequest Push (doc_int X ''id'' e) (bsonToUbj X (b_elem X e ''data'')) \<in> set (calls t w2)"
      unfolding w2_def True
      by (rule process_requests_post_push [OF assms(1,2)])
        (use assms(9,10,12) Cons.prems(6) True in \<open>auto simp: in_es heap1\<close>)
    moreover have "w_heap w' t = w_heap w2 t"
      using serve_sessions [OF assms(3,2) ready acc] rest Cons.prems(3) True by auto
    ultimately show ?thesis by simp
  next
    case False
    have "w_heap w2 t = w_heap w t" using frame(9) [OF False] heap1 by simp
    moreover have "docs (mongo w2) = docs (mongo w)" using es(4) by (simp add: frame(1))
    ultimately show ?thesis
      using Cons.prems False by (intro Cons.IH [OF ready acc _ _ _ _ rest]) auto
  qed
qed simp

lemma serve_ready:
  assumes "mongo_laws X docs sat" and "for_each l (\<lambda>s w. map_option snd (processRequests X s w)) w = Some w'" and "db_ready w"
  shows "db_ready w' \<and> accountId t w' = accountId t w"
  using assms(2,3)
proof (induction l arbitrary: w)
  case (Cons s l)
  obtain es w1 where es: "processRequests X s w = Some (True, fold (process_request X s) es w1)"
    "w1 = w\<lparr>w_dbs := w_dbs w1\<rparr>" "db_ready w1"
    using processRequests_mongo [OF assms(1) Cons.prems(2), of s] by metis
  note frame = same_but_delivery_frame [OF process_requests_frame [of s X es w1]]
  have heap: "w_heap w1 = w_heap w" by (subst es(2), simp)
  have "for_each l (\<lambda>s w. map_option snd (processRequests X s w)) (fold (process_request X s) es w1) = Some w'"
    using Cons.prems(1) es(1) by simp
  moreover have "db_ready (fold (process_request X s) es w1)" using es(3) by (simp add: frame(1))
  ultimately have "db_ready w' \<and> accountId t w' = accountId t (fold (process_request X s) es w1)" by (rule Cons.IH)
  then show ?case by (simp add: frame(6) heap)
qed simp

text \<open>The client confirms a message that is stored once: it is gone.\<close>

lemma confirmed:
  assumes "mongo_laws X docs sat" and "db_ready w" and "accountId t w = dst" and "sat (request_key rid dst) e"
    and "\<forall>e' \<in># D. \<not> sat (request_key rid dst) e'"
    and "docs (mongo w) ''zway.requests'' = add_mset e D"
    and "at_int X answer ''status'' = 1" and "u_toArray X (u_at X answer ''resources'') = []"
  shows "\<exists>w'. response X t Push rid answer w = Some w' \<and> docs (mongo w') = (docs (mongo w))(''zway.requests'' := D)"
proof -
  obtain d' D' where d': "onDb (DB_deleteRequest X (request_key rid dst)) w = Some (True, w\<lparr>w_dbs := d'\<rparr>)"
    "deleted sat (request_key rid dst) (docs (mongo w) ''zway.requests'') D'"
    "docs (db_mongo d') = (docs (mongo w))(''zway.requests'' := D')"
    by (rule onDb_deleteRequest [OF assms(1,2)])
  have "D' = D" using d'(2) assms(4-6) by (auto simp: deleted_def)
  moreover have "response X t Push rid answer w = Some (engine t (ResponseReceived Push rid) (w\<lparr>w_dbs := d'\<rparr>))"
    using assms(3,7,8) d'(1)
    by (simp add: response_def PushRequest_processResponse_def run_callback_def push_callback_def Let_def)
  ultimately show ?thesis using d'(3) by simp
qed

text \<open>A message to one recipient.\<close>

lemma push_one:
  assumes "ubj_laws X" and "bson_laws X" and "mongo_laws X docs sat" and "db_ready w"
    and "status sid w \<ge> STATUS_LOGGEDIN" and "src = accountId sid w" and "rid = at_int X head ''requestId''"
    and "u_toArray X (u_at X head ''keys'') = [it]" and "dst = at_int X it ''dst''" and "dst \<noteq> src"
  obtains w\<^sub>1 data where "processPushRequest X sid head w = Some (True, w\<^sub>1)"
    and "carries X (message_field X src head it) (bsonToUbj X (BObject data))"
    and "docs (mongo w\<^sub>1) = (docs (mongo w))(''zway.requests'' :=
      add_mset (push_doc X rid src dst data) (docs (mongo w) ''zway.requests''))"
    and "w_posted w\<^sub>1 = w_posted w @ [dst]"
    and "\<forall>t. t \<noteq> sid \<longrightarrow> w_heap w\<^sub>1 t = w_heap w t" and "\<forall>t. accountId t w\<^sub>1 = accountId t w"
    and "m_sessions w\<^sub>1 = m_sessions w" and "db_ready w\<^sub>1"
proof -
  have rcpts: "recipients X src (u_toArray X (u_at X head ''keys'')) = [it]"
    using assms(8-10) by (simp add: recipients_def)
  obtain w\<^sub>1 datas res where push: "processPushRequest X sid head w = Some (True, w\<^sub>1)"
    and carry: "list_all2 (\<lambda>it data. carries X (message_field X src head it) (bsonToUbj X (BObject data))) [it] datas"
    and docs1: "docs (mongo w\<^sub>1) = (docs (mongo w))(''zway.requests'' := docs (mongo w) ''zway.requests'' +
      mset (map2 (\<lambda>it. push_doc X rid src (at_int X it ''dst'')) [it] datas))"
    and rest: "w_posted w\<^sub>1 = w_posted w @ map (\<lambda>it. at_int X it ''dst'') [it]"
      "\<forall>t. t \<noteq> sid \<longrightarrow> w_heap w\<^sub>1 t = w_heap w t" "\<forall>t. accountId t w\<^sub>1 = accountId t w"
      "m_sessions w\<^sub>1 = m_sessions w" "db_ready w\<^sub>1"
    using push_effect [OF assms(1-7) rcpts [symmetric]] by blast
  obtain data where data: "datas = [data]" "carries X (message_field X src head it) (bsonToUbj X (BObject data))"
    using carry by (auto simp: list_all2_Cons1)
  show thesis using that [OF push data(2)] docs1 rest data(1) assms(9) by simp
qed

text \<open>
  C5. The life of a message: after the client's request and the task it started, every
  connected session of the recipient has been sent the message, with all its fields and the
  recipient's key (as long as the request id is not in use for another message to the same
  recipient); and when the recipient's client confirms it, the message is deleted and the
  database holds exactly what it held before.
\<close>

theorem message_reaches_recipient:
  assumes "ubj_laws X" and "bson_laws X" and "mongo_laws X docs sat" and "sat_laws sat" and "rt_laws X"
    and "pending_laws X" and "db_ready w" and "reg_wf w" and "status sid w \<ge> STATUS_LOGGEDIN"
    and "w_posted w = []" and "src = accountId sid w" and "rid = at_int X head ''requestId''"
    and "u_toArray X (u_at X head ''keys'') = [it]" and "dst = at_int X it ''dst''" and "dst \<noteq> src" and "t \<noteq> sid"
    and "t \<in> set (Server_getSessions dst w)" and "\<not> e_requestPending X (calls t w) (rt_code X Push) rid"
    and "\<forall>e \<in># docs (mongo w) ''zway.requests''. sat [(''dst'', BNumberInt dst)] e \<longrightarrow>
      doc_int X ''type'' e = rt_code X Push \<longrightarrow> doc_int X ''id'' e \<noteq> rid"
    and "\<forall>e \<in># docs (mongo w) ''zway.requests''. \<not> sat (request_key rid dst) e"
    and "at_int X answer ''status'' = 1" and "u_toArray X (u_at X answer ''resources'') = []"
  shows "\<exists>w\<^sub>1 w\<^sub>2 w\<^sub>3 msg. processPushRequest X sid head w = Some (True, w\<^sub>1) \<and> run_task X w\<^sub>1 = Some w\<^sub>2 \<and>
    PostRequest Push rid msg \<in> set (calls t w\<^sub>2) \<and> carries X (message_field X src head it) msg \<and>
    response X t Push rid answer w\<^sub>2 = Some w\<^sub>3 \<and> docs (mongo w\<^sub>3) = docs (mongo w)"
proof -
  let ?v = "\<lambda>w\<^sub>1. w\<^sub>1\<lparr>w_posted := []\<rparr>"
  obtain w\<^sub>1 data where push: "processPushRequest X sid head w = Some (True, w\<^sub>1)"
    and data: "carries X (message_field X src head it) (bsonToUbj X (BObject data))"
    and docs1: "docs (mongo w\<^sub>1) = (docs (mongo w))(''zway.requests'' :=
      add_mset (push_doc X rid src dst data) (docs (mongo w) ''zway.requests''))"
    and posted: "w_posted w\<^sub>1 = w_posted w @ [dst]"
    and w1: "\<forall>t. t \<noteq> sid \<longrightarrow> w_heap w\<^sub>1 t = w_heap w t" "\<forall>t. accountId t w\<^sub>1 = accountId t w"
      "m_sessions w\<^sub>1 = m_sessions w" "db_ready w\<^sub>1"
    using push_one [OF assms(1-3,7,9,11-15)] by blast
  let ?e = "push_doc X rid src dst data"
  let ?D = "filter_mset (sat [(''dst'', BNumberInt dst)]) (docs (mongo (?v w\<^sub>1)) ''zway.requests'')"
  have requests: "docs (mongo (?v w\<^sub>1)) ''zway.requests'' = add_mset ?e (docs (mongo w) ''zway.requests'')"
    using docs1 by simp
  have e: "doc_int X ''type'' ?e = rt_code X Push" "doc_int X ''id'' ?e = rid" "b_elem X ?e ''data'' = BObject data"
    by (simp_all add: bson_lawsD [OF assms(2)])
  have "sat [(''dst'', BNumberInt dst)] ?e" by (simp add: sat_lawsD(3) [OF assms(4)])
  then have D: "?D = add_mset ?e (filter_mset (sat [(''dst'', BNumberInt dst)]) (docs (mongo w) ''zway.requests''))"
    unfolding requests by simp
  let ?l = "Server_getSessions dst w"
  have same: "Server_getSessions dst (?v w\<^sub>1) = ?l" by (rule getSessions_cong) (simp add: w1)
  have owner: "\<forall>s \<in> set ?l. accountId s (?v w\<^sub>1) = dst" using reg_wf_getSessions(2) [OF assms(8)] w1(2) by simp
  have ready: "db_ready (?v w\<^sub>1)" using w1(4) by simp
  obtain w\<^sub>2 where serve: "for_each ?l (\<lambda>s w. map_option snd (processRequests X s w)) (?v w\<^sub>1) = Some w\<^sub>2"
    and docs2: "docs (mongo w\<^sub>2) = docs (mongo w\<^sub>1)"
    using serve_sessions [OF assms(3,6) ready owner] by auto
  have t2: "db_ready w\<^sub>2" "accountId t w\<^sub>2 = dst" using serve_ready [OF assms(3) serve ready] owner assms(17) by auto
  have "\<exists>w\<^sub>3. response X t Push rid answer w\<^sub>2 = Some w\<^sub>3 \<and> docs (mongo w\<^sub>3) = (docs (mongo w\<^sub>2))(''zway.requests'' := docs (mongo w) ''zway.requests'')"
  proof (rule confirmed [OF assms(3) t2 _ assms(20) _ assms(21,22)])
    show "sat (request_key rid dst) ?e" by (simp add: sat_lawsD(2,3) [OF assms(4)])
    show "docs (mongo w\<^sub>2) ''zway.requests'' = add_mset ?e (docs (mongo w) ''zway.requests'')"
      unfolding docs2 using requests by simp
  qed
  then obtain w\<^sub>3 where w3: "response X t Push rid answer w\<^sub>2 = Some w\<^sub>3 \<and> docs (mongo w\<^sub>3) = docs (mongo w)"
    unfolding docs2 docs1 by auto
  have "?l \<noteq> []" using assms(17) by auto
  then have "run_task X w\<^sub>1 = Some w\<^sub>2"
    using posted assms(10) serve same by (simp add: run_task_def Server_processUserRequests_def Let_def)
  moreover have "PostRequest Push (doc_int X ''id'' ?e) (bsonToUbj X (b_elem X ?e ''data'')) \<in> set (calls t w\<^sub>2)"
  proof (rule serve_posts_push [OF assms(5,6,3) ready owner reg_wf_getSessions(1) [OF assms(8)] assms(17) refl _ e(1) _ _ serve])
    show "?e \<in># ?D" unfolding D by simp
    show "\<not> request_pending X t (?v w\<^sub>1) ?e" using assms(16,18) w1(1) e by simp
    show "\<forall>e' \<in># ?D. doc_int X ''type'' e' = rt_code X Push \<longrightarrow> doc_int X ''id'' e' = doc_int X ''id'' ?e \<longrightarrow> e' = ?e"
      unfolding D e(2) using assms(19) by auto
  qed
  ultimately show ?thesis using push data w3 unfolding e by blast
qed

section \<open>Uploads\<close>


end
