(* ===== verification/Storage.thy ===== *)
theory Storage
  imports Server_Run
begin

text \<open>
  What the server does to the database, as one contract: \<open>store_invariant\<close> names the six
  ways in which the sources use the driver, and any property of the database state that
  these six keep is kept by every step of the running server.
\<close>

section \<open>The requests the server stores\<close>

text \<open>
  The arguments of the calls of \<open>DB::addRequest\<close>, one rule per call. The contact request to a
  known account comes first: \<open>processAddContactRequest\<close> stores it only after it has counted
  the requests that match \<open>pending_query\<close>.
\<close>

definition pending_query :: "('db, 'z) ext_scheme \<Rightarrow> uint32 \<Rightarrow> uint32 \<Rightarrow> bson_obj" where
  "pending_query X src dst =
     [(''type'', BNumberInt (rt_code X AddContact)), (''src'', BNumberInt src), (''dst'', BNumberInt dst)]"

inductive add_contact_doc :: "('db, 'z) ext_scheme \<Rightarrow> uint32 \<Rightarrow> uint32 \<Rightarrow> bson_obj \<Rightarrow> bool" for X src dst where
  add_contact: "BSON X
     [(''id'', BNumberInt rid), (''type'', BNumberInt (rt_code X AddContact)),
      (''time'', BNumberInt 0), (''ttl'', BNumberInt 0), (''src'', BNumberInt src), (''dst'', BNumberInt dst),
      (''name'', name), (''phone'', phone), (''publicKey'', BObject key), (''addCode'', BString code)] = Some doc \<Longrightarrow>
     add_contact_doc X src dst doc"

inductive request_doc :: "('db, 'z) ext_scheme \<Rightarrow> bson_obj \<Rightarrow> bool" for X where
  add_code: "BSON X
     [(''id'', BNumberInt rid), (''type'', BNumberInt (rt_code X AddContact)),
      (''time'', BNumberInt 0), (''ttl'', BNumberInt 0), (''src'', BNumberInt src),
      (''name'', name), (''phone'', phone), (''publicKey'', BObject key), (''addCode'', BString code)] = Some doc \<Longrightarrow>
     request_doc X doc"
| accept: "BSON X
     [(''id'', BNumberInt rid), (''contactRequestId'', BNumberInt crid),
      (''type'', BNumberInt (rt_code X AcceptContact)), (''src'', BNumberInt src), (''dst'', BNumberInt dst),
      (''name'', name), (''phone'', phone), (''publicKey'', BObject key)] = Some doc \<Longrightarrow> request_doc X doc"
| reject: "request_doc X
     [(''type'', BNumberInt (rt_code X RejectContact)), (''id'', BNumberInt rid),
      (''contactRequestId'', BNumberInt crid), (''src'', BNumberInt src), (''dst'', BNumberInt dst)]"
| push: "request_doc X
     [(''id'', BNumberInt rid), (''type'', BNumberInt (rt_code X Push)), (''time'', BNumberInt 0),
      (''ttl'', BNumberInt 0), (''src'', BNumberInt src), (''dst'', BNumberInt dst), (''data'', BObject data)]"
| dispatch: "request_doc X
     [(''id'', BNumberInt rid), (''type'', BNumberInt (rt_code X Dispatch)), (''time'', BNumberInt 0),
      (''ttl'', BNumberInt 0), (''src'', BNumberInt 0), (''dst'', BNumberInt dst), (''dispatchType'', BNumberInt 6)]"

section \<open>Steps that do not use the database\<close>

lemma dbs_getStreamBuffer: "Server_getStreamBuffer X i w = Some (r, w') \<Longrightarrow> w_dbs w' = w_dbs w"
  by (auto simp: Server_getStreamBuffer_def alloc_sbuf_def bind_pair Let_def split: option.splits)

lemma dbs_getBuffer: "BSender_getBuffer X s w = Some w' \<Longrightarrow> w_dbs w' = w_dbs w"
  by (auto simp: BSender_getBuffer_def bind_pair Let_def dbs_getStreamBuffer split: option.splits if_splits)

lemma dbs_prepare: "(prepare_step X)\<^sup>*\<^sup>* w w' \<Longrightarrow> w_dbs w' = w_dbs w"
  by (induction rule: rtranclp_induct) (auto elim!: prepare_step.cases dest: dbs_getBuffer)

lemma dbs_next_packet:
  assumes "senders_law X" and "next_packet X t w = Some (p, w')"
  shows "w_dbs w' = w_dbs w"
proof (cases "s_packetQueue (w_heap w t) = []")
  case True
  then obtain pkts w0 where w0: "z_processStreamSenders X t w = Some (pkts, w0)"
    and "(let w1 = upd_sess t (\<lambda>s. s\<lparr>s_packetQueue := s_packetQueue s @ pkts\<rparr>) w0 in
        (case s_packetQueue (w_heap w1 t) of
        [] \<Rightarrow> Some (None, w1)
      | pkt # rest \<Rightarrow> Some (Some pkt, upd_sess t (\<lambda>s. s\<lparr>s_packetQueue := rest\<rparr>) w1))) = Some (p, w')"
    using assms(2) by (auto simp: next_packet_def bind_pair bind_eq_Some_conv)
  then have "w_dbs w' = w_dbs w0" by (auto simp: Let_def split: list.splits)
  moreover have "(prepare_step X)\<^sup>*\<^sup>* w w0" using assms(1) w0 unfolding senders_law_def by blast
  ultimately show ?thesis by (simp add: dbs_prepare)
qed (use assms(2) in \<open>auto simp: next_packet_def split: list.splits\<close>)

lemma dbs_sendPacket:
  assumes "senders_law X" and "sendPacket X t w = Some (r, w')"
  shows "w_dbs w' = w_dbs w"
  using assms(2) dbs_next_packet [OF assms(1)]
  by (auto simp: sendPacket_def bind_pair Let_def split: option.splits if_splits)

lemma dbs_BSender_create: "BSender_create X t i w = Some (r, w') \<Longrightarrow> w_dbs w' = w_dbs w"
  by (auto simp: BSender_create_def BSender_init_def bind_pair bind_eq_Some_conv Let_def
    dest!: dbs_getBuffer split: option.splits if_splits)

lemma dbs_simps [simp]:
  "w_dbs (Server_addStreamBufferSender s w) = w_dbs w" "w_dbs (resetTimer sid w) = w_dbs w"
  "w_dbs (close sid sh rm w) = w_dbs w" "w_dbs (snd (recvPacket X sid w)) = w_dbs w"
  "w_dbs (recvPacketBody X sid pkt w) = w_dbs w" "w_dbs (start Y sid w) = w_dbs w"
  "w_dbs (evict_idle now w) = w_dbs w"
  by (simp_all add: Server_addStreamBufferSender_def resetTimer_def close_def recvPacket_def recvPacketBody_def
    start_def next_rand_def evict_idle_def Let_def split: option.split)

lemma dbs_removeSessions [simp]: "w_dbs (Server_removeSessions w) = w_dbs (w :: ('db, 'm) world)"
proof -
  have "w_dbs (fold (\<lambda>s. close s False False) l w) = w_dbs w" for l and w :: "('db, 'm) world"
    by (induction l arbitrary: w) auto
  then have "w_dbs (fold (\<lambda>(a, l). fold (\<lambda>s. close s False False) l) m w) = w_dbs w" for m :: "(uint32 \<times> nat list) list" and w :: "('db, 'm) world"
    by (induction m arbitrary: w) auto
  then show ?thesis by (simp add: Server_removeSessions_def)
qed

lemma dbs_alloc [simp]: "w_dbs (snd (alloc_sbuf sb w)) = w_dbs w"
  and dbs_addStreamBuffer [simp]: "w_dbs (snd (Server_addStreamBuffer b w)) = w_dbs w"
  by (simp_all add: alloc_sbuf_def Server_addStreamBuffer_def Let_def split: option.split)

lemma dbs_createStreamReceiver: "createStreamReceiver X rc pkt w = Some (r, w') \<Longrightarrow> w_dbs w' = w_dbs w"
  by (auto simp: createStreamReceiver_def bind_eq_Some_conv Let_def split_def split: option.splits if_splits)

section \<open>The contract\<close>

lemma holds_bind_keep: "(\<And>x. m = Some x \<Longrightarrow> holds Q (f x)) \<Longrightarrow> holds Q (m \<bind> f)"
  by (cases m) (auto simp: holds_def)

lemma holds_unit_bind_value: "(\<And>x. holds_unit Q (f x)) \<Longrightarrow> holds_unit Q (m \<bind> f)"
  by (cases m) (auto simp: holds_unit_def)

named_theorems store_rules \<open>the rules for computations that use the database\<close>

lemmas holds_control = holds_bind holds_bind_unit holds_unit_bind holds_if holds_case holds_rand holds_pair
  holds_Some holds_snd holds_bind_keep

locale store_invariant =
  fixes X :: "('db, 'm, 'z) env_scheme" and D :: "'db db_state \<Rightarrow> bool"
  assumes query: "D d \<Longrightarrow> holds D (with_lock X (\<lambda>db. m_query X db ns q s n f) d)"
    and count: "D d \<Longrightarrow> holds D (with_lock X (\<lambda>db. m_count X db ns q) d)"
    and update: "D d \<Longrightarrow> holds D (with_lock X (\<lambda>db. m_update X db ''zway.accounts'' q u) d)"
    and insert_account: "D d \<Longrightarrow> holds D (with_lock X (\<lambda>db. m_insert X db ''zway.accounts'' a) d)"
    and insert_request: "D d \<Longrightarrow> request_doc X doc \<Longrightarrow>
      holds D (with_lock X (\<lambda>db. m_insert X db ''zway.requests'' doc) d)"
    and insert_contact: "D d \<Longrightarrow> with_lock X (\<lambda>db. m_count X db ''zway.requests'' (pending_query X src dst)) d = Some (res, d') \<Longrightarrow>
      res \<noteq> Some 1 \<Longrightarrow> add_contact_doc X src dst doc \<Longrightarrow>
      holds D (with_lock X (\<lambda>db. m_insert X db ''zway.requests'' doc) d')"
    and remove: "D d \<Longrightarrow> holds D (with_lock X (\<lambda>db. m_remove X db ''zway.requests'' q True) d)"
begin

lemmas laws = query count update insert_account insert_request remove

lemma onDb_op: "holds D (oper (w_dbs w)) \<Longrightarrow> holds (\<lambda>w. D (w_dbs w)) (onDb oper w)"
  by (auto simp: holds_def onDb_Some)

lemma operations [store_rules]:
  assumes "D (w_dbs w)"
  shows "holds (\<lambda>w. D (w_dbs w)) (onDb (DB_newAccountId X) w)"
    "holds (\<lambda>w. D (w_dbs w)) (onDb (DB_getAccount X q f) w)"
    "holds (\<lambda>w. D (w_dbs w)) (onDb (DB_setFcmToken X a t) w)"
    "holds (\<lambda>w. D (w_dbs w)) (onDb (DB_getFcmToken X a) w)"
    "holds (\<lambda>w. D (w_dbs w)) (onDb (DB_insertAccount X a nm ph fn fp pw sl) w)"
    "holds (\<lambda>w. D (w_dbs w)) (onDb (DB_numContactRequests X a) w)"
    "holds (\<lambda>w. D (w_dbs w)) (onDb (DB_numPushRequests X a) w)"
    "holds (\<lambda>w. D (w_dbs w)) (onDb (DB_deleteRequest X q) w)"
    "holds (\<lambda>w. D (w_dbs w)) (onDb (DB_requestPending X q) w)"
    "holds (\<lambda>w. D (w_dbs w)) (onDb (DB_getRequest X q) w)"
    "holds (\<lambda>w. D (w_dbs w)) (onDb (DB_getRequests X q) w)"
    "holds (\<lambda>w. D (w_dbs w)) (onDb (DB_getContacts X q fo) w)"
    "holds (\<lambda>w. D (w_dbs w)) (onDb (DB_getInbox X ib a) w)"
  unfolding DB_newAccountId_def DB_getAccount_def DB_setFcmToken_def DB_getFcmToken_def DB_insertAccount_def
    DB_numContactRequests_def DB_numPushRequests_def DB_deleteRequest_def DB_requestPending_def
    DB_getRequest_def DB_getRequests_def DB_getContacts_def DB_getInbox_def
  by (rule onDb_op; intro holds_control laws assms; auto simp: Let_def holds_def split: list.splits option.splits if_splits)+

lemma addRequest [store_rules]:
  "D (w_dbs w) \<Longrightarrow> request_doc X doc \<Longrightarrow> holds (\<lambda>w. D (w_dbs w)) (onDb (DB_addRequest X doc) w)"
  unfolding DB_addRequest_def by (rule onDb_op; intro holds_control laws) auto

text \<open>Delivery and responses.\<close>

lemma processRequests [store_rules]: "D (w_dbs w) \<Longrightarrow> holds (\<lambda>w. D (w_dbs w)) (processRequests X sid w)"
  unfolding processRequests_def by (intro holds_control operations) (simp_all add: dbs_process_requests)

lemma setConfig [store_rules]: "D (w_dbs w) \<Longrightarrow> holds (\<lambda>w. D (w_dbs w)) (setConfig X sid config w)"
  unfolding setConfig_def Let_def by (intro holds_control operations) simp_all

lemma login_accepted [store_rules]:
  "D (w_dbs w) \<Longrightarrow> holds (\<lambda>w. D (w_dbs w)) (login_accepted X sid head n w)"
  unfolding login_accepted_def Let_def
  by (intro holds_control operations setConfig processRequests) simp_all

lemma accept_commit [store_rules]:
  "D (w_dbs w) \<Longrightarrow> holds (\<lambda>w. D (w_dbs w)) (accept_commit X sid rid cid req acc ck pk w)"
  unfolding accept_commit_def Let_def
  by (intro holds_control operations addRequest request_doc.accept) simp_all

text \<open>The check for a pending request and, if there is none, the new one.\<close>

lemma add_contact_commit:
  assumes "\<And>doc. add_contact_doc X (accountId sid w) (doc_int X ''id'' con) doc \<Longrightarrow>
      holds D (with_lock X (\<lambda>db. m_insert X db ''zway.requests'' doc) (w_dbs w))"
  shows "holds (\<lambda>w. D (w_dbs w)) (add_contact_commit X sid rid code acc con pk w)"
proof -
  have add: "holds (\<lambda>w. D (w_dbs w)) (onDb (DB_addRequest X doc) w)"
    if "add_contact_doc X (accountId sid w) (doc_int X ''id'' con) doc" for doc
    unfolding DB_addRequest_def by (rule onDb_op; intro holds_control assms that) auto
  show ?thesis
    unfolding add_contact_commit_def Let_def
    by (intro holds_control operations add add_contact_doc.add_contact) simp_all
qed

lemma pending_commit:
  assumes "D (w_dbs w)"
  shows "holds (\<lambda>w. D (w_dbs w))
    (onDb (DB_requestPending X (pending_query X (accountId sid w) (doc_int X ''id'' con))) w \<bind>
      (\<lambda>(pending, w). if pending then failure sid rid 0 msg w
        else case get_publicKey X head of
          None \<Rightarrow> failure sid rid 0 msg' w
        | Some pk \<Rightarrow> add_contact_commit X sid rid code acc con pk w))"
    (is "holds _ (onDb (DB_requestPending X ?q) w \<bind> _)")
proof (cases "with_lock X (\<lambda>db. m_count X db ''zway.requests'' ?q) (w_dbs w)")
  case (Some nd)
  then obtain n d where nd: "with_lock X (\<lambda>db. m_count X db ''zway.requests'' ?q) (w_dbs w) = Some (n, d)"
    by (cases nd) auto
  have check: "onDb (DB_requestPending X ?q) w = Some (n = Some 1, w\<lparr>w_dbs := d\<rparr>)"
    by (simp add: onDb_def DB_requestPending_def nd split: option.split)
  have "D d" using count [OF assms] nd by (auto simp: holds_def)
  moreover have "holds (\<lambda>w. D (w_dbs w)) (add_contact_commit X sid rid code acc con pk (w\<lparr>w_dbs := d\<rparr>))"
    if "n \<noteq> Some 1" for pk
    by (rule add_contact_commit) (use insert_contact [OF assms nd that] in simp)
  ultimately show ?thesis
    by (auto simp: check intro!: holds_control)
qed (simp add: onDb_def DB_requestPending_def holds_def)

lemma push_to: "D (w_dbs w) \<Longrightarrow> holds (\<lambda>w. D (w_dbs w)) (push_to X sid rid it (f, w))"
  unfolding push_to_def Let_def prod.case
  by (intro holds_control addRequest request_doc.push) simp_all

lemma push_loop [store_rules]:
  "D (w_dbs w) \<Longrightarrow> holds (\<lambda>w. D (w_dbs w)) (for_each its (push_to X sid rid) (f, w))"
proof (induction its arbitrary: f w)
  case (Cons it its)
  have "holds (\<lambda>w. D (w_dbs w)) (push_to X sid rid it (f, w))" using Cons.prems by (rule push_to)
  then show ?case
    using Cons.IH by (cases "push_to X sid rid it (f, w)") (auto simp: holds_def)
qed (simp add: holds_def)

lemmas handler_defs = processDispatchRequest_def processCreateAccount_def processLogin_def processLogout_def
  processConfigRequest_def processCreateAddCode_def processFindContactRequest_def
  processAcceptContact_def processRejectContact_def processContactStatusRequest_def processPushRequest_def

lemma handlers:
  assumes "D (w_dbs w)"
  shows "holds (\<lambda>w. D (w_dbs w)) (processDispatchRequest X sid head w)"
    "holds (\<lambda>w. D (w_dbs w)) (processCreateAccount X sid head w)"
    "holds (\<lambda>w. D (w_dbs w)) (processLogin X sid head w)"
    "holds (\<lambda>w. D (w_dbs w)) (processLogout X sid head w)"
    "holds (\<lambda>w. D (w_dbs w)) (processConfigRequest X sid head w)"
    "holds (\<lambda>w. D (w_dbs w)) (processCreateAddCode X sid head w)"
    "holds (\<lambda>w. D (w_dbs w)) (processFindContactRequest X sid head w)"
    "holds (\<lambda>w. D (w_dbs w)) (processAcceptContact X sid head w)"
    "holds (\<lambda>w. D (w_dbs w)) (processRejectContact X sid head w)"
    "holds (\<lambda>w. D (w_dbs w)) (processContactStatusRequest X sid head w)"
    "holds (\<lambda>w. D (w_dbs w)) (processPushRequest X sid head w)"
  unfolding handler_defs Let_def
  by (intro holds_control store_rules request_doc.add_code request_doc.reject; simp add: assms)+

lemma addContactRequest:
  assumes "D (w_dbs w)"
  shows "holds (\<lambda>w. D (w_dbs w)) (processAddContactRequest X sid head w)"
  unfolding processAddContactRequest_def Let_def pending_query_def [symmetric]
  by (rule pending_commit holds_control operations | simp add: assms)+

lemma incoming: "D (w_dbs w) \<Longrightarrow> holds (\<lambda>w. D (w_dbs w)) (processIncomingRequest X sid head w)"
  unfolding processIncomingRequest_def Let_def by (intro holds_if handlers addContactRequest holds_Some)

lemma holds_frame: "D (w_dbs w) \<Longrightarrow> (\<And>r w'. m = Some (r, w') \<Longrightarrow> w_dbs w' = w_dbs w) \<Longrightarrow> holds (\<lambda>w. D (w_dbs w)) m"
  by (simp add: holds_def)

lemma sendPacket: "senders_law X \<Longrightarrow> D (w_dbs w) \<Longrightarrow> holds (\<lambda>w. D (w_dbs w)) (sendPacket X t w)"
  by (auto intro: holds_frame dest: dbs_sendPacket)

lemma callback:
  assumes "senders_law X" and "callback X sid w w'" and "D (w_dbs w)"
  shows "D (w_dbs w')"
  using assms(2)
proof cases
  case (request head r)
  then show ?thesis using incoming [OF assms(3)] by (simp add: holds_def)
next
  case (response t rid head)
  have send: "holds_unit (\<lambda>w. D (w_dbs w)) (send_resource X sid i w1)" if "D (w_dbs w1)" for i w1
    unfolding send_resource_def addStreamSender_def Let_def
    by (intro holds_control holds_unit_case)
      (use that in \<open>auto simp: Let_def intro!: sendPacket [OF assms(1)] intro: holds_frame dest: dbs_BSender_create\<close>)
  have del: "holds_unit (\<lambda>w. D (w_dbs w)) (delete_on_success X sid rid head w)"
    unfolding delete_on_success_def Let_def by (intro holds_control operations) (simp_all add: assms(3))
  have push: "holds_unit (\<lambda>w. D (w_dbs w)) (push_callback X sid rid head w)"
    unfolding push_callback_def Let_def
    by (intro holds_control operations holds_for_each send) (simp_all add: assms(3))
  show ?thesis
    using response del push assms(3)
    by (cases t) (auto simp: response_def DispatchRequest_processResponse_def AddContactRequest_processResponse_def
      AcceptContactRequest_processResponse_def RejectContactRequest_processResponse_def
      PushRequest_processResponse_def run_callback_def Let_def bind_eq_Some_conv holds_unit_def split: if_splits)
next
  case (stream receiver pkt r)
  then show ?thesis using assms(3) dbs_createStreamReceiver by metis
next
  case (complete i b)
  have "holds_unit (\<lambda>w. D (w_dbs w)) (upload_complete X sid i b w)"
    unfolding upload_complete_def Let_def
    by (intro holds_control holds_unit_bind_value addRequest processRequests request_doc.dispatch)
      (simp_all add: assms(3))
  then show ?thesis using complete by (simp add: holds_unit_def)
qed (use assms(3) in simp)

lemma callbacks:
  assumes "senders_law X" and "(callback X sid)\<^sup>*\<^sup>* w w'" and "D (w_dbs w)"
  shows "D (w_dbs w')"
  using assms(2,3) by (induction rule: rtranclp_induct) (auto intro: callback [OF assms(1)])

lemma onPacketRecv:
  assumes "senders_law X" and "engine_process X sid process" and "D (w_dbs w)"
  shows "holds_unit (\<lambda>w. D (w_dbs w)) (onPacketRecv X process sid pkt w)"
proof -
  have "holds (\<lambda>w. D (w_dbs w)) (process pkt w)" if "D (w_dbs w)" for w
    using assms(2) callbacks [OF assms(1)] that unfolding engine_process_def holds_def by blast
  then show ?thesis
    unfolding onPacketRecv_def Let_def
    by (intro holds_unit_bind_unit holds_control) (use assms(3) in auto)
qed

lemma run_task:
  assumes "run_task X w = Some w'" and "D (w_dbs w)"
  shows "D (w_dbs w')"
proof -
  have serve: "holds_unit (\<lambda>w. D (w_dbs w)) (Server_processUserRequests X u w)" if "D (w_dbs w)" for u w
    unfolding Server_processUserRequests_def Let_def
    by (intro holds_control operations processRequests holds_for_each) (use that in simp_all)
  show ?thesis
  proof (cases "w_posted w")
    case (Cons u rest)
    then show ?thesis
      using assms serve [of "w\<lparr>w_posted := rest\<rparr>" u] by (simp add: run_task_def holds_unit_def)
  qed (use assms in \<open>simp add: run_task_def\<close>)
qed

lemma onTimer:
  assumes "senders_law X" and "Server_onTimer X error now w = Some (r, w')" and "D (w_dbs w)"
  shows "D (w_dbs w')"
proof (cases "error = No_error")
  case True
  have "holds_unit (\<lambda>w. D (w_dbs w)) (serve_senders X w)"
    unfolding serve_senders_def by (intro holds_for_each holds_control sendPacket assms(1)) (simp_all add: assms(3))
  then show ?thesis
    using assms(2) True by (auto simp: Server_onTimer_def bind_eq_Some_conv Let_def holds_unit_def)
qed (use assms in \<open>simp add: Server_onTimer_def\<close>)

lemma info:
  assumes "Server_info X up w = Some (msg, w')" and "D (w_dbs w)"
  shows "D (w_dbs w')"
proof -
  have "holds_unit (\<lambda>(l, w). D (w_dbs w)) (info_line X s p)" if "(\<lambda>(l, w). D (w_dbs w)) p" for s p
    using that operations(2) [of "snd p"]
    by (cases p) (auto simp: info_line_def holds_unit_def holds_def bind_pair Let_def)
  then have "holds_unit (\<lambda>(l, w). D (w_dbs w)) (for_each sids (info_line X) ([], w))" for sids
    by (intro holds_for_each) (simp_all add: assms(2))
  then show ?thesis
    using assms(1) by (fastforce simp: Server_info_def bind_pair holds_unit_def)
qed

lemma dbs_accept [simp]: "w_dbs (v_world (Server_accept v)) = w_dbs (v_world v)"
  by (simp add: Server_accept_def Let_def)

lemma console:
  assumes "console_command X throws up c v = Some v'" and "D (w_dbs (v_world v))"
  shows "D (w_dbs (v_world v'))"
proof (cases "c = CHR ''i''")
  case True
  then show ?thesis using assms info by (auto simp: console_command_def bind_pair)
next
  case False
  have "w_dbs (v_world (snd (Server_pause throws v))) = w_dbs (v_world v)"
    "w_dbs (v_world (snd (Server_resume throws v))) = w_dbs (v_world v)"
    by (auto simp: Server_pause_def Server_resume_def Let_def)
  then show ?thesis
    using assms False unfolding console_command_def by (auto split: if_split_asm)
qed

text \<open>Every step of the running server keeps the property.\<close>

lemma server_step:
  assumes "senders_law X" and "server_step X throws v v'" and "D (w_dbs (v_world v))"
  shows "D (w_dbs (v_world v'))"
  using assms(2)
proof (cases rule: server_step.cases)
  case (accept s error)
  then show ?thesis using assms(3) by (simp add: handleSession_def Let_def)
next
  case (handshake sid error endpoint w)
  then show ?thesis
    using assms(3) by (auto simp: handleHandshake_def Let_def bind_pair bind_eq_Some_conv split: if_splits)
next
  case (head sid process error n pkt w)
  then show ?thesis
    using assms(3) onPacketRecv [OF assms(1) head(3), of "resetTimer sid (v_world v)" pkt]
    by (auto simp: onPacketHeadRecv_def Let_def holds_unit_def split: if_splits)
next
  case (body sid process error data offset pkt w)
  then show ?thesis
    using assms(3) onPacketRecv [OF assms(1) body(3), of "resetTimer sid (v_world v)" "write_body offset data pkt"]
    by (auto simp: onPacketBodyRecv_def Let_def holds_unit_def split: if_splits)
next
  case (sent sid error w)
  have "holds_unit (\<lambda>w. D (w_dbs w)) (onPacketSent X error sid (v_world v))"
    unfolding onPacketSent_def Let_def by (intro holds_control sendPacket assms(1)) (simp_all add: assms(3))
  then show ?thesis using sent by (simp add: holds_unit_def)
next
  case (post sid pkt r w)
  have "holds (\<lambda>w. D (w_dbs w)) (postPacket X sid pkt (v_world v))"
    unfolding postPacket_def Let_def by (intro holds_control sendPacket assms(1)) (simp_all add: assms(3))
  then show ?thesis using post by (simp add: holds_def)
next
  case (task w)
  then show ?thesis using assms(3) run_task by simp
next
  case (tick error now r w)
  then show ?thesis using assms(3) onTimer [OF assms(1)] by simp
next
  case (command up c)
  then show ?thesis using assms(3) console by blast
qed

lemma server_run:
  assumes "senders_law X" and "(server_step X throws)\<^sup>*\<^sup>* v v'" and "D (w_dbs (v_world v))"
  shows "D (w_dbs (v_world v'))"
  using assms(2,3) by (induction rule: rtranclp_induct) (auto intro: server_step [OF assms(1)])

end

end
