(* ===== verification/Schema.thy ===== *)
theory Schema
  imports Storage
begin

text \<open>
  The shape of the stored requests and the stock of database connections, in every state
  of the running server: two instances of the contract \<open>store_invariant\<close>.
\<close>

section \<open>What the database and the builder promise\<close>

text \<open>
  Whether an operation of the driver returns or throws: reading changes no collection,
  an insert adds at most its document, a remove adds nothing, and an operation on one
  collection leaves the others alone.
\<close>

definition store_laws :: "('db, 'z) ext_scheme \<Rightarrow> ('db \<Rightarrow> string \<Rightarrow> bson_obj multiset) \<Rightarrow> bool" where
  "store_laws X docs \<longleftrightarrow>
     (\<forall>db ns q s n f. docs (snd (m_query X db ns q s n f)) = docs db) \<and>
     (\<forall>db ns q. docs (snd (m_count X db ns q)) = docs db) \<and>
     (\<forall>db ns q u c. c \<noteq> ns \<longrightarrow> docs (snd (m_update X db ns q u)) c = docs db c) \<and>
     (\<forall>db ns d c. docs (snd (m_insert X db ns d)) c \<subseteq># (if c = ns then add_mset d (docs db ns) else docs db c)) \<and>
     (\<forall>db ns q one c. docs (snd (m_remove X db ns q one)) c \<subseteq># docs db c)"

text \<open>
  The builder keeps what it has and adds nothing but an element of the given name, also
  for an element of a type the laws of \<^const>\<open>bson_laws\<close> do not cover.
\<close>

definition builder_law :: "('z) lib_scheme \<Rightarrow> bool" where
  "builder_law X \<longleftrightarrow> (\<forall>ob k b ob'. b_append X ob k b = Inr ob' \<longrightarrow>
     (\<exists>l. ob' = ob @ l \<and> fst ` set l \<subseteq> {k}))"

lemma BSON_extends:
  assumes "builder_law X"
  shows "BSON_from X ob flds = Some doc \<Longrightarrow> \<exists>l. doc = ob @ l"
proof (induction flds arbitrary: ob)
  case (Cons f flds)
  then obtain ob' where "b_append X ob (fst f) (snd f) = Inr ob'" "BSON_from X ob' flds = Some doc"
    by (cases f) (auto simp: BSON_from.simps split: sum.splits)
  moreover from this(1) obtain l where "ob' = ob @ l" using assms unfolding builder_law_def by blast
  ultimately show ?case using Cons.IH by fastforce
qed (simp add: BSON_from.simps)

lemma BSON_lookup:
  assumes "bson_laws X" and "builder_law X"
  shows "BSON_from X ob flds = Some doc \<Longrightarrow> distinct (map fst flds) \<Longrightarrow> k \<notin> fst ` set ob \<Longrightarrow>
    map_of flds k = Some b \<Longrightarrow> b \<noteq> BEOO \<Longrightarrow> map_of doc k = Some b"
proof (induction flds arbitrary: ob)
  case (Cons f flds)
  obtain k' b' where f: "f = (k', b')" by fastforce
  from Cons.prems(1) obtain ob' where ob': "b_append X ob k' b' = Inr ob'" and rest: "BSON_from X ob' flds = Some doc"
    by (auto simp: f BSON_from.simps split: sum.splits)
  obtain l where l: "ob' = ob @ l" "fst ` set l \<subseteq> {k'}" using assms(2) ob' unfolding builder_law_def by blast
  show ?case
  proof (cases "k' = k")
    case True
    with Cons.prems have "ob' = ob @ [(k, b)]" using ob' bson_lawsD(1) [OF assms(1)] by (simp add: f)
    then obtain l where "doc = ob @ (k, b) # l" using BSON_extends [OF assms(2) rest] by auto
    moreover have "map_of ob k = None" using Cons.prems(3) by (simp add: map_of_eq_None_iff)
    ultimately show ?thesis by (simp add: map_add_def)
  next
    case False
    then show ?thesis using Cons.prems l by (intro Cons.IH [OF rest]) (auto simp: f)
  qed
qed simp

section \<open>The type of a stored request\<close>

definition has_int :: "bson_obj \<Rightarrow> string \<Rightarrow> bool" where
  "has_int e k = (case map_of e k of Some (BNumberInt n) \<Rightarrow> True | _ \<Rightarrow> False)"

definition has_str :: "bson_obj \<Rightarrow> string \<Rightarrow> bool" where
  "has_str e k = (case map_of e k of Some (BString s) \<Rightarrow> True | _ \<Rightarrow> False)"

definition has_obj :: "bson_obj \<Rightarrow> string \<Rightarrow> bool" where
  "has_obj e k = (case map_of e k of Some (BObject fs) \<Rightarrow> True | _ \<Rightarrow> False)"

text \<open>The fields the readers of a request of the given type access, with their types.\<close>

fun typed_as :: "request_type \<Rightarrow> bson_obj \<Rightarrow> bool" where
  "typed_as AddContact e = (has_obj e ''publicKey'' \<and> has_str e ''addCode'')"
| "typed_as AcceptContact e = (has_int e ''dst'' \<and> has_int e ''contactRequestId'' \<and> has_obj e ''publicKey'')"
| "typed_as RejectContact e = (has_int e ''dst'' \<and> has_int e ''contactRequestId'')"
| "typed_as Push e = (has_int e ''dst'' \<and> has_obj e ''data'')"
| "typed_as Dispatch e = (has_int e ''dst'' \<and> has_int e ''dispatchType'')"
| "typed_as _ e = False"

definition request_typed :: "('db, 'z) ext_scheme \<Rightarrow> bson_obj \<Rightarrow> bool" where
  "request_typed X e \<longleftrightarrow> has_int e ''id'' \<and> has_int e ''src'' \<and>
     (\<exists>t. map_of e ''type'' = Some (BNumberInt (rt_code X t)) \<and> typed_as t e)"

definition requests_typed ::
  "('db, 'z) ext_scheme \<Rightarrow> ('db \<Rightarrow> string \<Rightarrow> bson_obj multiset) \<Rightarrow> 'db db_state \<Rightarrow> bool" where
  "requests_typed X docs d \<longleftrightarrow> (\<forall>e \<in># docs (db_mongo d) ''zway.requests''. request_typed X e)"

lemma add_contact_doc_fields:
  assumes "bson_laws X" and "builder_law X" and "add_contact_doc X src dst doc"
  shows "map_of doc ''type'' = Some (BNumberInt (rt_code X AddContact))"
    "map_of doc ''src'' = Some (BNumberInt src)" "map_of doc ''dst'' = Some (BNumberInt dst)"
    and "request_typed X doc"
proof -
  obtain rid name phone key code where doc: "BSON X
     [(''id'', BNumberInt rid), (''type'', BNumberInt (rt_code X AddContact)),
      (''time'', BNumberInt 0), (''ttl'', BNumberInt 0), (''src'', BNumberInt src), (''dst'', BNumberInt dst),
      (''name'', name), (''phone'', phone), (''publicKey'', BObject key), (''addCode'', BString code)] = Some doc"
    using assms(3) by cases
  note field = BSON_lookup [OF assms(1,2) doc]
  show fs: "map_of doc ''type'' = Some (BNumberInt (rt_code X AddContact))"
    "map_of doc ''src'' = Some (BNumberInt src)" "map_of doc ''dst'' = Some (BNumberInt dst)"
    by (rule field; simp)+
  have "map_of doc ''id'' = Some (BNumberInt rid)" "map_of doc ''publicKey'' = Some (BObject key)"
    "map_of doc ''addCode'' = Some (BString code)"
    by (rule field; simp)+
  with fs show "request_typed X doc"
    unfolding request_typed_def by (auto simp: has_int_def has_str_def has_obj_def intro!: exI [of _ AddContact])
qed

lemma request_doc_typed:
  assumes "bson_laws X" and "builder_law X" and "request_doc X doc"
  shows "request_typed X doc"
  using assms(3)
proof cases
  case (add_code rid src name phone key code)
  note field = BSON_lookup [OF assms(1,2) add_code]
  have "map_of doc ''id'' = Some (BNumberInt rid)" "map_of doc ''src'' = Some (BNumberInt src)"
    "map_of doc ''type'' = Some (BNumberInt (rt_code X AddContact))"
    "map_of doc ''publicKey'' = Some (BObject key)" "map_of doc ''addCode'' = Some (BString code)"
    by (rule field; simp)+
  then show ?thesis
    unfolding request_typed_def by (auto simp: has_int_def has_str_def has_obj_def intro!: exI [of _ AddContact])
next
  case (accept rid crid src dst name phone key)
  note field = BSON_lookup [OF assms(1,2) accept]
  have "map_of doc ''id'' = Some (BNumberInt rid)" "map_of doc ''src'' = Some (BNumberInt src)"
    "map_of doc ''type'' = Some (BNumberInt (rt_code X AcceptContact))" "map_of doc ''dst'' = Some (BNumberInt dst)"
    "map_of doc ''contactRequestId'' = Some (BNumberInt crid)" "map_of doc ''publicKey'' = Some (BObject key)"
    by (rule field; simp)+
  then show ?thesis
    unfolding request_typed_def by (auto simp: has_int_def has_str_def has_obj_def intro!: exI [of _ AcceptContact])
next
  case reject
  then show ?thesis
    unfolding request_typed_def by (auto simp: has_int_def intro!: exI [of _ RejectContact])
next
  case push
  then show ?thesis
    unfolding request_typed_def by (auto simp: has_int_def has_obj_def intro!: exI [of _ Push])
next
  case dispatch
  then show ?thesis
    unfolding request_typed_def by (auto simp: has_int_def intro!: exI [of _ Dispatch])
qed

text \<open>Whatever connection is used, the work runs on the shared database.\<close>

lemma with_lock_mongo:
  "with_lock X work d = Some (r, d') \<Longrightarrow> db_mongo d' = snd (work (db_mongo d))"
  by (auto simp: with_lock_def DB_acquire_def DB_getConnection_def Lock_unlock_def Let_def split_def bind_eq_Some_conv
    split: list.splits if_splits)

lemma with_lock_result: "with_lock X work d = Some (r, d') \<Longrightarrow> r = fst (work (db_mongo d))"
  by (auto simp: with_lock_def DB_acquire_def DB_getConnection_def Lock_unlock_def Let_def split_def bind_eq_Some_conv
    split: list.splits if_splits)

lemma requests_typed_mono:
  assumes "requests_typed X docs d"
    and "\<And>e. e \<in># docs (snd (work (db_mongo d))) ''zway.requests'' \<Longrightarrow>
      e \<in># docs (db_mongo d) ''zway.requests'' \<or> request_typed X e"
  shows "holds (requests_typed X docs) (with_lock X work d)"
  using assms with_lock_mongo [of X work d] unfolding holds_def requests_typed_def by metis

lemma schema_laws:
  assumes "bson_laws X" and "builder_law X" and laws: "store_laws X docs"
  shows "store_invariant X (requests_typed X docs)"
proof
  fix d :: "'a db_state" and doc :: bson_obj
  assume typed: "requests_typed X docs d"
  have insert: "docs (snd (m_insert X db ns a)) c \<subseteq># (if c = ns then add_mset a (docs db ns) else docs db c)" for db ns a c
    using laws unfolding store_laws_def by blast
  have remove: "docs (snd (m_remove X db ns q one)) c \<subseteq># docs db c" for db ns q one c
    using laws unfolding store_laws_def by blast
  show "holds (requests_typed X docs) (with_lock X (\<lambda>db. m_query X db ns q s n f) d)" for ns q s n f
    by (rule requests_typed_mono [OF typed]) (use laws in \<open>simp add: store_laws_def\<close>)
  show "holds (requests_typed X docs) (with_lock X (\<lambda>db. m_count X db ns q) d)" for ns q
    by (rule requests_typed_mono [OF typed]) (use laws in \<open>simp add: store_laws_def\<close>)
  show "holds (requests_typed X docs) (with_lock X (\<lambda>db. m_update X db ''zway.accounts'' q u) d)" for q u
    by (rule requests_typed_mono [OF typed]) (use laws in \<open>simp add: store_laws_def\<close>)
  show "holds (requests_typed X docs) (with_lock X (\<lambda>db. m_insert X db ''zway.accounts'' a) d)" for a
    by (rule requests_typed_mono [OF typed])
      (use mset_subset_eqD [OF insert, of _ "db_mongo d" "''zway.accounts''" a "''zway.requests''"] in simp)
  show "holds (requests_typed X docs) (with_lock X (\<lambda>db. m_insert X db ''zway.requests'' doc) d)"
    if "request_doc X doc"
    by (rule requests_typed_mono [OF typed])
      (use mset_subset_eqD [OF insert, of _ "db_mongo d" "''zway.requests''" doc "''zway.requests''"]
        request_doc_typed [OF assms(1,2) that] in auto)
  show "holds (requests_typed X docs) (with_lock X (\<lambda>db. m_insert X db ''zway.requests'' doc) d')"
    if "with_lock X (\<lambda>db. m_count X db ''zway.requests'' (pending_query X src dst)) d = Some (n, d')"
      and "add_contact_doc X src dst doc" for src dst n d'
  proof (rule requests_typed_mono)
    have "docs (db_mongo d') = docs (db_mongo d)"
      using with_lock_mongo [OF that(1)] laws by (simp add: store_laws_def)
    then show "requests_typed X docs d'" using typed by (simp add: requests_typed_def)
  qed (use mset_subset_eqD [OF insert, of _ "db_mongo d'" "''zway.requests''" doc "''zway.requests''"]
        add_contact_doc_fields(4) [OF assms(1,2) that(2)] in auto)
  show "holds (requests_typed X docs) (with_lock X (\<lambda>db. m_remove X db ''zway.requests'' q True) d)" for q
    by (rule requests_typed_mono [OF typed]) (use mset_subset_eqD [OF remove] in blast)
qed

lemma store_invariant_if: "(P \<Longrightarrow> store_invariant X D) \<Longrightarrow> store_invariant X (\<lambda>d. P \<longrightarrow> D d)"
proof (cases P)
  case False
  then show ?thesis by unfold_locales (simp_all add: holds_def)
qed simp

lemma schema_conditional:
  "store_invariant X (\<lambda>d. bson_laws X \<and> builder_law X \<and> store_laws X docs \<longrightarrow> requests_typed X docs d)"
  by (intro store_invariant_if) (elim conjE, rule schema_laws)

interpretation schema: store_invariant X
  "\<lambda>d. bson_laws X \<and> builder_law X \<and> store_laws X docs \<longrightarrow> requests_typed X docs d" for X docs
  by (rule schema_conditional)

section \<open>The connections\<close>

text \<open>Every operation puts its connection back.\<close>

lemma with_lock_stock:
  "mset (m_connections d) = C \<and> C \<noteq> {#} \<Longrightarrow>
   holds (\<lambda>d. mset (m_connections d) = C \<and> C \<noteq> {#}) (with_lock X work d)"
  by (cases "m_connections d") (auto simp: holds_def with_lock_Cons)

interpretation stock: store_invariant X "\<lambda>d. mset (m_connections d) = C \<and> C \<noteq> {#}" for X C
proof
  fix d d' :: "'a db_state" and src dst doc and n :: "uint64 option"
  assume "mset (m_connections d) = C \<and> C \<noteq> {#}"
    "with_lock X (\<lambda>db. m_count X db ''zway.requests'' (pending_query X src dst)) d = Some (n, d')"
  then have "mset (m_connections d') = C \<and> C \<noteq> {#}"
    using with_lock_stock [of d C X "\<lambda>db. m_count X db ''zway.requests'' (pending_query X src dst)"]
    by (simp add: holds_def)
  then show "holds (\<lambda>d. mset (m_connections d) = C \<and> C \<noteq> {#}) (with_lock X (\<lambda>db. m_insert X db ''zway.requests'' doc) d')"
    by (rule with_lock_stock)
qed (erule with_lock_stock)+

section \<open>In every state of the server\<close>

lemma start_dbs:
  assumes "Server_start initialized connect_throws auth prepared throws now v = (ok, v')"
  shows "db_mongo (w_dbs (v_world v')) = db_mongo (w_dbs (v_world v))"
    and "ok \<Longrightarrow> m_connections (w_dbs (v_world v')) = m_connections (w_dbs (v_world v)) @ [0..<25]"
proof -
  have q: "startup_loop connect_throws auth i n q = (True, q') \<Longrightarrow> q' = q @ [i..<i + n]" for i n q q'
  proof (induction n arbitrary: i q)
    case (Suc n)
    then have "startup_loop connect_throws auth (Suc i) n (q @ [i]) = (True, q')"
      by (auto simp: Connection_create_def split: if_splits option.splits)
    then have "q' = (q @ [i]) @ [Suc i..<Suc i + n]" by (rule Suc.IH)
    then show ?case by (simp del: upt_Suc add: upt_conv_Cons)
  qed simp
  show "db_mongo (w_dbs (v_world v')) = db_mongo (w_dbs (v_world v))"
    using assms by (auto simp: Server_start_def DB_startup_def Let_def split: prod.splits if_splits)
  show "m_connections (w_dbs (v_world v')) = m_connections (w_dbs (v_world v)) @ [0..<25]" if ok
    using assms that q [of 0 25]
    by (auto simp: Server_start_def DB_startup_def Let_def split: prod.splits if_splits)
qed

text \<open>
  C3. Every stored request has the shape its readers expect: started on a database whose
  requests are well typed, the server keeps them so, whatever clients send and whether or not
  the driver throws. Each document has an integer id and source and one of the five types
  that are delivered, with the fields of that type (the message of a push request, the public
  key and the code of a contact request, and so on), each of the right BSON type.
\<close>

theorem stored_requests_typed:
  assumes "senders_law X" and "bson_laws X" and "builder_law X" and "store_laws X docs"
    and "Server_start initialized connect_throws auth prepared throws now v\<^sub>0 = (ok, v\<^sub>1)"
    and "(server_step X throws)\<^sup>*\<^sup>* v\<^sub>1 v"
    and "\<forall>e \<in># docs (db_mongo (w_dbs (v_world v\<^sub>0))) ''zway.requests''. request_typed X e"
  shows "\<forall>e \<in># docs (db_mongo (w_dbs (v_world v))) ''zway.requests''. request_typed X e"
proof -
  have "requests_typed X docs (w_dbs (v_world v\<^sub>1))"
    using assms(7) start_dbs(1) [OF assms(5)] by (simp add: requests_typed_def)
  then show ?thesis
    using schema.server_run [OF assms(1,6), of docs] assms(2-4) by (simp add: requests_typed_def)
qed

text \<open>
  C19. The running server never loses a database connection: after a successful start, in
  every reachable state the queue holds the 25 connections opened by the start, each once,
  whatever clients, workers, timer and console do.
\<close>

theorem connections_conserved:
  assumes "senders_law X" and "m_connections (w_dbs (v_world v\<^sub>0)) = []"
    and "Server_start initialized connect_throws auth prepared throws now v\<^sub>0 = (True, v\<^sub>1)"
    and "(server_step X throws)\<^sup>*\<^sup>* v\<^sub>1 v"
  shows "mset (m_connections (w_dbs (v_world v))) = mset [0..<25]"
proof -
  have "m_connections (w_dbs (v_world v\<^sub>1)) = [0..<25]" using start_dbs(2) [OF assms(3)] assms(2) by simp
  moreover have "mset [0..<25::nat] \<noteq> {#}" unfolding mset_zero_iff by simp
  ultimately show ?thesis
    using stock.server_run [OF assms(1,4), of "mset [0..<25]"] by (simp del: mset_upt)
qed

end
