(* ===== verification/One_Pending.thy ===== *)
theory One_Pending
  imports Schema
begin

text \<open>
  A client cannot ask the same account twice: at most one contact request from one account
  to another is stored at any time. This is a third instance of the contract
  \<open>store_invariant\<close>, the one that needs the check made by \<open>processAddContactRequest\<close>. Each
  handler is one step here; two sessions of one account whose handlers overlap can both
  pass the check.
\<close>

section \<open>One pending contact request\<close>

lemma BSON_absent:
  assumes "builder_law X"
  shows "BSON_from X ob flds = Some doc \<Longrightarrow> k \<notin> fst ` set ob \<Longrightarrow> k \<notin> fst ` set flds \<Longrightarrow> map_of doc k = None"
proof (induction flds arbitrary: ob)
  case (Cons f flds)
  then obtain ob' where ob': "b_append X ob (fst f) (snd f) = Inr ob'" "BSON_from X ob' flds = Some doc"
    by (cases f) (auto simp: BSON_from.simps split: sum.splits)
  then obtain l where "ob' = ob @ l" "fst ` set l \<subseteq> {fst f}" using assms unfolding builder_law_def by blast
  then have "k \<notin> fst ` set ob'" using Cons.prems by (auto simp: image_Un)
  then show ?case using Cons.IH [OF ob'(2)] Cons.prems by simp
qed (simp add: BSON_from.simps map_of_eq_None_iff)

text \<open>A condition on an integer is not met by a document without the field.\<close>

definition absent_law :: "(bson_obj \<Rightarrow> bson_obj \<Rightarrow> bool) \<Rightarrow> bool" where
  "absent_law sat \<longleftrightarrow> (\<forall>e k n. map_of e k = None \<longrightarrow> \<not> sat [(k, BNumberInt n)] e)"

definition one_pending ::
  "('db, 'z) ext_scheme \<Rightarrow> ('db \<Rightarrow> string \<Rightarrow> bson_obj multiset) \<Rightarrow> (bson_obj \<Rightarrow> bson_obj \<Rightarrow> bool) \<Rightarrow> 'db db_state \<Rightarrow> bool" where
  "one_pending X docs sat d \<longleftrightarrow> (\<forall>src dst.
     size (filter_mset (sat (pending_query X src dst)) (docs (db_mongo d) ''zway.requests'')) \<le> 1)"

definition pending_env ::
  "('db, 'z) ext_scheme \<Rightarrow> ('db \<Rightarrow> string \<Rightarrow> bson_obj multiset) \<Rightarrow> (bson_obj \<Rightarrow> bson_obj \<Rightarrow> bool) \<Rightarrow> bool" where
  "pending_env X docs sat \<longleftrightarrow> bson_laws X \<and> builder_law X \<and> rt_laws X \<and> store_laws X docs \<and>
     mongo_laws X docs sat \<and> sat_laws sat \<and> absent_law sat"

lemma sat_pending:
  assumes "sat_laws sat"
  shows "sat (pending_query X src dst) e \<longleftrightarrow> sat [(''type'', BNumberInt (rt_code X AddContact))] e \<and>
    sat [(''src'', BNumberInt src)] e \<and> sat [(''dst'', BNumberInt dst)] e"
  by (simp only: pending_query_def sat_lawsD(2) [OF assms])

lemma one_pending_insert:
  assumes "one_pending X docs sat d"
    and "docs (snd (work (db_mongo d))) ''zway.requests'' \<subseteq># add_mset e (docs (db_mongo d) ''zway.requests'')"
    and "\<And>src dst. sat (pending_query X src dst) e \<Longrightarrow>
      filter_mset (sat (pending_query X src dst)) (docs (db_mongo d) ''zway.requests'') = {#}"
  shows "holds (one_pending X docs sat) (with_lock X work d)"
proof -
  have "size (filter_mset (sat (pending_query X src dst)) (docs (snd (work (db_mongo d))) ''zway.requests'')) \<le> 1" for src dst
  proof -
    let ?q = "pending_query X src dst" and ?D = "docs (db_mongo d) ''zway.requests''"
    have "size (filter_mset (sat ?q) (docs (snd (work (db_mongo d))) ''zway.requests'')) \<le>
        size (filter_mset (sat ?q) (add_mset e ?D))"
      by (intro size_mset_mono multiset_filter_mono assms(2))
    also have "\<dots> \<le> 1" using assms(1,3) by (auto simp: one_pending_def)
    finally show ?thesis .
  qed
  then show ?thesis
    using with_lock_mongo [of X work d] unfolding holds_def one_pending_def by metis
qed

lemma one_pending_mono:
  assumes "one_pending X docs sat d"
    and "docs (snd (work (db_mongo d))) ''zway.requests'' \<subseteq># docs (db_mongo d) ''zway.requests''"
  shows "holds (one_pending X docs sat) (with_lock X work d)"
proof -
  have "size (filter_mset (sat q) (docs (snd (work (db_mongo d))) ''zway.requests'')) \<le>
      size (filter_mset (sat q) (docs (db_mongo d) ''zway.requests''))" for q
    by (intro size_mset_mono multiset_filter_mono assms(2))
  then have "size (filter_mset (sat (pending_query X src dst)) (docs (snd (work (db_mongo d))) ''zway.requests'')) \<le> 1" for src dst
    using assms(1) order_trans unfolding one_pending_def by blast
  then show ?thesis
    using with_lock_mongo [of X work d] unfolding holds_def one_pending_def by metis
qed

text \<open>The other requests do not count: they have another type, or no recipient.\<close>

lemma request_doc_not_pending:
  assumes "pending_env X docs sat" and "request_doc X doc"
  shows "\<not> sat (pending_query X src dst) doc"
proof -
  have laws: "bson_laws X" "builder_law X" "sat_laws sat" "absent_law sat" "inj (rt_code X)"
    using assms(1) by (simp_all add: pending_env_def rt_laws_def)
  have type: ?thesis if "map_of doc ''type'' = Some (BNumberInt (rt_code X t))" "t \<noteq> AddContact" for t
  proof -
    have "sat [(''type'', BNumberInt (rt_code X AddContact))] doc = (rt_code X t = rt_code X AddContact)"
      using laws(3) that(1) unfolding sat_laws_def by blast
    then show ?thesis unfolding sat_pending [OF laws(3)] using that(2) laws(5) by (simp add: inj_eq)
  qed
  show ?thesis
    using assms(2)
  proof cases
    case (add_code rid src' name phone key code)
    have "map_of doc ''dst'' = None"
      by (rule BSON_absent [OF laws(2) add_code]) simp_all
    then have "\<not> sat [(''dst'', BNumberInt dst)] doc" using laws(4) unfolding absent_law_def by blast
    then show ?thesis unfolding sat_pending [OF laws(3)] by blast
  next
    case (accept rid crid src dst name phone key)
    have "map_of doc ''type'' = Some (BNumberInt (rt_code X AcceptContact))"
      by (rule BSON_lookup [OF laws(1,2) accept]) simp_all
    then show ?thesis by (rule type) simp
  next
    case reject
    then show ?thesis by (intro type [of RejectContact]) simp_all
  next
    case push
    then show ?thesis by (intro type [of Push]) simp_all
  next
    case dispatch
    then show ?thesis by (intro type [of Dispatch]) simp_all
  qed
qed

lemma one_pending_laws:
  assumes "pending_env X docs sat"
  shows "store_invariant X (one_pending X docs sat)"
proof
  fix d :: "'a db_state" and doc :: bson_obj
  assume one: "one_pending X docs sat d"
  have laws: "bson_laws X" "builder_law X" "store_laws X docs" "mongo_laws X docs sat" "sat_laws sat"
    using assms by (simp_all add: pending_env_def)
  have insert: "docs (snd (m_insert X db ns a)) c \<subseteq># (if c = ns then add_mset a (docs db ns) else docs db c)" for db ns a c
    using laws(3) unfolding store_laws_def by blast
  have remove: "docs (snd (m_remove X db ns q b)) c \<subseteq># docs db c" for db ns q b c
    using laws(3) unfolding store_laws_def by blast
  show "holds (one_pending X docs sat) (with_lock X (\<lambda>db. m_query X db ns q s n f) d)" for ns q s n f
    by (rule one_pending_mono [OF one]) (use laws(3) in \<open>simp add: store_laws_def\<close>)
  show "holds (one_pending X docs sat) (with_lock X (\<lambda>db. m_count X db ns q) d)" for ns q
    by (rule one_pending_mono [OF one]) (use laws(3) in \<open>simp add: store_laws_def\<close>)
  show "holds (one_pending X docs sat) (with_lock X (\<lambda>db. m_update X db ''zway.accounts'' q u) d)" for q u
    by (rule one_pending_mono [OF one]) (use laws(3) in \<open>simp add: store_laws_def\<close>)
  show "holds (one_pending X docs sat) (with_lock X (\<lambda>db. m_insert X db ''zway.accounts'' a) d)" for a
    by (rule one_pending_mono [OF one]) (use insert [of "db_mongo d" "''zway.accounts''" a "''zway.requests''"] in simp)
  show "holds (one_pending X docs sat) (with_lock X (\<lambda>db. m_remove X db ''zway.requests'' q True) d)" for q
    by (rule one_pending_mono [OF one]) (rule remove)
  show "holds (one_pending X docs sat) (with_lock X (\<lambda>db. m_insert X db ''zway.requests'' doc) d)"
    if "request_doc X doc"
    by (rule one_pending_insert [OF one, of _ doc])
      (use insert [of "db_mongo d" "''zway.requests''" doc "''zway.requests''"] request_doc_not_pending [OF assms that] in simp_all)
  show "holds (one_pending X docs sat) (with_lock X (\<lambda>db. m_insert X db ''zway.requests'' doc) d')"
    if counted: "with_lock X (\<lambda>db. m_count X db ''zway.requests'' (pending_query X src dst)) d = Some (n, d')"
      and "n \<noteq> Some 1" and doc: "add_contact_doc X src dst doc" for src dst n d'
  proof (rule one_pending_insert [of _ _ _ _ _ doc])
    let ?M = "filter_mset (sat (pending_query X src dst)) (docs (db_mongo d) ''zway.requests'')"
    have same: "docs (db_mongo d') = docs (db_mongo d)"
      using with_lock_mongo [OF counted] laws(3) by (simp add: store_laws_def)
    then show "one_pending X docs sat d'" using one by (simp add: one_pending_def)
    have "n = Some (of_nat (size ?M))"
      using with_lock_result [OF counted] laws(4) by (simp add: mongo_laws_def)
    moreover have "size ?M \<le> 1" using one by (simp add: one_pending_def)
    ultimately have "size ?M = 0" using that(2) by (cases "size ?M") auto
    then have none: "?M = {#}" by simp
    have "src' = src \<and> dst' = dst" if "sat (pending_query X src' dst') doc" for src' dst'
      using that laws(5) add_contact_doc_fields(2,3) [OF laws(1,2) doc]
      unfolding sat_pending [OF laws(5)] unfolding sat_laws_def by metis
    then show "filter_mset (sat (pending_query X src' dst')) (docs (db_mongo d') ''zway.requests'') = {#}"
      if "sat (pending_query X src' dst') doc" for src' dst'
      using that none by (simp add: same)
  qed (use insert [of "db_mongo d'" "''zway.requests''" doc "''zway.requests''"] in simp)
qed

lemma one_pending_conditional:
  "store_invariant X (\<lambda>d. pending_env X docs sat \<longrightarrow> one_pending X docs sat d)"
  by (intro store_invariant_if one_pending_laws)

interpretation one_pending: store_invariant X
  "\<lambda>d. pending_env X docs sat \<longrightarrow> one_pending X docs sat d" for X docs sat
  by (rule one_pending_conditional)


end
