(* ===== verification/Add_Code.thy ===== *)
theory Add_Code
  imports One_Pending
begin

text \<open>
  Asking for a contact, by name or with a code: what \<open>processAddContactRequest\<close> stores and
  deletes, what becomes of a code that was used, and what happens when the handlers of two
  sessions overlap.
\<close>

section \<open>The request that is stored\<close>

definition add_fields ::
  "('db, 'z) ext_scheme \<Rightarrow> uint32 \<Rightarrow> uint32 \<Rightarrow> uint32 \<Rightarrow> bson_obj \<Rightarrow> bson_obj \<Rightarrow> string \<Rightarrow> bson_obj" where
  "add_fields X rid src dst account publicKey code =
     [(''id'', BNumberInt rid), (''type'', BNumberInt (rt_code X AddContact)),
      (''time'', BNumberInt 0), (''ttl'', BNumberInt 0), (''src'', BNumberInt src), (''dst'', BNumberInt dst),
      (''name'', b_elem X account ''name''), (''phone'', b_elem X account ''phone''),
      (''publicKey'', BObject publicKey), (''addCode'', BString code)]"

abbreviation code_query :: "('db, 'z) ext_scheme \<Rightarrow> string \<Rightarrow> bson_obj" where
  "code_query X code \<equiv> [(''type'', BNumberInt (rt_code X AddContact)), (''addCode'', BString code)]"

abbreviation contact_fields :: bson_obj where
  "contact_fields \<equiv> [(''id'', BNumberInt 1), (''name'', BNumberInt 1), (''phone'', BNumberInt 1)]"

text \<open>How the contact is looked up: by the source of a request with the code, or by name.\<close>

definition contact_query ::
  "('db, 'z) ext_scheme \<Rightarrow> (bson_obj \<Rightarrow> bson_obj \<Rightarrow> bool) \<Rightarrow> bson_obj multiset \<Rightarrow> ubj \<Rightarrow> bson_obj \<Rightarrow> bool" where
  "contact_query X sat D head q \<longleftrightarrow>
     (if at_str X head ''addCode'' \<noteq> []
      then \<exists>e \<in># D. sat (code_query X (at_str X head ''addCode'')) e \<and> BSON X [(''id'', b_elem X e ''src'')] = Some q
      else q = [(''name'', BString (at_str X head ''name'')), (''findByName'', BBool True)])"

lemma reads_refl: "db_ready w \<Longrightarrow> reads docs w w"
  unfolding reads_def by (rule exI [of _ "w_dbs w"]) simp

lemma contact_lookup:
  assumes "mongo_laws X docs sat" and "db_ready w" and "code = at_str X head ''addCode''"
    and "(if code \<noteq> [] then do {
        (request, w) \<leftarrow> onDb (DB_getRequest X (code_query X code)) w;
        (case request of
           None \<Rightarrow> Some (Inl ''invalid add code'', w)
         | Some request \<Rightarrow> do {
             q \<leftarrow> BSON X [(''id'', b_elem X request ''src'')];
             Some (Inr q, w) }) }
      else if at_str X head ''name'' = [] then Some (Inl ''no label'', w)
      else Some (Inr [(''name'', BString (at_str X head ''name'')), (''findByName'', BBool True)], w)) = Some (Inr q, w')"
  shows "reads docs w w' \<and> contact_query X sat (docs (mongo w) ''zway.requests'') head q"
proof (cases "code = []")
  case True
  then show ?thesis using assms reads_refl [OF assms(2)] by (auto simp: contact_query_def split: if_splits)
next
  case False
  then obtain e where get: "onDb (DB_getRequest X (code_query X code)) w = Some (Some e, w')"
    and e: "BSON X [(''id'', b_elem X e ''src'')] = Some q"
    using assms(4) by (auto simp: bind_pair Option.bind_eq_Some_conv split: option.splits)
  show ?thesis
    using onDb_getRequest [OF assms(1,2) get] e False assms(3) by (auto simp: contact_query_def found_def)
qed

lemma add_contact_reaches:
  assumes "mongo_laws X docs sat" and "db_ready w"
    and "rid = at_int X head ''requestId''" and "code = at_str X head ''addCode''"
    and "processAddContactRequest X sid head w = Some (True, w')"
  obtains q account contact publicKey v where "reads docs w v"
    and "contact_query X sat (docs (mongo w) ''zway.requests'') head q"
    and "found sat q (docs (mongo w) ''zway.accounts'') (project (Some contact_fields)) (Some contact)"
    and "doc_int X ''id'' contact \<noteq> accountId sid w" and "get_publicKey X head = Some publicKey"
    and "add_contact_commit X sid rid code account contact publicKey v = Some (True, w')"
proof -
  note run = assms(5) [unfolded processAddContactRequest_def Let_def, folded assms(3,4)]
  have logged: "\<not> status sid w < STATUS_LOGGEDIN" using run by auto
  obtain acc w1 where w1: "onDb (DB_getAccount X (own_account_query sid w) name_and_phone) w = Some (acc, w1)"
    using run logged by (auto simp: bind_pair)
  note r1 = onDb_getAccount(1) [OF assms(1,2) w1]
  note s1 = readsD [OF r1]
  obtain account where acc: "acc = Some account" using run logged w1 by (cases acc) auto
  let ?look = "if code \<noteq> [] then do {
      (request, w) \<leftarrow> onDb (DB_getRequest X (code_query X code)) w1;
      (case request of
         None \<Rightarrow> Some (Inl ''invalid add code'', w)
       | Some request \<Rightarrow> do {
           q \<leftarrow> BSON X [(''id'', b_elem X request ''src'')];
           Some (Inr q, w) }) }
    else if at_str X head ''name'' = [] then Some (Inl ''no label'', w1)
    else Some (Inr [(''name'', BString (at_str X head ''name'')), (''findByName'', BBool True)], w1)"
  obtain cq w2 where cq: "?look = Some (cq, w2)"
    using run logged w1 acc by (cases ?look) (auto split del: if_split)
  obtain q where q: "cq = Inr q" using run logged w1 acc cq by (cases cq) (auto split del: if_split)
  have r2: "reads docs w w2" and query: "contact_query X sat (docs (mongo w) ''zway.requests'') head q"
    using contact_lookup [OF assms(1) s1(2) assms(4) cq [unfolded q]] reads_trans [OF r1] s1(1) by auto
  note s2 = readsD [OF r2]
  obtain con w3 where w3: "onDb (DB_getAccount X q contact_fields) w2 = Some (con, w3)"
    using run logged w1 acc cq q by (auto simp: bind_pair split del: if_split)
  note g3 = onDb_getAccount [OF assms(1) s2(2) w3]
  have r3: "reads docs w w3" by (rule reads_trans [OF r2 g3(1)])
  note s3 = readsD [OF r3]
  obtain contact where con: "con = Some contact"
    using run logged w1 acc cq q w3 by (cases con) (auto split del: if_split)
  have other: "doc_int X ''id'' contact \<noteq> accountId sid w"
    using run logged w1 acc cq q w3 con s3(3) by (auto split del: if_split)
  obtain pend w4 where w4: "onDb (DB_requestPending X [(''type'', BNumberInt (rt_code X AddContact)),
      (''src'', BNumberInt (accountId sid w3)), (''dst'', BNumberInt (doc_int X ''id'' contact))]) w3 = Some (pend, w4)"
    using run logged w1 acc cq q w3 con other s3(3) by (auto simp: bind_pair split del: if_split)
  have r4: "reads docs w w4" by (rule reads_trans [OF r3 onDb_requestPending(1) [OF assms(1) s3(2) w4]])
  have "\<not> pend" using run logged w1 acc cq q w3 con other s3(3) w4 by (auto split del: if_split)
  then obtain publicKey where pk: "get_publicKey X head = Some publicKey"
    using run logged w1 acc cq q w3 con other s3(3) w4 by (cases "get_publicKey X head") (auto split del: if_split)
  have "add_contact_commit X sid rid code account contact publicKey w4 = Some (True, w')"
    using run logged w1 acc cq q w3 con other s3(3) w4 \<open>\<not> pend\<close> pk by (simp split del: if_split)
  then show thesis using that [OF r4 query _ other pk] g3(2) s2(1) con by simp
qed

lemma add_contact_commit_effect:
  assumes "mongo_laws X docs sat" and "db_ready w" and "dst = doc_int X ''id'' contact"
    and "D = docs (mongo w) ''zway.requests''"
    and "add_contact_commit X sid rid code account contact publicKey w = Some (True, w')"
  obtains doc D' obj where "BSON X (add_fields X rid (accountId sid w) dst account publicKey code) = Some doc"
    and "if code = [] then D' = add_mset doc D else deleted sat [(''addCode'', BString code)] (add_mset doc D) D'"
    and "docs (mongo w') = (docs (mongo w))(''zway.requests'' := D')" and "db_ready w'"
    and "calls sid w' = calls sid w @ [PostRequestSuccess rid obj]" and "w_posted w' = w_posted w @ [dst]"
    and "\<And>t. accountId t w' = accountId t w"
proof -
  note run = assms(5) [unfolded add_contact_commit_def Let_def, folded assms(3) add_fields_def]
  obtain doc ok w1 where doc: "BSON X (add_fields X rid (accountId sid w) dst account publicKey code) = Some doc"
    and w1: "onDb (DB_addRequest X doc) w = Some (ok, w1)"
    using run by (auto simp: bind_pair Option.bind_eq_Some_conv)
  note add = onDb_addRequest [OF assms(1,2) w1]
  note same1 = writesD [OF add(2)]
  obtain w2 D' where w2: "(if code \<noteq> [] then map_option snd (onDb (DB_deleteRequest X [(''addCode'', BString code)]) w1)
       else Some w1) = Some w2"
    and D': "if code = [] then D' = add_mset doc D else deleted sat [(''addCode'', BString code)] (add_mset doc D) D'"
    and same2: "docs (mongo w2) = (docs (mongo w))(''zway.requests'' := D')" "db_ready w2"
      "w_heap w2 = w_heap w" "w_posted w2 = w_posted w"
  proof (cases "code = []")
    case True
    then show thesis using same1 assms(4) by (intro that [of w1 "add_mset doc D"]) simp_all
  next
    case False
    obtain ok' w2 where w2: "onDb (DB_deleteRequest X [(''addCode'', BString code)]) w1 = Some (ok', w2)"
      using run doc w1 add(1) False by (auto simp: Option.bind_eq_Some_conv)
    obtain D' where "deleted sat [(''addCode'', BString code)] (docs (mongo w1) ''zway.requests'') D'"
      "writes_requests docs D' w1 w2"
      using onDb_deleteRequest_inv [OF assms(1) same1(2) w2] by metis
    with writesD [OF this(2)] same1 assms(4) w2 False show thesis by (intro that [of w2 D']) simp_all
  qed
  obtain obj where "w' = post_task dst (postRequestSuccess sid rid obj w2)"
    using run doc w1 add(1) w2 by (auto split del: if_split)
  then show thesis using that [OF doc D'] same2 by simp
qed


section \<open>A code that was used\<close>

text \<open>Conditions on a string: compared with a string field, not met by an absent field.\<close>

definition string_law :: "(bson_obj \<Rightarrow> bson_obj \<Rightarrow> bool) \<Rightarrow> bool" where
  "string_law sat \<longleftrightarrow>
     (\<forall>e k s t. map_of e k = Some (BString t) \<longrightarrow> sat [(k, BString s)] e = (t = s)) \<and>
     (\<forall>e k s. map_of e k = None \<longrightarrow> \<not> sat [(k, BString s)] e)"

lemma add_fields_doc:
  "BSON X (add_fields X rid src dst account publicKey code) = Some doc \<Longrightarrow> add_contact_doc X src dst doc"
  unfolding add_fields_def by (rule add_contact_doc.add_contact)

lemma add_fields_code:
  assumes "bson_laws X" and "builder_law X"
    and "BSON X (add_fields X rid src dst account publicKey code) = Some doc"
  shows "map_of doc ''addCode'' = Some (BString code)"
  by (rule BSON_lookup [OF assms]) (simp_all add: add_fields_def)

text \<open>Of two matching documents, one is deleted.\<close>

lemma deleted_one_of_two:
  assumes "deleted sat c (add_mset doc D) D'" and "filter_mset (sat c) D = {#e#}" and "sat c doc"
  shows "D' = D \<or> filter_mset (sat c) D' = {#doc#}"
proof -
  have "\<exists>x \<in># add_mset doc D. sat c x" using assms(3) by simp
  with assms(1) have "\<exists>x \<in># add_mset doc D. sat c x \<and> D' = add_mset doc D - {#x#}"
    unfolding deleted_def by (simp only: if_True)
  then obtain x where x: "x \<in># add_mset doc D" "sat c x" "D' = add_mset doc D - {#x#}" by blast
  show ?thesis
  proof (cases "x = doc")
    case False
    then have "x \<in># filter_mset (sat c) D" using x by simp
    then show ?thesis using x assms(2,3) False by (simp add: filter_diff_mset)
  qed (simp add: x)
qed

text \<open>
  C36. A code is not used up: the request made with it carries it too. When exactly one stored
  request has the code and a client uses it with success, then either the database deletes
  the client's own new request, so that nothing was stored at all, or the code stays valid
  and from then on leads to the client who used it instead of the one who made it.
\<close>

theorem used_code_misleads:
  assumes "mongo_laws X docs sat" and "bson_laws X" and "builder_law X" and "sat_laws sat" and "string_law sat"
    and "db_ready w" and "code = at_str X head ''addCode''" and "code \<noteq> []"
    and "filter_mset (sat [(''addCode'', BString code)]) (docs (mongo w) ''zway.requests'') = {#e#}"
    and "processAddContactRequest X sid head w = Some (True, w')"
  shows "docs (mongo w') = docs (mongo w) \<or>
    (\<exists>doc d. DB_getRequest X (code_query X code) (w_dbs w') = Some (Some doc, d) \<and>
      map_of doc ''src'' = Some (BNumberInt (accountId sid w)))"
proof -
  let ?D = "docs (mongo w) ''zway.requests''" and ?c = "[(''addCode'', BString code)]"
  obtain q account contact publicKey v where v: "reads docs w v"
    and commit: "add_contact_commit X sid (at_int X head ''requestId'') code account contact publicKey v = Some (True, w')"
    using add_contact_reaches [OF assms(1,6) refl assms(7,10)] by metis
  note same = readsD [OF v]
  obtain doc D' where doc: "BSON X (add_fields X (at_int X head ''requestId'') (accountId sid w) (doc_int X ''id'' contact)
      account publicKey code) = Some doc"
    and D': "deleted sat ?c (add_mset doc ?D) D'" "docs (mongo w') = (docs (mongo w))(''zway.requests'' := D')"
    and ready: "db_ready w'"
    using add_contact_commit_effect [OF assms(1) same(2) refl refl commit] assms(8) same(1,3) by metis
  note fs = add_contact_doc_fields [OF assms(2,3) add_fields_doc [OF doc]]
  have new: "sat ?c doc" using add_fields_code [OF assms(2,3) doc] assms(5) by (simp add: string_law_def)
  then consider "D' = ?D" | "filter_mset (sat ?c) D' = {#doc#}" using deleted_one_of_two [OF D'(1) assms(9)] by blast
  then show ?thesis
  proof cases
    case 1
    then show ?thesis using D'(2) by simp
  next
    case 2
    have hits: "d \<in># D' \<and> sat ?c d \<longleftrightarrow> d = doc" for d
      using arg_cong [OF 2, of "\<lambda>M. d \<in># M"] by simp
    have query: "sat (code_query X code) d \<longleftrightarrow> sat [(''type'', BNumberInt (rt_code X AddContact))] d \<and> sat ?c d" for d
      by (rule sat_lawsD(2) [OF assms(4)])
    have "sat (code_query X code) doc" using new by (simp add: query sat_lawsD(3) [OF assms(4) fs(1)])
    moreover obtain r d where r: "DB_getRequest X (code_query X code) (w_dbs w') = Some (r, d)"
      "found sat (code_query X code) D' id r"
      using DB_getRequest_mongo [OF assms(1) ready] D'(2) by (metis fun_upd_same)
    ultimately have "r = Some (id doc)" using hits query by (intro found_unique [OF r(2)]) blast+
    then show ?thesis using r(1) fs(2) by simp
  qed
qed

section \<open>Two sessions at once\<close>

lemma add_contact_commit_pending:
  assumes "mongo_laws X docs sat" and "bson_laws X" and "builder_law X" and "sat_laws sat" and "db_ready w"
    and "q = pending_query X (accountId sid w) (doc_int X ''id'' contact)"
    and "add_contact_commit X sid rid [] account contact publicKey w = Some (True, w')"
  shows "size (filter_mset (sat q) (docs (mongo w') ''zway.requests'')) =
      Suc (size (filter_mset (sat q) (docs (mongo w) ''zway.requests'')))"
    and "db_ready w'" and "accountId t w' = accountId t w"
proof -
  obtain doc where doc: "BSON X (add_fields X rid (accountId sid w) (doc_int X ''id'' contact) account publicKey []) = Some doc"
    and D': "docs (mongo w') = (docs (mongo w))(''zway.requests'' := add_mset doc (docs (mongo w) ''zway.requests''))"
    and w': "db_ready w'" "\<And>t. accountId t w' = accountId t w"
    using add_contact_commit_effect [OF assms(1,5) refl refl assms(7)] by (metis (no_types, lifting))
  note fs = add_contact_doc_fields(1-3) [OF assms(2,3) add_fields_doc [OF doc]]
  have "sat q doc"
    by (simp add: assms(6) sat_pending [OF assms(4)] sat_lawsD(3) [OF assms(4) fs(1)]
      sat_lawsD(3) [OF assms(4) fs(2)] sat_lawsD(3) [OF assms(4) fs(3)])
  then show "size (filter_mset (sat q) (docs (mongo w') ''zway.requests'')) =
      Suc (size (filter_mset (sat q) (docs (mongo w) ''zway.requests'')))" by (simp add: D')
  show "db_ready w'" and "accountId t w' = accountId t w" using w' by simp_all
qed

text \<open>
  C37. The check for a pending request and the insertion are two critical sections. When the
  handlers of two sessions of one account run them in the order check, check, insert, insert,
  both checks pass, two requests to the same contact are stored, and from then on the check
  reports that there is none.
\<close>

theorem overlapping_contact_requests:
  assumes "mongo_laws X docs sat" and "bson_laws X" and "builder_law X" and "sat_laws sat" and "db_ready w"
    and "accountId s w = src" and "accountId t w = src" and "q = pending_query X src dst"
    and "doc_int X ''id'' con\<^sub>1 = dst" and "doc_int X ''id'' con\<^sub>2 = dst"
    and "filter_mset (sat q) (docs (mongo w) ''zway.requests'') = {#}"
    and "onDb (DB_requestPending X q) w = Some (p\<^sub>1, w\<^sub>1)"
    and "onDb (DB_requestPending X q) w\<^sub>1 = Some (p\<^sub>2, w\<^sub>2)"
    and "add_contact_commit X s rid\<^sub>1 [] acc\<^sub>1 con\<^sub>1 key\<^sub>1 w\<^sub>2 = Some (True, w\<^sub>3)"
    and "add_contact_commit X t rid\<^sub>2 [] acc\<^sub>2 con\<^sub>2 key\<^sub>2 w\<^sub>3 = Some (True, w\<^sub>4)"
  shows "\<not> p\<^sub>1 \<and> \<not> p\<^sub>2 \<and>
    size (filter_mset (sat q) (docs (mongo w\<^sub>4) ''zway.requests'')) = 2 \<and>
    (\<exists>d. DB_requestPending X q (w_dbs w\<^sub>4) = Some (False, d))"
proof -
  note laws = assms(1-4)
  note check1 = onDb_requestPending [OF assms(1,5,12)]
  note same1 = readsD [OF check1(1)]
  note check2 = onDb_requestPending [OF assms(1) same1(2) assms(13)]
  note same2 = readsD [OF check2(1)]
  have q2: "q = pending_query X (accountId s w\<^sub>2) (doc_int X ''id'' con\<^sub>1)"
    using assms(6,8,9) same1(3) same2(3) by simp
  note add1 = add_contact_commit_pending [OF laws same2(2) q2 assms(14)]
  have q3: "q = pending_query X (accountId t w\<^sub>3) (doc_int X ''id'' con\<^sub>2)"
    using assms(7,8,10) same1(3) same2(3) add1(3) [of t] by simp
  note add2 = add_contact_commit_pending [OF laws add1(2) q3 assms(15)]
  have two: "size (filter_mset (sat q) (docs (mongo w\<^sub>4) ''zway.requests'')) = 2"
    using add1(1) add2(1) same1(1) same2(1) assms(11) by simp
  have "\<not> p\<^sub>1" "\<not> p\<^sub>2" using check1(2) check2(2) same1(1) assms(11) by simp_all
  moreover obtain d where "DB_requestPending X q (w_dbs w\<^sub>4) = Some ((2 :: uint64) = 1, d)"
    using DB_requestPending_mongo [OF assms(1) add2(2), of q] two by (metis of_nat_numeral)
  ultimately show ?thesis using two by simp
qed

end
