(* ===== verification/Locks.thy ===== *)
theory Locks
  imports Prelude
begin

text \<open>
  The mutexes. The other theories take a handler, or a region under a lock, as one step;
  here the handlers of several threads are interleaved at every acquisition and release of
  a mutex, and only the order of these matters. The members of type \<open>ThreadSafe<T>\<close>
  (src/include/thread.h: a value with the mutex that \<open>boost::mutex::scoped_lock\<close> takes) and
  the two mutexes of the connection pool are the locks; every function that takes one has
  its sequence of acquisitions and releases, with the functions it calls inside of the
  region in place. Whatever calls the threads make, they never block each other for good.
\<close>

section \<open>Threads and mutexes\<close>

datatype 'l act = Acquire 'l | Release 'l

text \<open>
  A state: what each thread still has to do, and who holds each mutex. A \<open>boost::mutex\<close> is
  not recursive; a thread that acquires one it holds is stuck.
\<close>

record 'l threads =
  t_rest :: "nat \<Rightarrow> 'l act list"
  t_holder :: "'l \<Rightarrow> nat option"

inductive mutex_step :: "'l threads \<Rightarrow> 'l threads \<Rightarrow> bool" where
  acquire: "t_rest s i = Acquire l # r \<Longrightarrow> t_holder s l = None \<Longrightarrow>
    mutex_step s (s\<lparr>t_rest := (t_rest s)(i := r), t_holder := (t_holder s)(l \<mapsto> i)\<rparr>)"
| release: "t_rest s i = Release l # r \<Longrightarrow> t_holder s l = Some i \<Longrightarrow>
    mutex_step s (s\<lparr>t_rest := (t_rest s)(i := r), t_holder := (t_holder s)(l := None)\<rparr>)"

definition scoped :: "'l \<Rightarrow> 'l act list \<Rightarrow> 'l act list" where
  "scoped l body = Acquire l # body @ [Release l]"

text \<open>A sequence that is balanced, starting with the locks \<open>H\<close> held, and climbs in rank.\<close>

fun ordered :: "('l \<Rightarrow> nat) \<Rightarrow> 'l set \<Rightarrow> 'l act list \<Rightarrow> bool" where
  "ordered rank H [] = (H = {})"
| "ordered rank H (Acquire l # r) = ((\<forall>h \<in> H. rank h < rank l) \<and> ordered rank (insert l H) r)"
| "ordered rank H (Release l # r) = (l \<in> H \<and> ordered rank (H - {l}) r)"

text \<open>What fits inside of a region of a lock: a balanced sequence of locks of higher rank.\<close>

fun within :: "('l \<Rightarrow> nat) \<Rightarrow> nat \<Rightarrow> 'l set \<Rightarrow> 'l act list \<Rightarrow> bool" where
  "within rank n H [] = (H = {})"
| "within rank n H (Acquire l # r) = (n \<le> rank l \<and> (\<forall>h \<in> H. rank h < rank l) \<and> within rank n (insert l H) r)"
| "within rank n H (Release l # r) = (l \<in> H \<and> within rank n (H - {l}) r)"

lemma within_append: "within rank n H xs \<Longrightarrow> within rank n {} ys \<Longrightarrow> within rank n H (xs @ ys)"
  by (induction rank n H xs rule: within.induct) auto

lemma within_concat: "(\<And>xs. xs \<in> set xss \<Longrightarrow> within rank n {} xs) \<Longrightarrow> within rank n {} (concat xss)"
  by (induction xss) (auto intro: within_append)

lemma within_mono: "within rank m H xs \<Longrightarrow> n \<le> m \<Longrightarrow> within rank n H xs"
  by (induction rank m H xs rule: within.induct) auto

text \<open>Holding more locks, all of lower rank, does no harm.\<close>

lemma within_hold:
  "within rank n H xs \<Longrightarrow> rank l < n \<Longrightarrow> l \<notin> H \<Longrightarrow> within rank (rank l) (insert l H) (xs @ [Release l])"
proof (induction rank n H xs rule: within.induct)
  case (2 rank n H k r)
  then have lower: "rank l < rank k" "\<forall>h \<in> H. rank h < rank k" by auto
  then have "l \<noteq> k" by auto
  then have "within rank (rank l) (insert l (insert k H)) (r @ [Release l])" using 2 by auto
  then show ?case using lower by (simp add: insert_commute)
next
  case (3 rank n H k r)
  then have "within rank (rank l) (insert l (H - {k})) (r @ [Release l])" "k \<noteq> l" "k \<in> H" by auto
  then show ?case by (simp add: insert_Diff_if)
qed simp

lemma within_scoped: "within rank (Suc (rank l)) {} body \<Longrightarrow> m \<le> rank l \<Longrightarrow> within rank m {} (scoped l body)"
  unfolding scoped_def using within_hold [of rank "Suc (rank l)" "{}" body l] by (auto intro: within_mono)

lemma within_ordered: "within rank n H xs \<Longrightarrow> ordered rank H xs"
  by (induction rank n H xs rule: within.induct) auto

section \<open>Ordered locks\<close>

definition held :: "'l threads \<Rightarrow> nat \<Rightarrow> 'l set" where
  "held s i = {l. t_holder s l = Some i}"

definition lock_safe :: "('l \<Rightarrow> nat) \<Rightarrow> 'l threads \<Rightarrow> bool" where
  "lock_safe rank s \<longleftrightarrow> (\<forall>i. ordered rank (held s i) (t_rest s i)) \<and> finite {i. t_rest s i \<noteq> []}"

definition todo :: "'l threads \<Rightarrow> nat" where
  "todo s = (\<Sum>i | t_rest s i \<noteq> []. length (t_rest s i))"

lemma todo_step:
  assumes "mutex_step s s'" and "finite {i. t_rest s i \<noteq> []}"
  shows "todo s' < todo s"
proof -
  obtain i a r where s: "t_rest s i = a # r" "t_rest s' = (t_rest s)(i := r)"
    using assms(1) by cases auto
  let ?U = "{j. t_rest s j \<noteq> []}"
  have "todo s' = (\<Sum>j\<in>?U. length (t_rest s' j))"
    unfolding todo_def by (rule sum.mono_neutral_left [OF assms(2)]) (auto simp: s)
  also have "\<dots> < (\<Sum>j\<in>?U. length (t_rest s j))"
    by (rule sum_strict_mono_ex1 [OF assms(2)]) (auto simp: s intro: bexI [of _ i])
  finally show ?thesis by (simp add: todo_def)
qed

definition starting :: "(nat \<Rightarrow> 'l act list) \<Rightarrow> 'l threads" where
  "starting code = \<lparr>t_rest = code, t_holder = Map.empty\<rparr>"

locale ranked_calls =
  fixes rank :: "'l \<Rightarrow> nat" and code :: "'c \<Rightarrow> 'l act list"
  assumes climbs: "within rank 0 {} (code c)"
begin

lemma safe_start:
  assumes "finite {i. calls i \<noteq> []}"
  shows "lock_safe rank (starting (\<lambda>i. concat (map code (calls i))))"
proof -
  have "within rank 0 {} (concat (map code cs))" for cs by (rule within_concat) (auto simp: climbs)
  moreover have "{i. concat (map code (calls i)) \<noteq> []} \<subseteq> {i. calls i \<noteq> []}" by auto
  ultimately show ?thesis
    using finite_subset [OF _ assms] within_ordered
    by (simp add: lock_safe_def starting_def held_def del: concat_eq_Nil_conv) blast
qed

lemma safe_step:
  assumes "mutex_step s s'" and "lock_safe rank s"
  shows "lock_safe rank s'"
proof -
  have fin: "finite {j. ((t_rest s)(i := r)) j \<noteq> []}" for i r
    by (rule finite_subset [of _ "insert i {j. t_rest s j \<noteq> []}"]) (use assms(2) in \<open>auto simp: lock_safe_def\<close>)
  show ?thesis
    using assms(1)
  proof cases
    case (acquire i l r)
    have "held s' j = (if j = i then insert l (held s i) else held s j)" for j
      by (auto simp: held_def acquire)
    moreover have "ordered rank (held s j) (t_rest s j)" for j using assms(2) by (simp add: lock_safe_def)
    ultimately show ?thesis using acquire fin by (auto simp: lock_safe_def) (metis ordered.simps(2))
  next
    case (release i l r)
    have "held s' j = (if j = i then held s i - {l} else held s j)" for j
      by (auto simp: held_def release)
    moreover have "ordered rank (held s j) (t_rest s j)" for j using assms(2) by (simp add: lock_safe_def)
    ultimately show ?thesis using release fin by (auto simp: lock_safe_def) (metis ordered.simps(3))
  qed
qed

lemma safe_progress:
  assumes "lock_safe rank s" and "t_rest s i \<noteq> []"
  shows "\<exists>s'. mutex_step s s'"
proof (rule ccontr)
  assume stuck: "\<nexists>s'. mutex_step s s'"
  let ?U = "{i. t_rest s i \<noteq> []}"
  have ord: "ordered rank (held s j) (t_rest s j)" for j using assms(1) by (simp add: lock_safe_def)
  have wants: "\<exists>l r k. t_rest s j = Acquire l # r \<and> t_holder s l = Some k" if "j \<in> ?U" for j
  proof -
    obtain a r where ar: "t_rest s j = a # r" using \<open>j \<in> ?U\<close> by (cases "t_rest s j") auto
    show ?thesis
    proof (cases a)
      case (Acquire l)
      then show ?thesis using ar stuck mutex_step.acquire [of s j l r] by (cases "t_holder s l") auto
    next
      case (Release l)
      then have "t_holder s l = Some j" using ord [of j] ar by (simp add: held_def)
      then show ?thesis using ar Release stuck mutex_step.release [of s j l r] by blast
    qed
  qed
  define want where "want j = (case hd (t_rest s j) of Acquire l \<Rightarrow> rank l | Release l \<Rightarrow> 0)" for j
  have "finite ?U" "?U \<noteq> {}" using assms by (auto simp: lock_safe_def)
  then obtain j where j: "j \<in> ?U" and max: "\<And>k. k \<in> ?U \<Longrightarrow> want k \<le> want j"
    using finite_imageI [of ?U want] Max_in [of "want ` ?U"] Max_ge [of "want ` ?U"]
    by (metis (no_types, lifting) imageE imageI image_is_empty)
  obtain l r k where l: "t_rest s j = Acquire l # r" "t_holder s l = Some k" using wants [OF j] by blast
  have k: "k \<in> ?U" using ord [of k] l(2) by (cases "t_rest s k") (auto simp: held_def)
  obtain l' r' where l': "t_rest s k = Acquire l' # r'" using wants [OF k] by blast
  have "rank l < rank l'" using ord [of k] l(2) by (simp add: l' held_def)
  then show False using max [OF k] by (simp add: want_def l l')
qed

text \<open>Each step shortens what is left, so runs end; and they end only when all is done.\<close>

lemma completes:
  assumes "finite {i. calls i \<noteq> []}" and "mutex_step\<^sup>*\<^sup>* (starting (\<lambda>i. concat (map code (calls i)))) s"
  shows "\<exists>s'. mutex_step\<^sup>*\<^sup>* s s' \<and> (\<forall>i. t_rest s' i = [])" and "(\<nexists>s'. mutex_step s s') \<Longrightarrow> t_rest s i = []"
proof -
  have safe: "lock_safe rank s"
    using assms(2) by (induction rule: rtranclp_induct) (auto intro: safe_step safe_start [OF assms(1)])
  then show "(\<nexists>s'. mutex_step s s') \<Longrightarrow> t_rest s i = []" using safe_progress by blast
  show "\<exists>s'. mutex_step\<^sup>*\<^sup>* s s' \<and> (\<forall>i. t_rest s' i = [])"
    using safe
  proof (induction "todo s" arbitrary: s rule: less_induct)
    case less
    show ?case
    proof (cases "\<forall>i. t_rest s i = []")
      case False
      then obtain s' where step: "mutex_step s s'" using safe_progress [OF less.prems] by blast
      have "todo s' < todo s" by (rule todo_step [OF step]) (use less.prems in \<open>simp add: lock_safe_def\<close>)
      then obtain s'' where "mutex_step\<^sup>*\<^sup>* s' s''" "\<forall>i. t_rest s'' i = []"
        using less.hyps safe_step [OF step less.prems] by blast
      then show ?thesis using step by (meson converse_rtranclp_into_rtranclp)
    qed blast
  qed
qed

end

section \<open>The locks of the server\<close>

text \<open>
  Sessions and buffers are numbered. The rank says in which order locks are nested:
  the contacts of a session and the list of senders outside, then the registry, the queue of
  a session, the map of buffers, and inside the locks that are never held across a call,
  among them the pool's.
\<close>

datatype lock =
    M_status nat | M_sending nat | M_packetQueue nat | M_contacts nat
  | M_sessions | M_buffers | M_senders
  | M_bytesReadable nat | M_lastActivity nat | M_fh nat
  | DB_mutex | DB_connectionsMutex

fun lock_rank :: "lock \<Rightarrow> nat" where
  "lock_rank (M_contacts s) = 0" | "lock_rank M_senders = 0"
| "lock_rank M_sessions = 1"
| "lock_rank (M_sending s) = 2" | "lock_rank (M_packetQueue s) = 2"
| "lock_rank M_buffers = 3"
| "lock_rank (M_bytesReadable b) = 4" | "lock_rank (M_lastActivity b) = 4" | "lock_rank (M_fh b) = 4"
| "lock_rank (M_status s) = 4" | "lock_rank DB_mutex = 4"
| "lock_rank DB_connectionsMutex = 5"

text \<open>
  The connection pool. \<open>wait_for\<close> releases the mutex while it waits and takes it again;
  every method of \<open>DB\<close> acquires a connection first and unlocks it in the destructor of its
  lock object.
\<close>

definition getConnection_locks :: "lock act list" where
  "getConnection_locks = scoped DB_connectionsMutex []"

definition acquire_locks :: "bool \<Rightarrow> lock act list" where
  "acquire_locks waits = getConnection_locks @
     (if waits then scoped DB_mutex [] @ scoped DB_mutex getConnection_locks else [])"

definition unlock_locks :: "lock act list" where
  "unlock_locks = scoped DB_connectionsMutex [] @ scoped DB_mutex []"

definition db_call_locks :: "bool \<Rightarrow> lock act list" where
  "db_call_locks waits = acquire_locks waits @ unlock_locks"

text \<open>
  Buffers: \<open>release\<close>, \<open>read\<close>, \<open>write\<close> and \<open>flush\<close> of a file buffer take its handle. The last
  reference to a buffer may go away inside of a region; its destructor calls \<open>release\<close>.
\<close>

definition FileBuffer_locks :: "nat \<Rightarrow> lock act list" where
  "FileBuffer_locks b = scoped (M_fh b) []"

definition destroyed_locks :: "nat list \<Rightarrow> lock act list" where
  "destroyed_locks bs = concat (map FileBuffer_locks bs)"

definition bytesReadable_locks :: "nat \<Rightarrow> lock act list" where
  "bytesReadable_locks b = scoped (M_bytesReadable b) []"

definition lastActivity_locks :: "nat \<Rightarrow> lock act list" where
  "lastActivity_locks b = scoped (M_lastActivity b) []"

definition StreamBuffer_read_locks :: "nat \<Rightarrow> bool \<Rightarrow> bool \<Rightarrow> lock act list" where
  "StreamBuffer_read_locks b bytesToRead ok = bytesReadable_locks b @
     (if bytesToRead then FileBuffer_locks b else []) @ (if ok then scoped (M_lastActivity b) [] else [])"

definition StreamBuffer_write_locks :: "nat \<Rightarrow> bool \<Rightarrow> lock act list" where
  "StreamBuffer_write_locks b ok = bytesReadable_locks b @ FileBuffer_locks b @
     (if ok then scoped (M_bytesReadable b) [] @ scoped (M_lastActivity b) [] else [])"

text \<open>
  The server. In \<open>getStreamBuffer\<close> a buffer that cannot be loaded is destroyed at once.
\<close>

definition setStatus_locks :: "nat \<Rightarrow> lock act list" where
  "setStatus_locks s = scoped (M_status s) []"

definition registry_locks :: "lock act list" where
  "registry_locks = scoped M_sessions []"

definition close_locks :: "nat \<Rightarrow> bool \<Rightarrow> lock act list" where
  "close_locks s remove = setStatus_locks s @ (if remove then registry_locks else [])"

definition removeSessions_locks :: "nat list \<Rightarrow> nat list \<Rightarrow> lock act list" where
  "removeSessions_locks ss bs = scoped M_sessions (concat (map (\<lambda>s. close_locks s False) ss) @ destroyed_locks bs)"

definition addStreamBuffer_locks :: "lock act list" where
  "addStreamBuffer_locks = scoped M_buffers []"

definition removeStreamBuffer_locks :: "nat list \<Rightarrow> lock act list" where
  "removeStreamBuffer_locks bs = scoped M_buffers (destroyed_locks bs)"

definition getStreamBuffer_locks :: "nat list \<Rightarrow> lock act list" where
  "getStreamBuffer_locks failed = scoped M_buffers (destroyed_locks failed)"

definition numStreamBuffers_locks :: "lock act list" where
  "numStreamBuffers_locks = scoped M_buffers []"

definition addStreamBufferSender_locks :: "lock act list" where
  "addStreamBufferSender_locks = scoped M_senders []"

definition info_locks :: "bool list \<Rightarrow> lock act list" where
  "info_locks waits = scoped M_sessions (concat (map db_call_locks waits) @ numStreamBuffers_locks)"

text \<open>
  Sending. Under the lock of the packet queue the engine prepares packets: it calls
  \<open>preparePacket\<close> of the senders, which looks the buffer up, reads from buffers, and drops
  senders. Its own mutexes are not known here.
\<close>

datatype prepare = Lookup "nat list" | ReadBuffer nat bool bool | DropSender "nat list"

fun prepare_locks :: "prepare \<Rightarrow> lock act list" where
  "prepare_locks (Lookup failed) = getStreamBuffer_locks failed"
| "prepare_locks (ReadBuffer b bytesToRead ok) = StreamBuffer_read_locks b bytesToRead ok"
| "prepare_locks (DropSender bs) = destroyed_locks bs"

datatype send = Send (send_session: nat) (send_busy: bool) (send_prepares: "prepare list") (send_packet: bool)

fun sendPacket_locks :: "send \<Rightarrow> lock act list" where
  "sendPacket_locks (Send s sending prepares pkt) = scoped (M_sending s) [] @
     (if sending then []
      else scoped (M_packetQueue s) (concat (map prepare_locks prepares)) @
        (if pkt then scoped (M_sending s) [] else []))"

definition postPacket_locks :: "send \<Rightarrow> lock act list" where
  "postPacket_locks c = scoped (M_packetQueue (send_session c)) [] @ sendPacket_locks c"

definition onPacketSent_locks :: "send \<Rightarrow> lock act list" where
  "onPacketSent_locks c = scoped (M_sending (send_session c)) [] @ sendPacket_locks c"

definition onTimer_locks :: "send list \<Rightarrow> nat list \<Rightarrow> nat list \<Rightarrow> nat list \<Rightarrow> lock act list" where
  "onTimer_locks sends dropped buffers idle =
     scoped M_senders (concat (map sendPacket_locks sends) @ destroyed_locks dropped) @
     scoped M_buffers (concat (map lastActivity_locks buffers) @ destroyed_locks idle)"

text \<open>
  Contacts: the assignments of \<open>setConfig\<close>, \<open>processRequests\<close> and \<open>processAcceptContact\<close>; the
  list of states in \<open>processLogin\<close> and \<open>processContactStatusRequest\<close>, one lookup per contact;
  the broadcast, a lookup per contact to notify and, for each of its sessions, what the
  engine does when a stream is added: it may start to send.
\<close>

definition contacts_locks :: "nat \<Rightarrow> lock act list" where
  "contacts_locks s = scoped (M_contacts s) []"

definition contactStatus_locks :: "nat \<Rightarrow> nat \<Rightarrow> lock act list" where
  "contactStatus_locks s n = scoped (M_contacts s) (concat (replicate n registry_locks))"

definition broadcastStatus_locks :: "nat \<Rightarrow> send list list \<Rightarrow> lock act list" where
  "broadcastStatus_locks s rounds =
     scoped (M_contacts s) (concat (map (\<lambda>sends. registry_locks @ concat (map sendPacket_locks sends)) rounds))"

text \<open>What a thread may do: any sequence of these calls, which is what the handlers make.\<close>

datatype lock_call =
    Db_call bool | Buffer_read nat bool bool | Buffer_write nat bool | Buffer_flush nat | Buffers_destroyed "nat list"
  | Set_or_get_status nat | Registry_access | Close nat bool | Remove_sessions "nat list" "nat list"
  | Add_buffer | Remove_buffer "nat list" | Get_buffer "nat list" | Num_buffers | Add_sender | Info "bool list"
  | Send_packet send | Post_packet send | Packet_sent send | Timer "send list" "nat list" "nat list" "nat list"
  | Set_contacts nat | Contact_status nat nat | Broadcast nat "send list list"

fun locks_of :: "lock_call \<Rightarrow> lock act list" where
  "locks_of (Db_call waits) = db_call_locks waits"
| "locks_of (Buffer_read b n ok) = StreamBuffer_read_locks b n ok"
| "locks_of (Buffer_write b ok) = StreamBuffer_write_locks b ok"
| "locks_of (Buffer_flush b) = FileBuffer_locks b"
| "locks_of (Buffers_destroyed bs) = destroyed_locks bs"
| "locks_of (Set_or_get_status s) = setStatus_locks s"
| "locks_of Registry_access = registry_locks"
| "locks_of (Close s remove) = close_locks s remove"
| "locks_of (Remove_sessions ss bs) = removeSessions_locks ss bs"
| "locks_of Add_buffer = addStreamBuffer_locks"
| "locks_of (Remove_buffer bs) = removeStreamBuffer_locks bs"
| "locks_of (Get_buffer bs) = getStreamBuffer_locks bs"
| "locks_of Num_buffers = numStreamBuffers_locks"
| "locks_of Add_sender = addStreamBufferSender_locks"
| "locks_of (Info waits) = info_locks waits"
| "locks_of (Send_packet c) = sendPacket_locks c"
| "locks_of (Post_packet c) = postPacket_locks c"
| "locks_of (Packet_sent c) = onPacketSent_locks c"
| "locks_of (Timer sends dropped buffers idle) = onTimer_locks sends dropped buffers idle"
| "locks_of (Set_contacts s) = contacts_locks s"
| "locks_of (Contact_status s n) = contactStatus_locks s n"
| "locks_of (Broadcast s rounds) = broadcastStatus_locks s rounds"

section \<open>No deadlock\<close>

lemma leaf_locks [simp]:
  "n \<le> 5 \<Longrightarrow> within lock_rank n {} getConnection_locks"
  "n \<le> 4 \<Longrightarrow> within lock_rank n {} (db_call_locks waits)"
  "n \<le> 4 \<Longrightarrow> within lock_rank n {} (FileBuffer_locks b)"
  "n \<le> 4 \<Longrightarrow> within lock_rank n {} (bytesReadable_locks b)"
  "n \<le> 4 \<Longrightarrow> within lock_rank n {} (lastActivity_locks b)"
  "n \<le> 4 \<Longrightarrow> within lock_rank n {} (setStatus_locks s)"
  by (auto simp: getConnection_locks_def db_call_locks_def acquire_locks_def unlock_locks_def FileBuffer_locks_def
    bytesReadable_locks_def lastActivity_locks_def setStatus_locks_def intro!: within_append within_scoped)

lemma destroyed_within [simp]: "n \<le> 4 \<Longrightarrow> within lock_rank n {} (destroyed_locks bs)"
  unfolding destroyed_locks_def by (rule within_concat) auto

lemma buffer_locks [simp]:
  "n \<le> 4 \<Longrightarrow> within lock_rank n {} (StreamBuffer_read_locks b m ok)"
  "n \<le> 4 \<Longrightarrow> within lock_rank n {} (StreamBuffer_write_locks b ok)"
  "n \<le> 3 \<Longrightarrow> within lock_rank n {} (getStreamBuffer_locks bs)"
  "n \<le> 3 \<Longrightarrow> within lock_rank n {} (removeStreamBuffer_locks bs)"
  "n \<le> 3 \<Longrightarrow> within lock_rank n {} numStreamBuffers_locks"
  "n \<le> 3 \<Longrightarrow> within lock_rank n {} addStreamBuffer_locks"
  "n \<le> 1 \<Longrightarrow> within lock_rank n {} registry_locks"
  by (auto simp: StreamBuffer_read_locks_def StreamBuffer_write_locks_def getStreamBuffer_locks_def
    removeStreamBuffer_locks_def numStreamBuffers_locks_def addStreamBuffer_locks_def registry_locks_def
    intro!: within_append within_scoped)

lemma sendPacket_within [simp]: "n \<le> 2 \<Longrightarrow> within lock_rank n {} (sendPacket_locks c)"
proof (cases c)
  case (Send s sending prepares pkt)
  have "within lock_rank 3 {} (prepare_locks p)" for p by (cases p) auto
  then show "n \<le> 2 \<Longrightarrow> within lock_rank n {} (sendPacket_locks c)"
    by (auto simp: Send intro!: within_append within_scoped within_concat)
qed

interpretation server_locks: ranked_calls lock_rank locks_of
proof
  show "within lock_rank 0 {} (locks_of c)" for c
    by (cases c) (auto simp: close_locks_def removeSessions_locks_def info_locks_def postPacket_locks_def
      onPacketSent_locks_def onTimer_locks_def contacts_locks_def contactStatus_locks_def broadcastStatus_locks_def
      addStreamBufferSender_locks_def intro!: within_append within_scoped within_concat)
qed

text \<open>
  C20. No deadlock: any number of threads, each making any sequence of calls of the server's
  functions, interleaved at every acquisition and release of a mutex, can always be
  completed; and when no thread can go on, all are done.
\<close>

theorem no_deadlock:
  assumes "finite {i. calls i \<noteq> []}"
    and "mutex_step\<^sup>*\<^sup>* (starting (\<lambda>i. concat (map locks_of (calls i)))) s"
  shows "(\<exists>s'. mutex_step\<^sup>*\<^sup>* s s' \<and> (\<forall>i. t_rest s' i = [])) \<and>
    ((\<nexists>s'. mutex_step s s') \<longrightarrow> (\<forall>i. t_rest s i = []))"
  using server_locks.completes [OF assms] by blast

text \<open>One thread broadcasts to the session another thread is about to serve from the timer.\<close>

definition ex_threads :: "nat \<Rightarrow> lock_call list" where
  "ex_threads = (\<lambda>_. [])(0 := [Broadcast 0 [[Send 1 False [Lookup []] True]]], 1 := [Timer [Send 1 False [] False] [] [3] []])"

theorem no_deadlock_witness:
  "\<exists>s'. mutex_step\<^sup>*\<^sup>* (starting (\<lambda>i. concat (map locks_of (ex_threads i)))) s' \<and> (\<forall>i. t_rest s' i = [])"
proof -
  have "finite {i. ex_threads i \<noteq> []}" by (rule finite_subset [of _ "{0, 1}"]) (auto simp: ex_threads_def)
  from no_deadlock [OF this rtranclp.rtrancl_refl] show ?thesis by blast
qed

end
