(* ===== verification/Scenario.thy ===== *)
theory Scenario
  imports Presence Messages Add_Code Locks
begin

text \<open>
  A small concrete server: the external parameters of \<open>ex_ext\<close> completed for the stream
  buffers and senders, two accounts, three sessions and a few stored requests. The
  properties of the components are instantiated on it, which shows that their hypotheses
  can hold together.
\<close>

section \<open>The environment\<close>

definition ex_env :: "(mem_db, bytes) env" where
  "ex_env = ext.extend ex_ext
     (env.fields ex_buf (\<lambda>_. True) (\<lambda>_ _. True) (\<lambda>s. s = 0)
       (Some \<lparr>pk_streamId = 0, pk_streamType = Undefined, pk_parts = 0, pk_bodySize = 0, pk_body = None\<rparr>) 16
       (\<lambda>sid w. Some ([], w)))"

lemma ex_env_ext [simp]: "ext.truncate ex_env = ex_ext"
  by (simp add: ex_env_def ext.defs)

lemmas ex_env_defs = ex_env_def env.defs ext.defs

text \<open>The parameters on the values the scenario uses, as rewrite rules.\<close>

lemma ex_values [simp]:
  "u_at ex_env (UObject fs) k = (case map_of fs k of Some x \<Rightarrow> x | None \<Rightarrow> UNull)"
  "u_hasField ex_env (UObject fs) k = (map_of fs k \<noteq> None)"
  "u_toInt ex_env (UInt32 n) = n" "u_toInt ex_env UNull = 0"
  "u_toStr ex_env (UStr s) = s" "u_toStr ex_env UNull = []"
  "u_toBool ex_env (UInt32 n) = (n \<noteq> 0)" "u_toBool ex_env UNull = False"
  "u_toArray ex_env (UArray vs) = vs" "u_toArray ex_env UNull = []"
  "u_buffer ex_env (UBuffer bs) = Some bs"
  "b_elem ex_env e k = (case map_of e k of None \<Rightarrow> BEOO | Some b \<Rightarrow> b)"
  "b_numberInt ex_env (BNumberInt n) = n" "b_numberInt ex_env BEOO = 0"
  "b_str ex_env (BString s) = s" "b_str ex_env BEOO = []"
  "b_Obj ex_env (BObject e) = Some e" "b_Obj ex_env BEOO = None"
  "b_append ex_env ob k b = Inr (ob @ [(k, b)])"
  "u_setField ex_env = ex_setField"
  "rt_code ex_env = ex_rt_code" "e_requestPending ex_env = ex_requestPending"
  by (simp_all add: ex_env_defs ex_ext_def)

lemma ex_database [simp]:
  "m_query ex_env = ex_query" "m_insert ex_env db ns e = (True, db(ns := db ns @ [e]))"
  "m_remove ex_env db ns q True = (True, db(ns := ex_remove1 (ex_sat q) (db ns)))"
  "m_count ex_env db ns q = (Some (of_nat (length (filter (ex_sat q) (db ns)))), db)"
  by (simp_all add: ex_env_defs ex_ext_def)

lemma ex_env_ubj: "ubj_laws ex_env"
  using ex_ubj_laws by (simp add: ubj_laws_def ex_env_defs)

lemma ex_env_bson: "bson_laws ex_env"
  using ex_bson_laws by (simp add: bson_laws_def ex_env_defs)

lemma ex_env_sha: "sha_laws ex_env ex_digest"
  using ex_sha_laws by (simp add: sha_laws_def ex_env_defs)

lemma ex_env_mongo: "mongo_laws ex_env (\<lambda>db ns. mset (db ns)) ex_sat"
proof -
  have sel: "m_query ex_env = m_query ex_ext" "m_insert ex_env = m_insert ex_ext"
    "m_remove ex_env = m_remove ex_ext" "m_count ex_env = m_count ex_ext"
    by (simp_all add: ex_env_defs)
  show ?thesis using ex_mongo_laws unfolding mongo_laws_def sel .
qed

lemma ex_env_sort: "sort_law ex_env (\<lambda>db ns. mset (db ns))"
  using ex_sort_law by (simp add: sort_law_def ex_env_defs)

lemma ex_env_cursor: "cursor_law ex_env"
  using ex_cursor_law by (simp add: cursor_law_def ex_env_defs)

lemma ex_pending_snoc:
  "ex_pending t n (cs @ [c]) p = ex_pending t n [c] (ex_pending t n cs p)"
  by (induction t n cs p rule: ex_pending.induct) auto

lemma ex_env_pending: "pending_laws ex_env"
proof -
  have rt: "ex_rt_code a = ex_rt_code b \<longleftrightarrow> a = b" for a b
    using rt_codeD [OF ex_rt_laws, of a b] by (simp add: ex_ext_def)
  let ?ts = "[Dispatch, CreateAccount, Login, Logout, Config, AddContact, CreateAddCode, FindContact,
        AcceptContact, RejectContact, ContactStatus, Push]"
  have all: "t \<in> set ?ts" for t by (cases t) auto
  have pend: "ex_requestPending cs c k \<longleftrightarrow> (\<exists>r. ex_rt_code r = c \<and> ex_pending r k cs False)" for cs c k
    unfolding ex_requestPending_def list_ex_iff using all by blast
  have other: "ex_pending t n [e] p = p" if "\<not> about_requests e" for t n p e
    using that by (cases e) simp_all
  show ?thesis
    unfolding pending_laws_def
    by (auto simp: ex_env_defs ex_ext_def pend ex_pending_snoc rt other)
qed

section \<open>The state\<close>

definition ex_session :: "uint32 \<Rightarrow> uint32 \<Rightarrow> session" where
  "ex_session st a = new_session\<lparr>s_status := st, s_accountId := a,
     s_contacts := [(7, UObject [(''notifyStatus'', UInt32 1)]), (9, UObject [(''notifyStatus'', UInt32 1)])],
     s_config := UObject [(''notifyStatus'', UInt32 1)]\<rparr>"

text \<open>Session 0 is logged in as 7, session 1 as 9; session 2 has the temporary id 900.\<close>

definition ex_world :: "(mem_db, bytes) world" where
  "ex_world =
    \<lparr>w_dbs = ex_dbs,
     w_heap = (\<lambda>_. new_session)(0 := ex_session 2 7, 1 := ex_session 2 9, 2 := ex_session 1 900),
     m_sessions = [(7, [0]), (9, [1]), (900, [2])], m_numSessions = 3, m_paused = False,
     w_files = ex_files, w_sbufs = (\<lambda>_. (new_streambuffer ex_pkt)\<lparr>sb_lastActivity := 100\<rparr>), w_nextbuf = 1,
     m_buffers = [(6, 0)], w_bsenders = (\<lambda>_. \<lparr>bs_id = 6, bs_session = 0, bs_buffer = None, bs_type = Undefined,
       bs_size = 0, bs_parts = 0\<rparr>), w_nextsender = 1, m_senders = [0],
     w_posted = [], w_fcm = [], w_rand = 0\<rparr>"

lemma ex_world_simps [simp]:
  "w_dbs ex_world = ex_dbs" "w_posted ex_world = []" "w_fcm ex_world = []"
  "status 0 ex_world = 2" "status 1 ex_world = 2" "status 2 ex_world = 1"
  "accountId 0 ex_world = 7" "accountId 1 ex_world = 9" "accountId 2 ex_world = 900"
  "calls 0 ex_world = []" "calls 1 ex_world = []" "calls 2 ex_world = []"
  by (simp_all add: ex_world_def ex_session_def new_session_def)

lemma ex_sessions [simp]:
  "Server_getSessions 7 ex_world = [0]" "Server_getSessions 9 ex_world = [1]" "Server_getSessions 8 ex_world = []"
  by (simp_all add: Server_getSessions_def ex_world_def sm_find_def)

lemma ex_reg_wf: "reg_wf ex_world"
  by (auto simp: reg_wf_def ex_world_def sm_wf_def sm_find_def ex_session_def split: if_splits)

lemma ex_buffers_wf: "buffers_wf ex_world"
  by (auto simp: buffers_wf_def ex_world_def sm_wf_def sm_find_def new_streambuffer_def ex_pkt_def split: if_splits)

section \<open>Transport and stream buffers\<close>

definition ex_packet :: packet where
  "ex_packet = \<lparr>pk_streamId = 6, pk_streamType = Resource, pk_parts = 2, pk_bodySize = 3, pk_body = None\<rparr>"

theorem body_reassembled_witness:
  "\<exists>ops. deliver_body ex_env (\<lambda>p w. Some (True, w)) 0 [[1], [2, 3]] (recvPacketBody ex_env 0 ex_packet ex_world) =
      onPacketRecv ex_env (\<lambda>p w. Some (True, w)) 0 (ex_packet\<lparr>pk_body := Some [1, 2, 3]\<rparr>)
        (upd_sess 0 (\<lambda>s. s\<lparr>s_io := s_io s @ ops, s_timer := True\<rparr>) ex_world) \<and> length ops = 2"
proof -
  have "length (concat [[1], [2, 3 :: byte]]) = unat (pk_bodySize ex_packet)" by (simp add: ex_packet_def)
  from body_reassembled [OF ex_env_ubj _ _ this, of "\<lambda>p w. Some (True, w)" 0 ex_world] show ?thesis
    by (simp del: deliver_body.simps add: numeral_2_eq_2)
qed

theorem partial_head_stalls_witness:
  "onPacketHeadRecv ex_env (\<lambda>p w. Some (True, w)) No_error 5 0 ex_packet ex_world = Some ex_world"
  using partial_head_stalls [of 5 ex_env] by (simp add: ex_env_defs)

lemma ex_senders_frame: "senders_frame ex_env"
  by (simp add: senders_frame_def ex_env_defs)

definition ex_sent :: "(mem_db, bytes) world" where
  "ex_sent = snd (the (postPacket ex_env 3 (Some ex_packet) ex_world))"

lemma ex_sent_step: "send_event ex_env 3 (ex_world, 0) (ex_sent, 0)"
proof (rule send_event.post [where pkt = "Some ex_packet" and r = True])
  show "postPacket ex_env 3 (Some ex_packet) ex_world = Some (True, ex_sent)"
    by (simp add: ex_sent_def postPacket_def sendPacket_def next_packet_def Let_def ex_world_def new_session_def)
qed

theorem at_most_one_write_witness:
  "s_sending (w_heap ex_sent 3) \<longleftrightarrow> length (writes (io 3 ex_sent)) = 1"
proof -
  have "(send_event ex_env 3)\<^sup>*\<^sup>* (ex_world, 0) (ex_sent, 0)" by (rule r_into_rtranclp) (rule ex_sent_step)
  from at_most_one_write [OF ex_senders_frame this] show ?thesis by (simp add: ex_world_def)
qed

theorem evict_exactly_idle_witness:
  "sm_find (m_buffers (evict_idle 160 ex_world)) 6 = Some 0 \<and> sm_find (m_buffers (evict_idle 161 ex_world)) 6 \<noteq> Some 0"
  using evict_exactly_idle [OF ex_buffers_wf, of 160 6 0] evict_exactly_idle [OF ex_buffers_wf, of 161 6 0]
  by (simp add: ex_world_def sm_find_def)

theorem onTimer_effect_witness:
  "\<exists>w'. Server_onTimer ex_env No_error 61 (ex_world\<lparr>w_sbufs := \<lambda>_. new_streambuffer ex_pkt\<rparr>) = Some (True, w') \<and>
    m_senders w' = [] \<and> sm_find (m_buffers w') 6 = None"
proof -
  let ?w = "ex_world\<lparr>w_sbufs := \<lambda>_. new_streambuffer ex_pkt\<rparr>"
  have "serve_senders ex_env ?w = Some ?w"
    by (simp add: serve_senders_def ex_world_def ex_env_defs)
  moreover have "buffers_wf ?w"
    by (auto simp: buffers_wf_def ex_world_def sm_wf_def sm_find_def new_streambuffer_def ex_pkt_def split: if_splits)
  ultimately show ?thesis
    using onTimer_effect [of ex_env ?w ?w 61]
    by (auto simp: ex_world_def ex_env_defs sm_find_def new_streambuffer_def)
qed

section \<open>Delivery\<close>

abbreviation ex_doc50 :: bson_obj where
  "ex_doc50 \<equiv> [(''id'', BNumberInt 50), (''type'', BNumberInt 4100), (''src'', BNumberInt 9), (''dst'', BNumberInt 7)]"

lemma ex_doc50: "ex_doc50 \<in># mset (mongo ex_world ''zway.requests'')"
  "ex_sat [(''dst'', BNumberInt 7)] ex_doc50" "delivered_type ex_env (doc_int ex_env ''type'' ex_doc50)"
  by (simp_all add: ex_dbs_def ex_db_def ex_sat_def delivered_type_def)

theorem processRequests_complete_once_witness:
  "\<exists>w'. processRequests ex_env 0 ex_world = Some (True, w') \<and> request_pending ex_env 0 w' ex_doc50"
  using processRequests_complete_once [OF ex_env_mongo ex_env_pending, of ex_world 0] ex_doc50 by fastforce


theorem broadcast_exactly_once_witness:
  "\<exists>r. calls 1 (broadcastStatus ex_env 0 1 True ex_world) =
    [AddUbjSender r Request (status_message ex_env 7 1)]"
proof -
  have "sm_wf (s_contacts (w_heap ex_world 0))" "notifies ex_env (s_config (w_heap ex_world 0))"
    and c: "sm_find (s_contacts (w_heap ex_world 0)) 9 = Some (UObject [(''notifyStatus'', UInt32 1)])"
    by (simp_all add: ex_world_def ex_session_def sm_wf_def sm_find_def notifies_def ex_env_defs ex_ext_def)
  moreover have "registered 1 ex_world"
    by (rule registered_iff [OF ex_reg_wf, THEN iffD2]) (simp del: One_nat_def)
  moreover have "notifies ex_env (UObject [(''notifyStatus'', UInt32 1)])"
    by (simp add: notifies_def ex_env_defs ex_ext_def)
  ultimately show ?thesis
    using broadcast_exactly_once [OF ex_reg_wf, of 0 True ex_env 1 1] by (auto simp del: One_nat_def)
qed


theorem offline_user_notified_witness:
  "\<exists>w'. Server_processUserRequests ex_env 7 (ex_world\<lparr>m_sessions := [],
      w_dbs := \<lparr>db_mongo = ex_db(''zway.accounts'' := [[(''id'', BNumberInt 7), (''fcmToken'', BString ''t'')]]),
        m_connections = [1]\<rparr>\<rparr>) = Some w' \<and> w_fcm w' = [(''t'', 2000, 2)]"
proof -
  let ?d = "\<lparr>db_mongo = ex_db(''zway.accounts'' := [[(''id'', BNumberInt 7), (''fcmToken'', BString ''t'')]]),
        m_connections = [1]\<rparr>"
  let ?w = "ex_world\<lparr>m_sessions := [], w_dbs := ?d\<rparr>"
  have "DB_getFcmToken ex_env 7 (w_dbs ?w) = Some (''t'', ?d)"
    by (simp add: DB_getFcmToken_def with_lock_Cons ex_env_defs ex_ext_def ex_query_def ex_sat_def project_def)
  moreover have "Server_getSessions 7 ?w = []" by (simp add: Server_getSessions_def)
  moreover have "num_stored (\<lambda>db ns. mset (db ns)) ex_sat 3100 7 ?w = 0" "num_stored (\<lambda>db ns. mset (db ns)) ex_sat 4100 7 ?w = 2"
    by (simp_all add: num_stored_def ex_db_def ex_sat_def)
  ultimately show ?thesis
    using offline_user_notified [OF ex_env_mongo, of ?w 7 "''t''" ?d] by auto
qed

theorem online_user_served_witness:
  "\<exists>w'. Server_processUserRequests ex_env 7 ex_world = Some w' \<and> request_pending ex_env 0 w' ex_doc50"
  using online_user_served [OF ex_env_mongo ex_env_pending _ ex_reg_wf, of 7] ex_doc50 by fastforce

section \<open>Handlers\<close>


text \<open>Account 7 with the password \<open>[1]\<close> and an empty salt.\<close>

definition ex_login :: ubj where
  "ex_login = UObject [(''account'', UInt32 7), (''password'', UBuffer [1])]"

definition ex_account :: bson_obj where
  "ex_account = account_doc 7 ''ann'' ''1'' True True (ex_digest ([1] @ [])) []"

definition ex_account_world :: "(mem_db, bytes) world" where
  "ex_account_world = ex_world\<lparr>w_dbs := ex_dbs\<lparr>db_mongo := ex_db(''zway.accounts'' := [ex_account])\<rparr>\<rparr>"

lemma ex_account_world_wf: "reg_wf ex_account_world"
  using ex_reg_wf by (simp add: ex_account_world_def reg_wf_def)

lemma ex_login_True: "\<exists>w'. processLogin ex_env 2 ex_login ex_account_world = Some (True, w')"
proof -
  have "\<exists>w'. processLogin ex_env 2 ex_login ex_account_world =
      Some (ex_digest ([1] @ []) = ex_digest ([1] @ []), w')"
    by (rule login_stored [OF ex_env_mongo ex_sat_laws ex_env_sha ex_env_bson ex_env_ubj ex_env_cursor,
          where acc = ex_account and D = "{#}" and n = 7 and nm = "''ann''" and ph = "''1''" and fn = True and fp = True])
      (simp_all add: ex_account_world_def ex_login_def ex_account_def ex_dbs_def)
  then show ?thesis by simp
qed

theorem login_registers_witness:
  "\<exists>w'. processLogin ex_env 2 ex_login ex_account_world = Some (True, w') \<and>
    reg_wf w' \<and> status 2 w' = STATUS_LOGGEDIN \<and> 2 \<in> set (Server_getSessions 7 w')"
proof -
  obtain w' where "processLogin ex_env 2 ex_login ex_account_world = Some (True, w')"
    using ex_login_True by blast
  with login_registers [OF this ex_account_world_wf] show ?thesis by (simp add: ex_login_def)
qed

theorem create_then_login_witness:
  "\<exists>w'. processCreateAccount ex_env 2 (UObject [(''name'', UStr ''eve''), (''password'', UBuffer (replicate 32 5))])
    ex_world = Some (True, w')"
proof -
  let ?head = "UObject [(''name'', UStr ''eve''), (''password'', UBuffer (replicate 32 5))]"
  have "valid_account_request ex_env ?head (replicate 32 5)"
    by (simp add: valid_account_request_def)
  moreover have "accounts_numbered (mset (mongo ex_world ''zway.accounts''))"
    by (simp add: ex_dbs_def ex_db_def doc_id_def)
  moreover have "\<forall>e \<in># mset (mongo ex_world ''zway.accounts''). \<not> ex_sat (name_query ''eve'') e"
    by (simp add: ex_dbs_def ex_db_def ex_sat_def)
  ultimately show ?thesis
    using create_then_login [OF ex_env_mongo ex_env_sort ex_sat_laws ex_env_sha ex_env_bson ex_env_ubj ex_env_cursor,
        of ex_world 2 ?head "replicate 32 5"] by auto
qed

section \<open>Contacts\<close>

definition ex_reject :: ubj where
  "ex_reject = UObject [(''requestId'', UInt32 77), (''contactRequestId'', UInt32 50)]"

theorem reject_contact_effect_witness:
  "\<exists>w'. processRejectContact ex_env 0 ex_reject ex_world = Some (True, w') \<and> w_posted w' = [9]"
proof -
  have run: "\<exists>w'. processRejectContact ex_env 0 ex_reject ex_world = Some (True, w') \<and>
      w_posted w' = [9]"
    by (simp add: processRejectContact_def ex_reject_def Let_def onDb_def DB_getRequest_def DB_addRequest_def
        DB_deleteRequest_def ex_dbs_def with_lock_Cons ex_db_def ex_query_def ex_sat_def)
  then obtain w' where w': "processRejectContact ex_env 0 ex_reject ex_world = Some (True, w')" by blast
  have "calls 0 w' = [PostRequestSuccess 77 (UObject [])]"
    using reject_contact_effect [OF ex_env_mongo _ _ refl refl refl w'] by (auto simp: ex_reject_def)
  with run w' show ?thesis by simp
qed


theorem accept_without_key_throws_witness:
  "processAcceptContact ex_env 0 ex_reject ex_world = None"
  using accept_without_key_throws [OF ex_env_mongo ex_env_bson _ _ refl refl, of ex_world 0 ex_reject]
  by (simp add: ex_reject_def ex_dbs_def ex_db_def ex_sat_def)

definition ex_contact_world :: "(mem_db, bytes) world" where
  "ex_contact_world = ex_world\<lparr>w_dbs := ex_dbs\<lparr>db_mongo := ex_db(''zway.requests'' :=
     [[(''id'', BNumberInt 60), (''type'', BNumberInt 3100), (''src'', BNumberInt 9), (''dst'', BNumberInt 7),
       (''publicKey'', BObject [(''k'', BNumberInt 1)])]])\<rparr>\<rparr>"

definition ex_accept :: ubj where
  "ex_accept = UObject [(''requestId'', UInt32 78), (''contactRequestId'', UInt32 60), (''publicKey'', UObject [])]"

theorem accept_contact_effect_witness:
  "\<exists>w'. processAcceptContact ex_env 0 ex_accept ex_contact_world = Some (True, w') \<and> w_posted w' = [9]"
proof -
  have run: "\<exists>w'. processAcceptContact ex_env 0 ex_accept ex_contact_world = Some (True, w') \<and> w_posted w' = [9]"
    by (simp add: processAcceptContact_def ex_accept_def ex_contact_world_def Let_def onDb_def DB_getRequest_def
        DB_getAccount_def DB_addRequest_def DB_deleteRequest_def ex_dbs_def with_lock_Cons ex_db_def ex_query_def
        ex_sat_def accept_commit_def get_publicKey_def project_def BSON_from.simps)
  then obtain w' where w': "processAcceptContact ex_env 0 ex_accept ex_contact_world = Some (True, w')" by blast
  have "\<exists>obj. calls 0 w' = [PostRequestSuccess 78 obj]"
    using accept_contact_effect [OF ex_env_mongo _ refl refl refl w']
    by (auto simp: ex_accept_def ex_contact_world_def)
  with run w' show ?thesis by simp
qed

section \<open>Messages\<close>

definition ex_push :: ubj where
  "ex_push = UObject [(''requestId'', UInt32 81), (''keys'', UArray [
     UObject [(''dst'', UInt32 7), (''key'', UStr ''k7'')], UObject [(''dst'', UInt32 9), (''key'', UStr ''k9'')]])]"

definition ex_push_one :: ubj where
  "ex_push_one = UObject [(''requestId'', UInt32 82), (''keys'', UArray [
     UObject [(''dst'', UInt32 9), (''key'', UStr ''k9'')]])]"

theorem push_stores_witness:
  "\<exists>w'. processPushRequest ex_env 0 ex_push ex_world = Some (True, w') \<and> w_posted w' = [9] \<and>
     size (mset (mongo w' ''zway.requests'')) = Suc (size (mset (mongo ex_world ''zway.requests'')))"
proof -
  have rcpts: "recipients ex_env 7 (u_toArray ex_env (u_at ex_env ex_push ''keys'')) =
      [UObject [(''dst'', UInt32 9), (''key'', UStr ''k9'')]]"
    by (simp add: recipients_def ex_push_def)
  have ready: "db_ready ex_world" "status 0 ex_world \<ge> STATUS_LOGGEDIN" "7 = accountId 0 ex_world"
    by (simp_all add: ex_dbs_def)
  obtain w' datas res where w': "processPushRequest ex_env 0 ex_push ex_world = Some (True, w')"
    "list_all2 (\<lambda>it data. carries ex_env (message_field ex_env 7 ex_push it) (bsonToUbj ex_env (BObject data)))
       [UObject [(''dst'', UInt32 9), (''key'', UStr ''k9'')]] datas"
    "(\<lambda>ns. mset (mongo w' ns)) = (\<lambda>ns. mset (mongo ex_world ns))(''zway.requests'' := mset (mongo ex_world ''zway.requests'') +
      mset (map2 (\<lambda>it. push_doc ex_env (at_int ex_env ex_push ''requestId'') 7 (at_int ex_env it ''dst''))
        [UObject [(''dst'', UInt32 9), (''key'', UStr ''k9'')]] datas))"
    "w_posted w' = w_posted ex_world @ map (\<lambda>it. at_int ex_env it ''dst'') [UObject [(''dst'', UInt32 9), (''key'', UStr ''k9'')]]"
    using push_stores [OF ex_env_ubj ex_env_bson ex_env_mongo ready refl rcpts [symmetric]] by blast
  obtain data where "datas = [data]" using w'(2) by (auto simp: list_all2_Cons1)
  with w' fun_cong [OF w'(3), of "''zway.requests''"] show ?thesis
    by (intro exI [of _ w']) (simp flip: size_mset)
qed

lemma ex_env_rt: "rt_laws ex_env"
  using ex_rt_laws by (simp add: rt_laws_def ex_env_defs)

theorem message_reaches_recipient_witness:
  "\<exists>w\<^sub>1 w\<^sub>2 w\<^sub>3 msg. processPushRequest ex_env 0 ex_push_one ex_world = Some (True, w\<^sub>1) \<and> run_task ex_env w\<^sub>1 = Some w\<^sub>2 \<and>
    PostRequest Push 82 msg \<in> set (calls 1 w\<^sub>2) \<and> u_at ex_env msg ''key'' = UStr ''k9'' \<and> u_at ex_env msg ''src'' = UInt32 7 \<and>
    response ex_env 1 Push 82 (UObject [(''status'', UInt32 1)]) w\<^sub>2 = Some w\<^sub>3 \<and>
    (\<lambda>ns. mset (mongo w\<^sub>3 ns)) = (\<lambda>ns. mset (mongo ex_world ns))"
proof -
  let ?it = "UObject [(''dst'', UInt32 9), (''key'', UStr ''k9'')]"
  let ?answer = "UObject [(''status'', UInt32 1)]"
  have it: "u_toArray ex_env (u_at ex_env ex_push_one ''keys'') = [?it]" by (simp add: ex_push_one_def)
  have fresh: "\<not> e_requestPending ex_env (calls (Suc 0) ex_world) (rt_code ex_env Push) (at_int ex_env ex_push_one ''requestId'')"
    using ex_world_simps(11) by (simp add: ex_requestPending_def)
  have "\<exists>w\<^sub>1 w\<^sub>2 w\<^sub>3 msg. processPushRequest ex_env 0 ex_push_one ex_world = Some (True, w\<^sub>1) \<and> run_task ex_env w\<^sub>1 = Some w\<^sub>2 \<and>
      PostRequest Push (at_int ex_env ex_push_one ''requestId'') msg \<in> set (calls (Suc 0) w\<^sub>2) \<and>
      carries ex_env (message_field ex_env (accountId 0 ex_world) ex_push_one ?it) msg \<and>
      response ex_env (Suc 0) Push (at_int ex_env ex_push_one ''requestId'') ?answer w\<^sub>2 = Some w\<^sub>3 \<and>
      (\<lambda>ns. mset (mongo w\<^sub>3 ns)) = (\<lambda>ns. mset (mongo ex_world ns))"
    by (rule message_reaches_recipient [OF ex_env_ubj ex_env_bson ex_env_mongo ex_sat_laws ex_env_rt ex_env_pending
        _ ex_reg_wf _ _ refl refl it refl _ _ _ fresh])
      (auto simp: ex_dbs_def ex_db_def ex_sat_def ex_push_one_def)
  then obtain w\<^sub>1 w\<^sub>2 w\<^sub>3 msg where run: "processPushRequest ex_env 0 ex_push_one ex_world = Some (True, w\<^sub>1)" "run_task ex_env w\<^sub>1 = Some w\<^sub>2"
    "PostRequest Push (at_int ex_env ex_push_one ''requestId'') msg \<in> set (calls (Suc 0) w\<^sub>2)"
    "carries ex_env (message_field ex_env (accountId 0 ex_world) ex_push_one ?it) msg"
    "response ex_env (Suc 0) Push (at_int ex_env ex_push_one ''requestId'') ?answer w\<^sub>2 = Some w\<^sub>3"
    "(\<lambda>ns. mset (mongo w\<^sub>3 ns)) = (\<lambda>ns. mset (mongo ex_world ns))"
    by blast
  have "u_at ex_env msg ''key'' = UStr ''k9'' \<and> u_at ex_env msg ''src'' = UInt32 7"
    using run(4) by (simp add: carries_def message_field_def)
  with run(1-3,5,6) show ?thesis by (auto simp: ex_push_one_def)
qed

section \<open>The life of the server\<close>

text \<open>
  A server that was just constructed, one that accepts and has a task queued, and an
  acceptor whose calls succeed, but for binding a second time.
\<close>

definition ex_new_server :: "(mem_db, bytes) server" where
  "ex_new_server = \<lparr>v_world = ex_world\<lparr>w_dbs := ex_dbs\<lparr>m_connections := []\<rparr>, w_heap := (\<lambda>_. new_session),
       m_sessions := [], m_buffers := []\<rparr>,
     v_acceptor = [], v_outstanding = [], v_nextSession = 0, v_timer = False, v_startTime = 0\<rparr>"

definition ex_server :: "(mem_db, bytes) server" where
  "ex_server = \<lparr>v_world = ex_world\<lparr>w_posted := [9]\<rparr>, v_acceptor = [AccOpen, AccSetOption, AccBind, AccListen, AsyncAccept 3],
     v_outstanding = [3], v_nextSession = 4, v_timer = True, v_startTime = 0\<rparr>"

definition never :: "acceptor_call list \<Rightarrow> acceptor_call \<Rightarrow> bool" where
  "never tr c = False"

definition bind_fails :: "acceptor_call list \<Rightarrow> acceptor_call \<Rightarrow> bool" where
  "bind_fails tr c \<longleftrightarrow> c = AccBind \<or> c = AccOpen \<and> AccOpen \<in> since_close tr"

abbreviation ex_start :: "bool \<times> (mem_db, bytes) server" where
  "ex_start \<equiv> Server_start True (\<lambda>_. False) (\<lambda>_. True) True never 0 ex_new_server"

lemma ex_start_ok: "ex_start = (True, snd ex_start)" "v_outstanding (snd ex_start) = [0]"
  "m_paused (v_world (snd ex_start)) = False"
  by (simp_all add: Server_start_def DB_startup_def startup_loop_ok never_def Server_accept_def Let_def
      ex_new_server_def ex_world_def)

theorem console_ends_on_e_witness:
  "console ex_env never (\<lambda>_. 0) (\<lambda>k. if k = Suc 0 then CHR ''e'' else CHR ''p'') (\<lambda>_ v. v) 0 ex_server =
     Some (snd (Server_pause never ex_server)) \<and>
   console ex_env never (\<lambda>_. 0) (\<lambda>k. CHR 0xFF) (\<lambda>_ v. v) 0 ex_server = None"
proof
  have "\<not> m_paused (v_world ex_server)" by (simp add: ex_server_def ex_world_def)
  then show "console ex_env never (\<lambda>_. 0) (\<lambda>k. if k = Suc 0 then CHR ''e'' else CHR ''p'') (\<lambda>_ v. v) 0 ex_server =
     Some (snd (Server_pause never ex_server))"
    using console_ends_on_e [of "Suc 0" "\<lambda>k. if k = Suc 0 then CHR ''e'' else CHR ''p''" ex_env never "\<lambda>_. 0" "\<lambda>_ v. v" ex_server]
    by (simp add: console_command_def)
  show "console ex_env never (\<lambda>_. 0) (\<lambda>k. CHR 0xFF) (\<lambda>_ v. v) 0 ex_server = None"
    using console_ends_on_e [of 0 "\<lambda>k. CHR 0xFF" ex_env never "\<lambda>_. 0" "\<lambda>_ v. v" ex_server] by simp
qed


theorem accept_failure_stops_witness:
  "v_outstanding (handleSession ex_env (Other_error 24) 3 (finished 3 ex_server)) = []"
  by (rule accept_failure_stops [OF _ refl rtranclp.rtrancl_refl [of "accept_event ex_env never"], of ex_server])
    (simp_all add: ex_server_def opens_def handleSession_def)

theorem failed_resume_is_final_witness:
  "m_paused (v_world (snd (Server_resume bind_fails (snd (Server_resume bind_fails (snd (Server_pause bind_fails ex_server)))))))"
proof (rule failed_resume_is_final [where v = "snd (Server_pause bind_fails ex_server)" and throws = bind_fails and X = ex_env])
  let ?v = "snd (Server_resume bind_fails (snd (Server_pause bind_fails ex_server)))"
  show "(accept_event ex_env bind_fails)\<^sup>*\<^sup>* ?v (snd (Server_resume bind_fails ?v))"
    by (rule r_into_rtranclp, rule resumed)
qed (simp_all add: bind_fails_def Server_pause_def ex_server_def ex_world_def since_close_def)

text \<open>A task that is queued when the server is closed never ends.\<close>

lemma ex_stranded_task: "main_shutdown ex_env False ex_server = None"
  using stranded_task [of ex_server ex_env]
  by (simp add: main_shutdown_def ex_server_def ex_env_defs ex_ext_def Server_close_def Let_def)

lemma ex_senders_law: "senders_law ex_env"
  by (simp add: senders_law_def ex_env_defs)

theorem server_invariant_witness:
  "let w = v_world (handleSession ex_env No_error 0 (finished 0 (snd ex_start))) in
   \<forall>a. distinct (Server_getSessions a w) \<and> (0 \<in> set (Server_getSessions a w) \<longrightarrow> accountId 0 w = a)"
proof -
  let ?v = "handleSession ex_env No_error 0 (finished 0 (snd ex_start))"
  have fresh: "fresh_server ex_new_server" by (simp add: fresh_server_def ex_new_server_def)
  have "(server_step ex_env never)\<^sup>*\<^sup>* (snd ex_start) ?v"
    by (rule r_into_rtranclp, rule server_step.accept) (simp add: ex_start_ok(2))
  from server_invariant [OF ex_senders_law fresh ex_start_ok(1) this refl] show ?thesis
    by (simp add: Let_def)
qed


theorem main_shuts_down_witness:
  "let opts = \<lparr>o_parsed = True, o_help = False, o_address = Some ''0.0.0.0'', o_numWorkers = 20, o_daemon = False\<rparr> in
   \<exists>v. main ex_env opts (0, 0, 0) (Server_start True (\<lambda>_. False) (\<lambda>_. True) True never 0)
      (console ex_env never (\<lambda>_. 0) (\<lambda>k. CHR ''e'') (\<lambda>_ v. v) 0) Some ex_new_server = Some (Returned 0, 20, v) \<and>
     m_connections (w_dbs (v_world v)) = [] \<and> last (v_acceptor v) = AccClose"
proof -
  let ?opts = "\<lparr>o_parsed = True, o_help = False, o_address = Some ''0.0.0.0'', o_numWorkers = 20, o_daemon = False\<rparr>"
  obtain v where v: "ex_start = (True, v)" using ex_start_ok(1) by blast
  have idle: "w_posted (v_world (Server_close v)) = []"
    using v by (auto simp: Server_start_def DB_startup_def startup_loop_ok never_def Server_accept_def Server_close_def Let_def
        ex_new_server_def)
  have "main ex_env ?opts (0, 0, 0) (Server_start True (\<lambda>_. False) (\<lambda>_. True) True never 0)
      (console ex_env never (\<lambda>_. 0) (\<lambda>k. CHR ''e'') (\<lambda>_ v. v) 0) Some ex_new_server =
      Some (Returned 0, 20, Server_close v)"
    using idle by (simp add: main_def main_shutdown_def v console.simps create_workers_count Let_def)
  moreover have "m_waited ex_env [] = []" by (simp add: ex_env_defs ex_ext_def)
  ultimately show ?thesis using main_shuts_down by (fastforce simp: Let_def)
qed

section \<open>The database of the server\<close>

lemma ex_env_builder: "builder_law ex_env"
  by (simp add: builder_law_def)

lemma ex_remove1_subset: "mset (ex_remove1 P ds) \<subseteq># mset ds"
  by (induction ds) (auto intro: subset_mset.trans)

lemma ex_env_store: "store_laws ex_env (\<lambda>db ns. mset (db ns))"
proof -
  have "m_update ex_env = ex_update" "m_remove ex_env db ns q False = (True, db(ns := filter (\<lambda>d. \<not> ex_sat q d) (db ns)))"
    for db ns q by (simp_all add: ex_env_defs ex_ext_def)
  then have "mset (snd (m_remove ex_env db ns q one) c) \<subseteq># mset (db c)" for db ns q one c
    by (cases one) (auto simp: ex_remove1_subset multiset_filter_subset)
  then show ?thesis
    by (simp add: store_laws_def ex_query_def ex_update_def Let_def \<open>m_update ex_env = ex_update\<close>)
qed

definition ex_typed_server :: "(mem_db, bytes) server" where
  "ex_typed_server = ex_new_server\<lparr>v_world := (v_world ex_new_server)\<lparr>w_dbs :=
     \<lparr>db_mongo = ex_db(''zway.requests'' := [[(''id'', BNumberInt 50), (''type'', BNumberInt 4100),
        (''src'', BNumberInt 9), (''dst'', BNumberInt 7), (''data'', BObject [])],
        [(''id'', BNumberInt 52), (''type'', BNumberInt 3100), (''src'', BNumberInt 9), (''dst'', BNumberInt 7),
         (''publicKey'', BObject []), (''addCode'', BString [])]]), m_connections = []\<rparr>\<rparr>\<rparr>"

abbreviation ex_typed_start :: "bool \<times> (mem_db, bytes) server" where
  "ex_typed_start \<equiv> Server_start True (\<lambda>_. False) (\<lambda>_. True) True never 0 ex_typed_server"

lemma ex_typed_start_ok: "ex_typed_start = (True, snd ex_typed_start)" "v_outstanding (snd ex_typed_start) = [0]"
  by (simp_all add: Server_start_def DB_startup_def startup_loop_ok never_def Server_accept_def Let_def
      ex_typed_server_def ex_new_server_def)

lemma ex_typed_run:
  "(server_step ex_env never)\<^sup>*\<^sup>* (snd ex_typed_start) (handleSession ex_env No_error 0 (finished 0 (snd ex_typed_start)))"
  by (rule r_into_rtranclp, rule server_step.accept) (simp add: ex_typed_start_ok(2))

theorem stored_requests_typed_witness:
  "list_all (request_typed ex_env)
     (db_mongo (w_dbs (v_world (handleSession ex_env No_error 0 (finished 0 (snd ex_typed_start))))) ''zway.requests'')"
proof -
  have "\<exists>t. 4100 = ex_rt_code t \<and> typed_as t [(''id'', BNumberInt 50), (''type'', BNumberInt 4100),
        (''src'', BNumberInt 9), (''dst'', BNumberInt 7), (''data'', BObject [])]"
    by (rule exI [of _ Push]) (simp add: has_int_def has_obj_def)
  moreover have "\<exists>t. 3100 = ex_rt_code t \<and> typed_as t [(''id'', BNumberInt 52), (''type'', BNumberInt 3100),
        (''src'', BNumberInt 9), (''dst'', BNumberInt 7), (''publicKey'', BObject []), (''addCode'', BString [])]"
    by (rule exI [of _ AddContact]) (simp add: has_str_def has_obj_def)
  ultimately have "\<forall>e \<in># mset (db_mongo (w_dbs (v_world ex_typed_server)) ''zway.requests''). request_typed ex_env e"
    by (simp add: ex_typed_server_def request_typed_def has_int_def)
  from stored_requests_typed [OF ex_senders_law ex_env_bson ex_env_builder ex_env_store ex_typed_start_ok(1) ex_typed_run this]
  show ?thesis by (simp add: list_all_iff)
qed

theorem connections_conserved_witness:
  "mset (m_connections (w_dbs (v_world (handleSession ex_env No_error 0 (finished 0 (snd ex_typed_start)))))) = mset [0..<25]"
  by (rule connections_conserved [OF ex_senders_law _ ex_typed_start_ok(1) ex_typed_run]) (simp add: ex_typed_server_def)


lemma ex_absent: "absent_law ex_sat"
  by (simp add: absent_law_def ex_sat_def)


section \<open>Asking for a contact\<close>

text \<open>Account 9 made the code \<open>AB\<close>; account 7 uses it.\<close>

definition ex_code_world :: "(mem_db, bytes) world" where
  "ex_code_world = ex_world\<lparr>w_dbs := ex_dbs\<lparr>db_mongo := ex_db(''zway.requests'' :=
     [[(''id'', BNumberInt 60), (''type'', BNumberInt 3100), (''src'', BNumberInt 9), (''addCode'', BString ''AB'')]])\<rparr>\<rparr>"

definition ex_use_code :: ubj where
  "ex_use_code = UObject [(''requestId'', UInt32 79), (''addCode'', UStr ''AB''), (''publicKey'', UObject [])]"

lemmas ex_add_contact_defs = Let_def onDb_def DB_getRequest_def DB_getAccount_def DB_addRequest_def DB_deleteRequest_def
  DB_requestPending_def ex_dbs_def with_lock_Cons ex_db_def ex_query_def ex_sat_def add_contact_commit_def
  get_publicKey_def project_def BSON_from.simps

lemma ex_use_code_run:
  "\<exists>w'. processAddContactRequest ex_env 0 ex_use_code ex_code_world = Some (True, w') \<and> w_posted w' = [9] \<and>
    length (mongo w' ''zway.requests'') = 1 \<and> map_of (hd (mongo w' ''zway.requests'')) ''id'' = Some (BNumberInt 79)"
  by (simp add: processAddContactRequest_def ex_use_code_def ex_code_world_def ex_add_contact_defs)

lemma ex_string_law: "string_law ex_sat"
  by (auto simp: string_law_def ex_sat_def)


theorem used_code_misleads_witness:
  "\<exists>w' doc d. processAddContactRequest ex_env 0 ex_use_code ex_code_world = Some (True, w') \<and>
    DB_getRequest ex_env (code_query ex_env ''AB'') (w_dbs w') = Some (Some doc, d) \<and>
    map_of doc ''src'' = Some (BNumberInt 7)"
proof -
  obtain w' where w': "processAddContactRequest ex_env 0 ex_use_code ex_code_world = Some (True, w')"
    and new: "length (mongo w' ''zway.requests'') = 1" "map_of (hd (mongo w' ''zway.requests'')) ''id'' = Some (BNumberInt 79)"
    using ex_use_code_run by blast
  have "(\<lambda>ns. mset (mongo w' ns)) \<noteq> (\<lambda>ns. mset (mongo ex_code_world ns))"
  proof
    assume "(\<lambda>ns. mset (mongo w' ns)) = (\<lambda>ns. mset (mongo ex_code_world ns))"
    from fun_cong [OF this, of "''zway.requests''"] new show False
      by (auto simp: ex_code_world_def length_Suc_conv)
  qed
  then show ?thesis
    using used_code_misleads [OF ex_env_mongo ex_env_bson ex_env_builder ex_sat_laws ex_string_law _ refl _ _ w',
        of "[(''id'', BNumberInt 60), (''type'', BNumberInt 3100), (''src'', BNumberInt 9), (''addCode'', BString ''AB'')]"] w'
    by (auto simp: ex_use_code_def ex_code_world_def ex_dbs_def ex_sat_def)
qed

text \<open>Two sessions of account 7 ask for account 9.\<close>

definition ex_two_sessions :: "(mem_db, bytes) world" where
  "ex_two_sessions = ex_world\<lparr>w_heap := (w_heap ex_world)(1 := ex_session 2 7),
     w_dbs := ex_dbs\<lparr>db_mongo := ex_db(''zway.requests'' := [])\<rparr>\<rparr>"

abbreviation ex_add :: "nat \<Rightarrow> uint32 \<Rightarrow> (mem_db, bytes) world \<Rightarrow> (bool \<times> (mem_db, bytes) world) option" where
  "ex_add sid rid \<equiv> add_contact_commit ex_env sid rid [] [(''name'', BString ''ann''), (''phone'', BString ''1'')] [(''id'', BNumberInt 9)] []"

lemma ex_add_succeeds:
  assumes "db_ready w"
  shows "\<exists>w'. ex_add sid rid w = Some (True, w') \<and> db_ready w'"
proof -
  let ?e = "add_fields ex_env rid (accountId sid w) 9 [(''name'', BString ''ann''), (''phone'', BString ''1'')] [] []"
  obtain d where "DB_addRequest ex_env ?e (w_dbs w) = Some (True, d)" "m_connections d \<noteq> []"
    using DB_addRequest_mongo [OF ex_env_mongo assms, of ?e] by blast
  then show ?thesis
    by (simp add: add_contact_commit_def BSON_from.simps add_fields_def onDb_def)
qed

theorem overlapping_contact_requests_witness:
  "\<exists>w\<^sub>1 w\<^sub>2 w\<^sub>3 w\<^sub>4 d. onDb (DB_requestPending ex_env (pending_query ex_env 7 9)) ex_two_sessions = Some (False, w\<^sub>1) \<and>
    onDb (DB_requestPending ex_env (pending_query ex_env 7 9)) w\<^sub>1 = Some (False, w\<^sub>2) \<and>
    ex_add 0 90 w\<^sub>2 = Some (True, w\<^sub>3) \<and> ex_add 1 91 w\<^sub>3 = Some (True, w\<^sub>4) \<and>
    DB_requestPending ex_env (pending_query ex_env 7 9) (w_dbs w\<^sub>4) = Some (False, d)"
proof -
  let ?q = "pending_query ex_env 7 9"
  obtain p\<^sub>1 w\<^sub>1 p\<^sub>2 w\<^sub>2 where checks: "onDb (DB_requestPending ex_env ?q) ex_two_sessions = Some (p\<^sub>1, w\<^sub>1)"
    "onDb (DB_requestPending ex_env ?q) w\<^sub>1 = Some (p\<^sub>2, w\<^sub>2)" "db_ready w\<^sub>2"
    by (auto simp: ex_two_sessions_def ex_add_contact_defs)
  obtain w\<^sub>3 w\<^sub>4 where adds: "ex_add 0 90 w\<^sub>2 = Some (True, w\<^sub>3)" "ex_add 1 91 w\<^sub>3 = Some (True, w\<^sub>4)"
    using ex_add_succeeds checks(3) by metis
  have "accountId 0 ex_two_sessions = 7" "accountId 1 ex_two_sessions = 7" "db_ready ex_two_sessions"
    "filter_mset (ex_sat ?q) (mset (mongo ex_two_sessions ''zway.requests'')) = {#}"
    by (simp_all add: ex_two_sessions_def ex_session_def ex_dbs_def)
  then have "\<not> p\<^sub>1 \<and> \<not> p\<^sub>2 \<and> (\<exists>d. DB_requestPending ex_env ?q (w_dbs w\<^sub>4) = Some (False, d))"
    using overlapping_contact_requests [OF ex_env_mongo ex_env_bson ex_env_builder ex_sat_laws _ _ _ refl _ _ _ checks(1,2) adds] by simp
  with checks adds show ?thesis by metis
qed

end
